(* ===== verification/Idp_Prelude.thy ===== *)
theory Idp_Prelude
  imports Main "HOL-Library.Char_ord" "HOL-Library.List_Lexorder" "HOL-Library.Sublist"
    "HOL-Library.AList"
begin

text \<open>
  Shared ground of the development: the names of the types every component uses, the
  theorem collections the component theories fill, and generic lemmas on lists and
  association lists.

  A Go \<open>string\<close> or \<open>[]byte\<close> is a \<open>string\<close>, that is a list of bytes; an error return is
  a sum, \<open>Inl\<close> holding the error; a Go map that the code ranges over or serialises is
  an association list, read with \<open>map_of\<close> and written with \<open>AList.update\<close>.
\<close>

subsection \<open>Types\<close>

type_synonym ('k, 'v) gomap = "('k \<times> 'v) list"

subsection \<open>Collections the component theories fill\<close>

named_theorems handler_defs \<open>definitions of the HTTP handlers and of the writers they use\<close>

named_theorems store_defs \<open>definitions of the idempotency store operations\<close>

named_theorems vo_defs \<open>definitions of the value object constructors\<close>

subsection \<open>Maps as association lists\<close>

abbreviation put :: "'k \<Rightarrow> 'v \<Rightarrow> ('k, 'v) gomap \<Rightarrow> ('k, 'v) gomap" where
  "put \<equiv> AList.update"

lemma map_of_put [simp]: "map_of (put k v m) = (map_of m)(k \<mapsto> v)"
  by (simp add: update_conv' fun_eq_iff)

lemma map_of_put_same: "map_of (put k v m) k = Some v"
  by simp

lemma map_of_put_other: "k' \<noteq> k \<Longrightarrow> map_of (put k v m) k' = map_of m k'"
  by simp

lemma distinct_keys_put [intro]:
  "distinct (map fst m) \<Longrightarrow> distinct (map fst (put k v m))"
  by (rule distinct_update)

lemma fst_set_put [simp]: "fst ` set (put k v m) = insert k (fst ` set m)"
  by (simp add: dom_update)

subsection \<open>Substrings\<close>

fun contains :: "'a list \<Rightarrow> 'a list \<Rightarrow> bool" where
  "contains n [] \<longleftrightarrow> n = []"
| "contains n (x # xs) \<longleftrightarrow> prefix n (x # xs) \<or> contains n xs"

lemma contains_sublist: "contains n s \<longleftrightarrow> sublist n s"
  by (induction s) (auto simp: sublist_Cons_right)

lemma contains_mid [intro, simp]: "contains n (a @ n @ b)"
  by (auto simp: contains_sublist)

lemma contains_appendI1: "contains n a \<Longrightarrow> contains n (a @ b)"
  by (force simp: contains_sublist sublist_def)

lemma contains_appendI2: "contains n b \<Longrightarrow> contains n (a @ b)"
  by (auto simp: contains_sublist sublist_def) (metis append.assoc)

subsection \<open>Lists split at a delimiter\<close>

lemma split_at_first:
  "x \<in> set xs \<Longrightarrow> \<exists>ys zs. xs = ys @ x # zs \<and> x \<notin> set ys"
  by (rule split_list_first)

lemma takeWhile_neq_append [simp]:
  "x \<notin> set ys \<Longrightarrow> takeWhile (\<lambda>c. c \<noteq> x) (ys @ x # zs) = ys"
  by (subst takeWhile_append2) auto

lemma dropWhile_neq_append [simp]:
  "x \<notin> set ys \<Longrightarrow> dropWhile (\<lambda>c. c \<noteq> x) (ys @ x # zs) = x # zs"
  by (subst dropWhile_append2) auto

end
