(* ===== verification/Go_Strings.thy ===== *)
theory Go_Strings
  imports Idp_Prelude
begin

text \<open>
  The functions of Go's \<open>strings\<close>, \<open>strconv\<close> and \<open>encoding/hex\<close> packages that the services
  call, on byte strings. \<open>strings.TrimSpace\<close> is modelled for all of Unicode's white space
  (its UTF-8 encodings are listed); the letter case of non-ASCII runes comes from Unicode
  tables, so \<open>to_lower\<close> and \<open>to_upper\<close> take that path of the library as an argument and only
  the ASCII path is written out.
\<close>

subsection \<open>Bytes\<close>

abbreviation byte :: "char \<Rightarrow> nat" where
  "byte \<equiv> of_char"

definition is_ascii_byte :: "char \<Rightarrow> bool" where
  "is_ascii_byte c \<longleftrightarrow> byte c < 128"

definition is_ascii :: "string \<Rightarrow> bool" where
  "is_ascii s \<longleftrightarrow> list_all is_ascii_byte s"

definition in_range :: "char \<Rightarrow> char \<Rightarrow> char \<Rightarrow> bool" where
  "in_range a b c \<longleftrightarrow> byte a \<le> byte c \<and> byte c \<le> byte b"

abbreviation is_upper :: "char \<Rightarrow> bool" where
  "is_upper \<equiv> in_range (CHR ''A'') (CHR ''Z'')"

abbreviation is_lower :: "char \<Rightarrow> bool" where
  "is_lower \<equiv> in_range (CHR ''a'') (CHR ''z'')"

abbreviation is_digit :: "char \<Rightarrow> bool" where
  "is_digit \<equiv> in_range (CHR ''0'') (CHR ''9'')"

subsection \<open>Letter case\<close>

definition lower_byte :: "char \<Rightarrow> char" where
  "lower_byte c = (if is_upper c then char_of (byte c + 32) else c)"

definition upper_byte :: "char \<Rightarrow> char" where
  "upper_byte c = (if is_lower c then char_of (byte c - 32) else c)"

definition to_lower :: "(string \<Rightarrow> string) \<Rightarrow> string \<Rightarrow> string" where
  "to_lower unicode_lower s =
     (if is_ascii s then map lower_byte s else unicode_lower s)"

definition to_upper :: "(string \<Rightarrow> string) \<Rightarrow> string \<Rightarrow> string" where
  "to_upper unicode_upper s =
     (if is_ascii s then map upper_byte s else unicode_upper s)"

lemma all_chars: "(\<forall>c. P c) \<longleftrightarrow> list_all P (enum_class.enum :: char list)"
  by (simp add: list_all_iff enum_UNIV)

lemma lower_byte_not_upper [simp]: "\<not> is_upper (lower_byte c)"
  by (auto simp: lower_byte_def in_range_def of_char_of)

lemma upper_byte_not_lower [simp]: "\<not> is_lower (upper_byte c)"
  by (auto simp: upper_byte_def in_range_def of_char_of)

lemma lower_byte_id: "\<not> is_upper c \<Longrightarrow> lower_byte c = c"
  by (simp add: lower_byte_def)

lemma upper_byte_id: "\<not> is_lower c \<Longrightarrow> upper_byte c = c"
  by (simp add: upper_byte_def)

lemma to_lower_id:
  "is_ascii s \<Longrightarrow> \<forall>c\<in>set s. \<not> is_upper c \<Longrightarrow> to_lower u s = s"
  by (simp add: to_lower_def lower_byte_id map_idI)

lemma to_upper_id:
  "is_ascii s \<Longrightarrow> \<forall>c\<in>set s. \<not> is_lower c \<Longrightarrow> to_upper u s = s"
  by (simp add: to_upper_def upper_byte_id map_idI)

text \<open>
  The two facts about Unicode's case tables that the services rely on: lower-casing leaves
  no ASCII capital behind, upper-casing no ASCII small letter.
\<close>

locale unicode_case_tables =
  fixes unicode_lower :: "string \<Rightarrow> string"
    and unicode_upper :: "string \<Rightarrow> string"
  assumes unicode_lower_no_upper: "c \<in> set (unicode_lower s) \<Longrightarrow> \<not> is_upper c"
    and unicode_upper_no_lower: "c \<in> set (unicode_upper s) \<Longrightarrow> \<not> is_lower c"
begin

lemma to_lower_no_upper: "c \<in> set (to_lower unicode_lower s) \<Longrightarrow> \<not> is_upper c"
  by (auto simp: to_lower_def unicode_lower_no_upper split: if_splits)

lemma to_upper_no_lower: "c \<in> set (to_upper unicode_upper s) \<Longrightarrow> \<not> is_lower c"
  by (auto simp: to_upper_def unicode_upper_no_lower split: if_splits)

end

text \<open>The tables of a program whose non-ASCII input has no case, the bytes left as they are.\<close>

definition ascii_lower :: "string \<Rightarrow> string" where
  "ascii_lower s = map lower_byte s"

definition ascii_upper :: "string \<Rightarrow> string" where
  "ascii_upper s = map upper_byte s"

interpretation ascii_tables: unicode_case_tables ascii_lower ascii_upper
  by unfold_locales (auto simp: ascii_lower_def ascii_upper_def)

subsection \<open>White space\<close>

definition space_runes :: "string list" where
  "space_runes =
     [[CHR 0x09], [CHR 0x0A], [CHR 0x0B], [CHR 0x0C], [CHR 0x0D], [CHR 0x20],
      [CHR 0xC2, CHR 0x85], [CHR 0xC2, CHR 0xA0], [CHR 0xE1, CHR 0x9A, CHR 0x80]]
     @ map (\<lambda>n. [CHR 0xE2, CHR 0x80, char_of n]) [0x80..<(0x8B::nat)]
     @ [[CHR 0xE2, CHR 0x80, CHR 0xA8], [CHR 0xE2, CHR 0x80, CHR 0xA9],
        [CHR 0xE2, CHR 0x80, CHR 0xAF], [CHR 0xE2, CHR 0x81, CHR 0x9F],
        [CHR 0xE3, CHR 0x80, CHR 0x80]]"

fun drop_one :: "string list \<Rightarrow> string \<Rightarrow> string option" where
  "drop_one [] s = None"
| "drop_one (p # ps) s =
     (if p \<noteq> [] \<and> prefix p s then Some (drop (length p) s) else drop_one ps s)"

lemma drop_one_shorter: "drop_one ps s = Some t \<Longrightarrow> length t < length s"
proof (induction ps s rule: drop_one.induct)
  case (2 p ps s)
  then show ?case by (cases p) (auto dest: prefix_length_le split: if_splits)
qed simp

function strip_left :: "string list \<Rightarrow> string \<Rightarrow> string" where
  "strip_left ps s = (case drop_one ps s of None \<Rightarrow> s | Some t \<Rightarrow> strip_left ps t)"
  by pat_completeness auto
termination
  by (relation "measure (\<lambda>(ps, s). length s)") (auto dest: drop_one_shorter)

declare strip_left.simps [simp del]

definition strip_right :: "string list \<Rightarrow> string \<Rightarrow> string" where
  "strip_right ps s = rev (strip_left (map rev ps) (rev s))"

definition trim_space :: "string \<Rightarrow> string" where
  "trim_space s = strip_right space_runes (strip_left space_runes s)"

lemma drop_one_None: "drop_one ps s = None \<longleftrightarrow> (\<forall>p\<in>set ps. p \<noteq> [] \<longrightarrow> \<not> prefix p s)"
  by (induction ps s rule: drop_one.induct) auto

lemma drop_one_suffix: "drop_one ps s = Some t \<Longrightarrow> suffix t s"
  by (induction ps s rule: drop_one.induct) (auto simp: suffix_drop split: if_splits)

lemma strip_left_done: "drop_one ps (strip_left ps s) = None"
proof (induction ps s rule: strip_left.induct)
  case (1 ps s)
  then show ?case by (cases "drop_one ps s") (simp_all add: strip_left.simps [of ps s])
qed

lemma strip_left_id: "drop_one ps s = None \<Longrightarrow> strip_left ps s = s"
  by (simp add: strip_left.simps)

lemma strip_left_idem [simp]: "strip_left ps (strip_left ps s) = strip_left ps s"
  by (simp add: strip_left_id strip_left_done)

lemma strip_left_suffix: "suffix (strip_left ps s) s"
proof (induction ps s rule: strip_left.induct)
  case (1 ps s)
  show ?case
  proof (cases "drop_one ps s")
    case None
    then show ?thesis by (simp add: strip_left.simps)
  next
    case (Some t)
    with 1 have "suffix (strip_left ps t) t" by simp
    with Some drop_one_suffix [OF Some] show ?thesis
      by (auto simp: strip_left.simps [of ps s] intro: suffix_order.trans)
  qed
qed

lemma strip_right_prefix: "prefix (strip_right ps s) s"
  using strip_left_suffix [of "map rev ps" "rev s"]
  by (auto simp: strip_right_def suffix_to_prefix)

lemma strip_right_idem [simp]: "strip_right ps (strip_right ps s) = strip_right ps s"
  by (simp add: strip_right_def)

lemma strip_left_strip_right:
  assumes "drop_one ps s = None"
  shows "strip_left ps (strip_right ps s) = strip_right ps s"
proof (rule strip_left_id)
  have "\<not> prefix p (strip_right ps s)" if "p \<in> set ps" "p \<noteq> []" for p
    using that assms strip_right_prefix [of ps s]
    by (auto simp: drop_one_None dest: prefix_order.trans)
  then show "drop_one ps (strip_right ps s) = None"
    by (auto simp: drop_one_None)
qed

lemma trim_space_idem [simp]: "trim_space (trim_space s) = trim_space s"
  by (simp add: trim_space_def strip_left_strip_right strip_left_done)

lemma trim_space_sublist: "sublist (trim_space s) s"
proof -
  have "sublist (trim_space s) (strip_left space_runes s)"
    unfolding trim_space_def by (rule prefix_imp_sublist [OF strip_right_prefix])
  moreover have "sublist (strip_left space_runes s) s"
    by (rule suffix_imp_sublist [OF strip_left_suffix])
  ultimately show ?thesis by (rule sublist_order.order.trans)
qed

lemma set_trim_space: "set (trim_space s) \<subseteq> set s"
  using trim_space_sublist by (rule set_mono_sublist)

lemma length_trim_space: "length (trim_space s) \<le> length s"
  using trim_space_sublist by (rule sublist_length_le)

text \<open>A string of ASCII bytes that begins and ends with no white space is left alone.\<close>

definition ascii_space :: "char \<Rightarrow> bool" where
  "ascii_space c \<longleftrightarrow> c \<in> {CHR 0x09, CHR 0x0A, CHR 0x0B, CHR 0x0C, CHR 0x0D, CHR 0x20}"

lemma space_rune_hd: "p \<in> set space_runes \<Longrightarrow> p \<noteq> [] \<and> (ascii_space (hd p) \<or> \<not> is_ascii_byte (hd p))"
  by (auto simp: space_runes_def ascii_space_def is_ascii_byte_def)

lemma space_rune_last: "p \<in> set space_runes \<Longrightarrow> ascii_space (last p) \<or> \<not> is_ascii_byte (last p)"
  by (auto simp: space_runes_def ascii_space_def is_ascii_byte_def of_char_of)

lemma trim_space_ascii_id:
  assumes "is_ascii s" and "s \<noteq> []" and "\<not> ascii_space (hd s)" and "\<not> ascii_space (last s)"
  shows "trim_space s = s"
proof -
  have asc: "is_ascii_byte c" if "c \<in> set s" for c
    using assms(1) that by (auto simp: is_ascii_def list_all_iff)
  have "\<not> prefix p s" if p: "p \<in> set space_runes" for p
  proof
    assume "prefix p s"
    with space_rune_hd [OF p] have "hd p = hd s"
      by (auto simp: prefix_def)
    with space_rune_hd [OF p] assms(2,3) asc show False by auto
  qed
  then have l: "strip_left space_runes s = s"
    by (intro strip_left_id) (auto simp: drop_one_None)
  have "\<not> prefix (rev p) (rev s)" if p: "p \<in> set space_runes" for p
  proof
    assume "prefix (rev p) (rev s)"
    then have "suffix p s" by (simp add: suffix_to_prefix)
    with space_rune_hd [OF p] have "last p = last s"
      by (auto simp: suffix_def)
    with space_rune_last [OF p] assms(2,4) asc show False by auto
  qed
  then have "strip_left (map rev space_runes) (rev s) = rev s"
    by (intro strip_left_id) (auto simp: drop_one_None)
  with l show ?thesis by (simp add: trim_space_def strip_right_def)
qed

subsection \<open>Prefixes, separators\<close>

definition trim_prefix :: "string \<Rightarrow> string \<Rightarrow> string" where
  "trim_prefix p s = (if prefix p s then drop (length p) s else s)"

text \<open>\<open>strings.Split\<close> on a separator of one byte.\<close>

fun split_byte :: "char \<Rightarrow> string \<Rightarrow> string list" where
  "split_byte sep [] = [[]]"
| "split_byte sep (c # s) =
     (if c = sep then [] # split_byte sep s
      else case split_byte sep s of [] \<Rightarrow> [[c]] | p # ps \<Rightarrow> (c # p) # ps)"

fun join_byte :: "char \<Rightarrow> string list \<Rightarrow> string" where
  "join_byte sep [] = []"
| "join_byte sep [p] = p"
| "join_byte sep (p # ps) = p @ sep # join_byte sep ps"

lemma split_byte_nonempty [simp]: "split_byte sep s \<noteq> []"
  by (induction s) (auto split: list.splits)

lemma join_split_byte: "join_byte sep (split_byte sep s) = s"
proof (induction s)
  case (Cons c s)
  obtain p ps where ps: "split_byte sep s = p # ps"
    by (cases "split_byte sep s") auto
  with Cons show ?case by (cases ps) auto
qed simp

lemma split_byte_no_sep: "p \<in> set (split_byte sep s) \<Longrightarrow> sep \<notin> set p"
  by (induction s arbitrary: p) (fastforce split: list.splits if_splits)+

lemma split_byte_cons:
  "sep \<notin> set p \<Longrightarrow> split_byte sep (p @ sep # s) = p # split_byte sep s"
  by (induction p) auto

lemma split_byte_single: "sep \<notin> set p \<Longrightarrow> split_byte sep p = [p]"
  by (induction p) auto

subsection \<open>Decimal and hexadecimal\<close>

lemma digit_char_of [simp]: "is_digit (char_of (48 + n mod 10))"
  for n :: nat
proof -
  have "n mod 10 < 10" by simp
  then have "(48 + n mod 10) mod 256 = 48 + n mod 10" by (simp add: mod_less)
  with \<open>n mod 10 < 10\<close> show ?thesis by (simp add: in_range_def of_char_of)
qed

lemma of_char_digit [simp]: "byte (char_of (48 + n mod 10)) - 48 = n mod 10"
  for n :: nat
proof -
  have "48 + n mod 10 < 256" by (rule less_le_trans [of _ "48 + 10"]) auto
  then show ?thesis by (simp add: of_char_of)
qed

fun digits :: "nat \<Rightarrow> string" where
  "digits n = (if n < 10 then [char_of (48 + n)]
               else digits (n div 10) @ [char_of (48 + n mod 10)])"

declare digits.simps [simp del]

text \<open>\<open>strconv.Itoa\<close>, and the \<open>%d\<close> verb of \<open>fmt\<close>.\<close>

definition itoa :: "int \<Rightarrow> string" where
  "itoa i = (if i < 0 then CHR ''-'' # digits (nat (- i)) else digits (nat i))"

text \<open>Go's \<open>int\<close> has 64 bits; \<open>read_int\<close> is \<open>strconv.ParseInt\<close> in base 10.\<close>

definition go_int :: "int \<Rightarrow> bool" where
  "go_int i \<longleftrightarrow> - (2 ^ 63) \<le> i \<and> i < 2 ^ 63"

definition dec_value :: "string \<Rightarrow> nat" where
  "dec_value s = foldl (\<lambda>a c. 10 * a + (byte c - 48)) 0 s"

definition read_nat :: "string \<Rightarrow> nat option" where
  "read_nat s = (if s \<noteq> [] \<and> list_all is_digit s then Some (dec_value s) else None)"

definition read_int :: "string \<Rightarrow> int option" where
  "read_int s =
     (let v = (case s of
                 c # r \<Rightarrow>
                   if c = CHR ''-'' then map_option (\<lambda>n. - int n) (read_nat r)
                   else if c = CHR ''+'' then map_option int (read_nat r)
                   else map_option int (read_nat s)
               | [] \<Rightarrow> None)
      in case v of Some i \<Rightarrow> if go_int i then Some i else None | None \<Rightarrow> None)"

lemma dec_value_snoc: "dec_value (s @ [c]) = 10 * dec_value s + (byte c - 48)"
  by (simp add: dec_value_def)

lemma dec_value_digits: "dec_value (digits n) = n"
proof (induction n rule: digits.induct)
  case (1 n)
  show ?case
  proof (cases "n < 10")
    case True
    then have "n mod 10 = n" by simp
    with True of_char_digit [of n] show ?thesis
      by (simp add: digits.simps [of n] dec_value_def)
  next
    case False
    with 1 show ?thesis by (simp add: digits.simps [of n] dec_value_snoc)
  qed
qed

lemma digits_digits: "list_all is_digit (digits n)" "digits n \<noteq> []"
proof (induction n rule: digits.induct)
  case (1 n)
  {
    case 1
    then show ?case
      using "1.IH"(1) digit_char_of [of n] by (cases "n < 10") (simp_all add: digits.simps [of n])
  next
    case 2
    then show ?case by (simp add: digits.simps [of n])
  }
qed

lemma read_nat_digits [simp]: "read_nat (digits n) = Some n"
  by (simp add: read_nat_def digits_digits dec_value_digits)

lemma digits_Cons:
  obtains c r where "digits n = c # r" "is_digit c" "c \<noteq> CHR ''-''" "c \<noteq> CHR ''+''"
proof -
  obtain c r where d: "digits n = c # r" using digits_digits(2) [of n] by (cases "digits n") auto
  then have "is_digit c" using digits_digits(1) [of n] by simp
  moreover from this have "c \<noteq> CHR ''-''" "c \<noteq> CHR ''+''" by (auto simp: in_range_def)
  ultimately show ?thesis using d that by blast
qed

lemma read_itoa: "go_int i \<Longrightarrow> read_int (itoa i) = Some i"
proof -
  assume i: "go_int i"
  obtain c r where d: "digits (nat i) = c # r" "c \<noteq> CHR ''-''" "c \<noteq> CHR ''+''"
    by (rule digits_Cons [of "nat i"])
  then have "read_nat (c # r) = Some (nat i)" using read_nat_digits [of "nat i"] by simp
  with d i show ?thesis by (cases "i < 0") (auto simp: itoa_def read_int_def)
qed

definition hex_digit :: "nat \<Rightarrow> char" where
  "hex_digit n = (if n < 10 then char_of (48 + n) else char_of (87 + n))"

text \<open>\<open>hex.EncodeToString\<close>.\<close>

definition hex_encode :: "string \<Rightarrow> string" where
  "hex_encode s = concat (map (\<lambda>c. [hex_digit (byte c div 16), hex_digit (byte c mod 16)]) s)"

lemma length_hex_encode: "length (hex_encode s) = 2 * length s"
  by (induction s) (auto simp: hex_encode_def)

lemma hex_digit_inj:
  assumes "a < 16" and "b < 16" and "hex_digit a = hex_digit b"
  shows "a = b"
proof -
  have "of_char (hex_digit a) = (of_char (hex_digit b) :: nat)"
    using assms(3) by simp
  with assms(1,2) show ?thesis
    by (auto simp: hex_digit_def of_char_of split: if_splits)
qed

lemma hex_encode_inj: "hex_encode s = hex_encode t \<Longrightarrow> s = t"
proof (induction s arbitrary: t)
  case Nil
  then show ?case by (cases t) (auto simp: hex_encode_def)
next
  case (Cons c s)
  from Cons.prems obtain d u where t: "t = d # u"
    by (cases t) (auto simp: hex_encode_def)
  from Cons.prems have q: "hex_digit (byte c div 16) = hex_digit (byte d div 16)"
    and r: "hex_digit (byte c mod 16) = hex_digit (byte d mod 16)"
    and u: "hex_encode s = hex_encode u"
    by (auto simp: t hex_encode_def)
  have "byte c div 16 < 16" "byte d div 16 < 16"
    using nat_of_char_less_256 [of c] nat_of_char_less_256 [of d] by linarith+
  then have "byte c div 16 = byte d div 16" "byte c mod 16 = byte d mod 16"
    using q r by (auto intro: hex_digit_inj)
  then have "byte c = byte d"
    by (metis div_mult_mod_eq)
  with Cons.IH [OF u] show ?case by (simp add: t)
qed

end
