(* ===== verification/Go_Regexp.thy ===== *)
theory Go_Regexp
  imports Go_Strings
begin

text \<open>
  The part of Go's \<open>regexp\<close> package that the email pattern needs: byte classes,
  sequence, repetition and bounded repetition, anchored at both ends. The matcher is the
  executable one by derivatives; \<open>lang\<close> is the language an expression denotes, and
  \<open>full_match_iff\<close> says that the two agree.
\<close>

subsection \<open>Expressions and their language\<close>

datatype regexp =
    Nothing
  | Empty
  | Class "char \<Rightarrow> bool"
  | Seq regexp regexp
  | Alt regexp regexp
  | Star regexp

definition conc :: "string set \<Rightarrow> string set \<Rightarrow> string set" where
  "conc A B = {u @ v | u v. u \<in> A \<and> v \<in> B}"

inductive_set star :: "string set \<Rightarrow> string set" for A where
  star_Nil: "[] \<in> star A"
| star_app: "u \<in> A \<Longrightarrow> v \<in> star A \<Longrightarrow> u @ v \<in> star A"

primrec lang :: "regexp \<Rightarrow> string set" where
  "lang Nothing = {}"
| "lang Empty = {[]}"
| "lang (Class p) = {[c] | c. p c}"
| "lang (Seq r s) = conc (lang r) (lang s)"
| "lang (Alt r s) = lang r \<union> lang s"
| "lang (Star r) = star (lang r)"

text \<open>The repetition operators of the pattern: \<open>r+\<close> and \<open>r{2,}\<close>.\<close>

definition Plus :: "regexp \<Rightarrow> regexp" where
  "Plus r = Seq r (Star r)"

definition AtLeast2 :: "regexp \<Rightarrow> regexp" where
  "AtLeast2 r = Seq r (Seq r (Star r))"

definition Lit :: "char \<Rightarrow> regexp" where
  "Lit c = Class (\<lambda>d. d = c)"

subsection \<open>Matching by derivatives\<close>

primrec nullable :: "regexp \<Rightarrow> bool" where
  "nullable Nothing \<longleftrightarrow> False"
| "nullable Empty \<longleftrightarrow> True"
| "nullable (Class p) \<longleftrightarrow> False"
| "nullable (Seq r s) \<longleftrightarrow> nullable r \<and> nullable s"
| "nullable (Alt r s) \<longleftrightarrow> nullable r \<or> nullable s"
| "nullable (Star r) \<longleftrightarrow> True"

primrec deriv :: "char \<Rightarrow> regexp \<Rightarrow> regexp" where
  "deriv c Nothing = Nothing"
| "deriv c Empty = Nothing"
| "deriv c (Class p) = (if p c then Empty else Nothing)"
| "deriv c (Seq r s) =
     (if nullable r then Alt (Seq (deriv c r) s) (deriv c s) else Seq (deriv c r) s)"
| "deriv c (Alt r s) = Alt (deriv c r) (deriv c s)"
| "deriv c (Star r) = Seq (deriv c r) (Star r)"

fun full_match :: "regexp \<Rightarrow> string \<Rightarrow> bool" where
  "full_match r [] \<longleftrightarrow> nullable r"
| "full_match r (c # s) \<longleftrightarrow> full_match (deriv c r) s"

subsection \<open>The matcher decides the language\<close>

lemma concI: "u \<in> A \<Longrightarrow> v \<in> B \<Longrightarrow> u @ v \<in> conc A B"
  by (auto simp: conc_def)

lemma nullable_iff: "nullable r \<longleftrightarrow> [] \<in> lang r"
  by (induction r) (auto simp: conc_def star_Nil)

lemma Cons_in_conc:
  "c # w \<in> conc A B \<longleftrightarrow>
     (\<exists>u v. w = u @ v \<and> c # u \<in> A \<and> v \<in> B) \<or> ([] \<in> A \<and> c # w \<in> B)"
  by (auto simp: conc_def Cons_eq_append_conv)

lemma Cons_in_star_aux:
  "x \<in> star A \<Longrightarrow> x = c # w \<Longrightarrow> \<exists>u v. w = u @ v \<and> c # u \<in> A \<and> v \<in> star A"
proof (induction arbitrary: w rule: star.induct)
  case (star_app u v)
  then show ?case by (cases u) auto
qed simp

lemma Cons_in_star:
  "c # w \<in> star A \<longleftrightarrow> (\<exists>u v. w = u @ v \<and> c # u \<in> A \<and> v \<in> star A)"
  using Cons_in_star_aux star_app [of "c # u" for u] by fastforce

lemma lang_deriv: "w \<in> lang (deriv c r) \<longleftrightarrow> c # w \<in> lang r"
proof (induction r arbitrary: w)
  case (Seq r s)
  then show ?case
    by (auto simp: Cons_in_conc nullable_iff) (auto simp: conc_def)
next
  case (Star r)
  then show ?case by (auto simp: Cons_in_star conc_def)
qed auto

lemma full_match_iff: "full_match r s \<longleftrightarrow> s \<in> lang r"
  by (induction s arbitrary: r) (simp_all add: nullable_iff lang_deriv)

subsection \<open>Repetition of a byte class\<close>

lemma conc_Class: "w \<in> conc {[c] | c. p c} B \<longleftrightarrow> (\<exists>c v. w = c # v \<and> p c \<and> v \<in> B)"
proof
  assume "\<exists>c v. w = c # v \<and> p c \<and> v \<in> B"
  then obtain c v where "w = [c] @ v" "p c" "v \<in> B" by auto
  then show "w \<in> conc {[c] | c. p c} B" unfolding conc_def by blast
qed (auto simp: conc_def)

lemma star_Class_Cons:
  "c # w \<in> star {[c] | c. p c} \<longleftrightarrow> p c \<and> w \<in> star {[c] | c. p c}"
  by (subst Cons_in_star) auto

lemma lang_Star_Class: "lang (Star (Class p)) = {w. \<forall>c\<in>set w. p c}"
proof -
  have "w \<in> star {[c] | c. p c} \<longleftrightarrow> (\<forall>c\<in>set w. p c)" for w
    by (induction w) (simp_all add: star_Nil star_Class_Cons del: mem_Collect_eq)
  then show ?thesis by auto
qed

lemma lang_Plus_Class: "lang (Plus (Class p)) = {w. w \<noteq> [] \<and> (\<forall>c\<in>set w. p c)}"
proof -
  have "w \<in> conc {[c] | c. p c} {w. \<forall>c\<in>set w. p c} \<longleftrightarrow> w \<noteq> [] \<and> (\<forall>c\<in>set w. p c)" for w
    by (cases w) (auto simp: conc_Class)
  then show ?thesis
    using lang_Star_Class [of p] by (auto simp: Plus_def)
qed

lemma lang_AtLeast2_Class:
  "lang (AtLeast2 (Class p)) = {w. 2 \<le> length w \<and> (\<forall>c\<in>set w. p c)}"
proof -
  have "w \<in> conc {[c] | c. p c} {w. w \<noteq> [] \<and> (\<forall>c\<in>set w. p c)}
      \<longleftrightarrow> 2 \<le> length w \<and> (\<forall>c\<in>set w. p c)" for w
    by (cases w) (auto simp: conc_Class Suc_le_eq)
  moreover have "lang (AtLeast2 (Class p)) = conc {[c] | c. p c} (lang (Plus (Class p)))"
    by (simp add: AtLeast2_def Plus_def)
  ultimately show ?thesis by (auto simp: lang_Plus_Class)
qed

end
