(* ===== verification/Domain_Errors.thy ===== *)
theory Domain_Errors
  imports Go_Strings
begin

text \<open>
  Go's error values and \<open>services/api/internal/domain/errors/errors.go\<close>: the sentinel
  errors, \<open>DomainError\<close> with its cause and details, wrapping by \<open>fmt.Errorf\<close> with \<open>%w\<close>,
  the chain \<open>errors.Unwrap\<close> walks and \<open>errors.Is\<close>. The errors the program compares with are
  the package-level sentinels, so the target of \<open>errors.Is\<close> is a sentinel; errors that come
  from a library or from \<open>fmt.Errorf\<close> without \<open>%w\<close> are \<open>Opaque\<close>, known by their text.
\<close>

subsection \<open>Error values\<close>

datatype sentinel =
    ErrNotFound | ErrAlreadyExists | ErrInvalidInput | ErrUnauthorized | ErrForbidden
  | ErrInternal | ErrTimeout | ErrUnavailable
  | ErrIdempotencyNotFound | RedisNil | ErrMissingConfig | ErrEmptyQueueURL

datatype gval = VNil | VBool bool | VInt int | VStr string | VStrs "string list"

datatype goerr =
    Sentinel sentinel
  | Opaque string
  | Wrapped string goerr string
  | DomainErr domain_error
and domain_error =
  DomainError (Code: string) (Message: string) (Cause: "goerr option")
    (Details: "(string, gval) gomap option")

primrec sentinel_text :: "sentinel \<Rightarrow> string" where
  "sentinel_text ErrNotFound = ''resource not found''"
| "sentinel_text ErrAlreadyExists = ''resource already exists''"
| "sentinel_text ErrInvalidInput = ''invalid input''"
| "sentinel_text ErrUnauthorized = ''unauthorized''"
| "sentinel_text ErrForbidden = ''forbidden''"
| "sentinel_text ErrInternal = ''internal error''"
| "sentinel_text ErrTimeout = ''operation timed out''"
| "sentinel_text ErrUnavailable = ''service unavailable''"
| "sentinel_text ErrIdempotencyNotFound = ''idempotency record not found''"
| "sentinel_text RedisNil = ''redis: nil''"
| "sentinel_text ErrMissingConfig = ''missing required configuration''"
| "sentinel_text ErrEmptyQueueURL = ''SQS queue URL is empty''"

subsection \<open>DomainError\<close>

text \<open>\<open>Error()\<close>: code, message and, when there is one, the text of the cause.\<close>

fun error_text :: "goerr \<Rightarrow> string" and domain_error_text :: "domain_error \<Rightarrow> string" where
  "error_text (Sentinel s) = sentinel_text s"
| "error_text (Opaque t) = t"
| "error_text (Wrapped pre e post) = pre @ error_text e @ post"
| "error_text (DomainErr d) = domain_error_text d"
| "domain_error_text (DomainError code msg (Some c) det) =
     code @ '': '' @ msg @ '': '' @ error_text c"
| "domain_error_text (DomainError code msg None det) = code @ '': '' @ msg"

definition unwrap_domain :: "domain_error \<Rightarrow> goerr option" where
  "unwrap_domain d = Cause d"

definition with_detail :: "domain_error \<Rightarrow> string \<Rightarrow> gval \<Rightarrow> domain_error" where
  "with_detail d key v =
     DomainError (Code d) (Message d) (Cause d)
       (Some (put key v (case Details d of None \<Rightarrow> [] | Some m \<Rightarrow> m)))"

definition new_domain_error :: "string \<Rightarrow> string \<Rightarrow> goerr option \<Rightarrow> domain_error" where
  "new_domain_error code msg cause = DomainError code msg cause None"

subsection \<open>errors.Unwrap and errors.Is\<close>

text \<open>
  \<open>errors.Is\<close> compares the error with the target, asks the error's own \<open>Is\<close> method when it
  has one, and goes on with the unwrapped error; \<open>DomainError.Is\<close> asks \<open>errors.Is\<close> of its
  cause. \<open>unwrap\<close> is the \<open>Unwrap\<close> method of the error, \<open>None\<close> for nil or no method.
\<close>

primrec unwrap :: "goerr \<Rightarrow> goerr option" where
  "unwrap (Sentinel s) = None"
| "unwrap (Opaque t) = None"
| "unwrap (Wrapped pre e post) = Some e"
| "unwrap (DomainErr d) = unwrap_domain d"

fun errors_is :: "goerr \<Rightarrow> sentinel \<Rightarrow> bool" and domain_is :: "domain_error \<Rightarrow> sentinel \<Rightarrow> bool" where
  "errors_is (Sentinel s) t \<longleftrightarrow> s = t"
| "errors_is (Opaque x) t \<longleftrightarrow> False"
| "errors_is (Wrapped pre e post) t \<longleftrightarrow> errors_is e t"
| "errors_is (DomainErr d) t \<longleftrightarrow>
     domain_is d t \<or>
     (case d of DomainError _ _ None _ \<Rightarrow> False | DomainError _ _ (Some e) _ \<Rightarrow> errors_is e t)"
| "domain_is (DomainError code msg (Some e) det) t \<longleftrightarrow> errors_is e t"
| "domain_is (DomainError code msg None det) t \<longleftrightarrow> False"

text \<open>The chain of errors that repeated unwrapping visits.\<close>

inductive in_chain :: "goerr \<Rightarrow> goerr \<Rightarrow> bool" where
  chain_here: "in_chain e e"
| chain_next: "unwrap e = Some e' \<Longrightarrow> in_chain e' x \<Longrightarrow> in_chain e x"

inductive_simps in_chain_simps: "in_chain e x"

lemma errors_is_chain_aux:
  "errors_is e t \<longleftrightarrow> in_chain e (Sentinel t)"
  "domain_is d t \<longleftrightarrow> (\<exists>c. Cause d = Some c \<and> in_chain c (Sentinel t))"
proof (induction e t and d t rule: errors_is_domain_is.induct)
  case (4 d t)
  then show ?case
    by (cases d) (auto simp: in_chain_simps [of "DomainErr _"] unwrap_domain_def split: option.splits)
qed (auto simp: in_chain_simps [of "Sentinel _"] in_chain_simps [of "Opaque _"]
       in_chain_simps [of "Wrapped _ _ _"])

lemma errors_is_chain: "errors_is e t \<longleftrightarrow> in_chain e (Sentinel t)"
  by (rule errors_is_chain_aux)

text \<open>\<open>DomainError.Is\<close> adds nothing to what \<open>Unwrap\<close> already gives \<open>errors.Is\<close>.\<close>

lemma domain_is_redundant:
  "errors_is (DomainErr d) t \<longleftrightarrow> domain_is d t"
  by (cases d) (auto split: option.splits)

subsection \<open>Error codes and constructors\<close>

definition ErrCodeResourceNotFound where "ErrCodeResourceNotFound = ''RESOURCE_NOT_FOUND''"
definition ErrCodeResourceAlreadyExists where
  "ErrCodeResourceAlreadyExists = ''RESOURCE_ALREADY_EXISTS''"
definition ErrCodeAuthFailed where "ErrCodeAuthFailed = ''AUTH_FAILED''"
definition ErrCodeUserAlreadyExists where "ErrCodeUserAlreadyExists = ''USER_ALREADY_EXISTS''"
definition ErrCodeInvalidCredentials where "ErrCodeInvalidCredentials = ''INVALID_CREDENTIALS''"
definition ErrCodeInvalidConfirmationCode where
  "ErrCodeInvalidConfirmationCode = ''INVALID_CONFIRMATION_CODE''"
definition ErrCodeValidationFailed where "ErrCodeValidationFailed = ''VALIDATION_FAILED''"
definition ErrCodeExternalService where "ErrCodeExternalService = ''EXTERNAL_SERVICE_ERROR''"
definition ErrCodeQueueError where "ErrCodeQueueError = ''QUEUE_ERROR''"

definition not_found_error :: "string \<Rightarrow> string \<Rightarrow> domain_error" where
  "not_found_error resource ident =
     new_domain_error ErrCodeResourceNotFound
       (resource @ '' with id '' @ [CHR 0x27] @ ident @ [CHR 0x27] @ '' not found'')
       (Some (Sentinel ErrNotFound))"

definition already_exists_error :: "string \<Rightarrow> string \<Rightarrow> domain_error" where
  "already_exists_error resource ident =
     new_domain_error ErrCodeResourceAlreadyExists
       (resource @ '' with id '' @ [CHR 0x27] @ ident @ [CHR 0x27] @ '' already exists'')
       (Some (Sentinel ErrAlreadyExists))"

definition invalid_input_error :: "string \<Rightarrow> domain_error" where
  "invalid_input_error msg =
     new_domain_error ErrCodeValidationFailed msg (Some (Sentinel ErrInvalidInput))"

definition unauthorized_error :: "string \<Rightarrow> domain_error" where
  "unauthorized_error msg =
     new_domain_error ErrCodeAuthFailed msg (Some (Sentinel ErrUnauthorized))"

definition forbidden_error :: "string \<Rightarrow> domain_error" where
  "forbidden_error msg =
     new_domain_error ErrCodeAuthFailed msg (Some (Sentinel ErrForbidden))"

definition internal_error :: "string \<Rightarrow> goerr option \<Rightarrow> domain_error" where
  "internal_error msg cause = new_domain_error ErrCodeExternalService msg cause"

subsection \<open>Field-level validation errors\<close>

record validation_error =
  ve_field :: string
  ve_message :: string
  ve_value :: gval

definition validation_error_text :: "validation_error \<Rightarrow> string" where
  "validation_error_text e = ve_field e @ '': '' @ ve_message e"

definition validation_errors_text :: "validation_error list \<Rightarrow> string" where
  "validation_errors_text es =
     (if length es = 0 then ''validation failed''
      else ''validation failed: '' @ itoa (int (length es)) @ '' errors'')"

definition new_validation_error :: "string \<Rightarrow> string \<Rightarrow> gval \<Rightarrow> validation_error" where
  "new_validation_error field msg v = \<lparr>ve_field = field, ve_message = msg, ve_value = v\<rparr>"

subsection \<open>What the constructors promise\<close>

lemma errors_is_with_detail:
  "errors_is (DomainErr (with_detail d key v)) t \<longleftrightarrow> errors_is (DomainErr d) t"
  by (cases d) (auto simp: with_detail_def split: option.splits)

lemma error_text_with_detail:
  "error_text (DomainErr (with_detail d key v)) = error_text (DomainErr d)"
  by (cases d; cases "Cause d") (auto simp: with_detail_def)

lemma errors_is_new_domain_error:
  "errors_is (DomainErr (new_domain_error code msg cause)) t \<longleftrightarrow>
     (\<exists>c. cause = Some c \<and> errors_is c t)"
  by (auto simp: new_domain_error_def split: option.splits)

lemmas error_constructor_defs =
  not_found_error_def already_exists_error_def invalid_input_error_def
  unauthorized_error_def forbidden_error_def internal_error_def

subsection \<open>Properties\<close>

text \<open>C16: \<open>errors.Is\<close> holds of an error and a sentinel exactly when the sentinel is in the chain
  that repeated unwrapping of the error visits; \<open>DomainError.Is\<close> adds nothing to it.\<close>

theorem errors_is_iff_in_chain:
  "(errors_is e t \<longleftrightarrow> in_chain e (Sentinel t)) \<and> (errors_is (DomainErr d) t \<longleftrightarrow> domain_is d t)"
  using errors_is_chain [of e t] domain_is_redundant [of d t] by blast

text \<open>Each constructor of a domain error gives an error that is exactly its own sentinel under
  \<open>errors.Is\<close>, also after details were added, and an internal error is what its cause is.\<close>

theorem constructors_keep_sentinel:
  "(errors_is (DomainErr (not_found_error a b)) t \<longleftrightarrow> t = ErrNotFound) \<and>
   (errors_is (DomainErr (already_exists_error a b)) t \<longleftrightarrow> t = ErrAlreadyExists) \<and>
   (errors_is (DomainErr (invalid_input_error a)) t \<longleftrightarrow> t = ErrInvalidInput) \<and>
   (errors_is (DomainErr (unauthorized_error a)) t \<longleftrightarrow> t = ErrUnauthorized) \<and>
   (errors_is (DomainErr (forbidden_error a)) t \<longleftrightarrow> t = ErrForbidden) \<and>
   (errors_is (DomainErr (internal_error a (Some c))) t \<longleftrightarrow> errors_is c t) \<and>
   (errors_is (DomainErr (with_detail d k v)) t \<longleftrightarrow> errors_is (DomainErr d) t)"
  unfolding error_constructor_defs errors_is_new_domain_error errors_is_with_detail by auto

end
