(* ===== verification/Value_Objects.thy ===== *)
theory Value_Objects
  imports Go_Regexp Domain_Errors
begin

text \<open>
  \<open>services/api/internal/domain/valueobjects/valueobjects.go\<close>: the six value objects, each a
  constructor that normalises and validates a string. The locale \<open>value_object\<close> is what a
  value object promises (a constructed value is valid, and building again from the text of
  a valid value gives that value back); each type of the file is an instance. The case
  tables of Unicode (arguments \<open>ulow\<close>, \<open>uup\<close>) are the library's, see \<open>Go_Strings\<close>.
\<close>

subsection \<open>The contract of a value object\<close>

locale value_object =
  fixes make :: "string \<Rightarrow> goerr + 'v"
    and text_of :: "'v \<Rightarrow> string"
    and valid :: "'v \<Rightarrow> bool"
  assumes make_valid: "make s = Inr v \<Longrightarrow> valid v"
    and make_text_of: "valid v \<Longrightarrow> make (text_of v) = Inr v"
begin

lemma make_again: "make s = Inr v \<Longrightarrow> make (text_of v) = Inr v"
  by (simp add: make_valid make_text_of)

lemma text_of_inj: "valid v \<Longrightarrow> valid w \<Longrightarrow> text_of v = text_of w \<Longrightarrow> v = w"
  by (metis make_text_of sum.inject(2))

lemma valid_iff_made: "valid v \<longleftrightarrow> (\<exists>s. make s = Inr v)"
  using make_text_of make_valid by blast

end

subsection \<open>Email\<close>

record email = email_value :: string

definition is_alnum :: "char \<Rightarrow> bool" where
  "is_alnum c \<longleftrightarrow> is_lower c \<or> is_upper c \<or> is_digit c"

definition local_byte :: "char \<Rightarrow> bool" where
  "local_byte c \<longleftrightarrow> is_alnum c \<or> c \<in> set ''._%+-''"

definition host_byte :: "char \<Rightarrow> bool" where
  "host_byte c \<longleftrightarrow> is_alnum c \<or> c \<in> set ''.-''"

definition tld_byte :: "char \<Rightarrow> bool" where
  "tld_byte c \<longleftrightarrow> is_lower c \<or> is_upper c"

definition email_regex :: regexp where
  "email_regex =
     Seq (Plus (Class local_byte))
       (Seq (Lit (CHR ''@''))
         (Seq (Plus (Class host_byte))
           (Seq (Lit (CHR ''.'')) (AtLeast2 (Class tld_byte)))))"

definition new_email :: "(string \<Rightarrow> string) \<Rightarrow> string \<Rightarrow> goerr + email" where
  "new_email ulow value =
     (let normalized = to_lower ulow (trim_space value) in
      if normalized = '''' then Inl (Opaque ''email cannot be empty'')
      else if 254 < length normalized then
        Inl (Opaque ''email cannot exceed 254 characters'')
      else if \<not> full_match email_regex normalized then
        Inl (Opaque ''invalid email format'')
      else Inr \<lparr>email_value = normalized\<rparr>)"

definition email_string :: "email \<Rightarrow> string" where
  "email_string e = email_value e"

definition valid_email :: "email \<Rightarrow> bool" where
  "valid_email e \<longleftrightarrow>
     length (email_value e) \<le> 254 \<and> full_match email_regex (email_value e) \<and>
     (\<forall>c\<in>set (email_value e). \<not> is_upper c)"

text \<open>The shape of an accepted address: a local part, \<open>@\<close>, a host and a top-level name.\<close>

lemma full_match_email_regex:
  "full_match email_regex s \<longleftrightarrow>
     (\<exists>l h t. s = l @ ''@'' @ h @ ''.'' @ t \<and>
        l \<noteq> [] \<and> (\<forall>c\<in>set l. local_byte c) \<and>
        h \<noteq> [] \<and> (\<forall>c\<in>set h. host_byte c) \<and>
        2 \<le> length t \<and> (\<forall>c\<in>set t. tld_byte c))"
proof -
  have lit: "lang (Lit c) = {[c]}" for c
    by (auto simp: Lit_def)
  show ?thesis
    unfolding full_match_iff email_regex_def lang.simps(4) lit lang_Plus_Class
      lang_AtLeast2_Class conc_def
    by (auto; blast)
qed

lemma email_byte_ascii:
  assumes "full_match email_regex s" and "c \<in> set s"
  shows "is_ascii_byte c \<and> \<not> ascii_space c"
proof -
  have cl: "local_byte c \<Longrightarrow> is_ascii_byte c \<and> \<not> ascii_space c"
    "host_byte c \<Longrightarrow> is_ascii_byte c \<and> \<not> ascii_space c"
    "tld_byte c \<Longrightarrow> is_ascii_byte c \<and> \<not> ascii_space c" for c
    by (auto simp: local_byte_def host_byte_def tld_byte_def is_alnum_def in_range_def
        is_ascii_byte_def ascii_space_def)
  have at: "is_ascii_byte (CHR ''@'') \<and> \<not> ascii_space (CHR ''@'')"
    by (simp add: is_ascii_byte_def ascii_space_def)
  from assms(1) obtain l h t where "s = l @ ''@'' @ h @ ''.'' @ t"
    and "\<forall>c\<in>set l. local_byte c" "\<forall>c\<in>set h. host_byte c" "\<forall>c\<in>set t. tld_byte c"
    by (auto simp: full_match_email_regex)
  with assms(2) have "local_byte c \<or> host_byte c \<or> tld_byte c \<or> c = CHR ''@''"
    by (auto simp: host_byte_def)
  then show ?thesis
    using cl at by blast
qed

lemma email_match_ascii: "full_match email_regex s \<Longrightarrow> is_ascii s"
  by (auto simp: is_ascii_def list_all_iff dest: email_byte_ascii)

lemma email_match_nonempty: "full_match email_regex s \<Longrightarrow> s \<noteq> []"
  by (auto simp: full_match_email_regex)

lemma email_match_trimmed: "full_match email_regex s \<Longrightarrow> trim_space s = s"
  using email_byte_ascii [of s "hd s"] email_byte_ascii [of s "last s"]
  by (intro trim_space_ascii_id) (auto simp: email_match_ascii email_match_nonempty)

lemma new_email_valid_string:
  "valid_email e \<Longrightarrow> new_email u (email_string e) = Inr e"
  by (auto simp: valid_email_def new_email_def email_string_def email_match_trimmed
      to_lower_id email_match_ascii email_match_nonempty Let_def)

lemma new_email_Inr:
  "new_email u s = Inr e \<longleftrightarrow>
     email_value e = to_lower u (trim_space s) \<and> length (email_value e) \<le> 254 \<and>
     full_match email_regex (email_value e)"
  by (cases e) (auto simp: new_email_def Let_def email_match_nonempty dest: email_match_nonempty)

context unicode_case_tables
begin

lemma new_email_valid: "new_email unicode_lower s = Inr e \<Longrightarrow> valid_email e"
  by (auto simp: new_email_Inr valid_email_def to_lower_no_upper)

end

sublocale unicode_case_tables \<subseteq> email_vo: value_object "new_email unicode_lower" email_string valid_email
  by unfold_locales (auto simp: new_email_valid new_email_valid_string)

subsection \<open>CloudProvider\<close>

type_synonym cloud_provider = string

definition CloudProviderAWS :: cloud_provider where "CloudProviderAWS = ''AWS''"
definition CloudProviderAzure :: cloud_provider where "CloudProviderAzure = ''AZURE''"
definition CloudProviderGCP :: cloud_provider where "CloudProviderGCP = ''GCP''"

lemmas cloud_provider_consts = CloudProviderAWS_def CloudProviderAzure_def CloudProviderGCP_def

definition valid_cloud_providers :: "cloud_provider list" where
  "valid_cloud_providers = [CloudProviderAWS, CloudProviderAzure, CloudProviderGCP]"

definition new_cloud_provider :: "(string \<Rightarrow> string) \<Rightarrow> string \<Rightarrow> goerr + cloud_provider" where
  "new_cloud_provider uup value =
     (let normalized = trim_space value; upper = to_upper uup normalized in
      if upper = CloudProviderAWS then Inr CloudProviderAWS
      else if upper = CloudProviderAzure then Inr CloudProviderAzure
      else if upper = CloudProviderGCP then Inr CloudProviderGCP
      else Inl (Opaque (''invalid cloud provider: '' @ value @ '' (valid: AWS, Azure, GCP)'')))"

definition cloud_provider_string :: "cloud_provider \<Rightarrow> string" where
  "cloud_provider_string c = c"

definition cloud_provider_is_valid :: "cloud_provider \<Rightarrow> bool" where
  "cloud_provider_is_valid c \<longleftrightarrow>
     c = CloudProviderAWS \<or> c = CloudProviderAzure \<or> c = CloudProviderGCP"

text \<open>Trimming and the case maps leave the canonical names alone; decided by evaluation.\<close>

lemma cloud_provider_consts_normal:
  assumes "cloud_provider_is_valid c"
  shows "to_upper u (trim_space c) = c"
proof -
  have "trim_space c = c \<and> is_ascii c \<and> (\<forall>x\<in>set c. \<not> is_lower x)"
    using assms unfolding cloud_provider_is_valid_def cloud_provider_consts
    by (elim disjE; hypsubst; intro conjI trim_space_ascii_id;
        simp add: is_ascii_def is_ascii_byte_def ascii_space_def in_range_def)
  then show ?thesis by (simp add: to_upper_id)
qed

lemma new_cloud_provider_Inr:
  "new_cloud_provider u s = Inr c \<longleftrightarrow>
     c = to_upper u (trim_space s) \<and> cloud_provider_is_valid c"
  by (auto simp: new_cloud_provider_def cloud_provider_is_valid_def Let_def)

interpretation cloud_vo: value_object "new_cloud_provider u" cloud_provider_string cloud_provider_is_valid
  for u
  by unfold_locales
    (auto simp: new_cloud_provider_Inr cloud_provider_string_def cloud_provider_consts_normal)

subsection \<open>ResourceType\<close>

type_synonym resource_type = string

definition valid_resource_types :: "resource_type list" where
  "valid_resource_types = [''VM'', ''RDS'', ''S3'', ''Lambda'', ''VPC'', ''ELB'']"

definition resource_type_is_valid :: "resource_type \<Rightarrow> bool" where
  "resource_type_is_valid r \<longleftrightarrow>
     r = ''VM'' \<or> r = ''RDS'' \<or> r = ''S3'' \<or> r = ''Lambda'' \<or> r = ''VPC'' \<or> r = ''ELB''"

definition new_resource_type :: "string \<Rightarrow> goerr + resource_type" where
  "new_resource_type value =
     (let normalized = trim_space value in
      if normalized = ''VM'' \<or> normalized = ''RDS'' \<or> normalized = ''S3'' \<or>
         normalized = ''Lambda'' \<or> normalized = ''VPC'' \<or> normalized = ''ELB''
      then Inr normalized
      else Inl (Opaque (''invalid resource type: '' @ value)))"

definition resource_type_string :: "resource_type \<Rightarrow> string" where
  "resource_type_string r = r"

lemma resource_type_trimmed: "resource_type_is_valid r \<Longrightarrow> trim_space r = r"
  unfolding resource_type_is_valid_def
  by (elim disjE; hypsubst; intro trim_space_ascii_id;
      simp add: is_ascii_def is_ascii_byte_def ascii_space_def)

lemma new_resource_type_Inr:
  "new_resource_type s = Inr r \<longleftrightarrow> r = trim_space s \<and> resource_type_is_valid r"
  by (auto simp: new_resource_type_def resource_type_is_valid_def Let_def)

interpretation resource_type_vo: value_object new_resource_type resource_type_string resource_type_is_valid
  by unfold_locales
    (auto simp: new_resource_type_Inr resource_type_string_def resource_type_trimmed)

subsection \<open>ProvisioningStatus\<close>

type_synonym provisioning_status = string

definition StatusPending :: provisioning_status where "StatusPending = ''pending''"
definition StatusInProgress :: provisioning_status where "StatusInProgress = ''in_progress''"
definition StatusCompleted :: provisioning_status where "StatusCompleted = ''completed''"
definition StatusFailed :: provisioning_status where "StatusFailed = ''failed''"

lemmas status_consts =
  StatusPending_def StatusInProgress_def StatusCompleted_def StatusFailed_def

definition status_is_valid :: "provisioning_status \<Rightarrow> bool" where
  "status_is_valid s \<longleftrightarrow>
     s = StatusPending \<or> s = StatusInProgress \<or> s = StatusCompleted \<or> s = StatusFailed"

definition new_provisioning_status ::
    "(string \<Rightarrow> string) \<Rightarrow> string \<Rightarrow> goerr + provisioning_status" where
  "new_provisioning_status ulow value =
     (let normalized = to_lower ulow (trim_space value) in
      if normalized = StatusPending \<or> normalized = StatusInProgress \<or>
         normalized = StatusCompleted \<or> normalized = StatusFailed
      then Inr normalized
      else Inl (Opaque (''invalid provisioning status: '' @ value)))"

definition status_string :: "provisioning_status \<Rightarrow> string" where
  "status_string s = s"

definition status_is_final :: "provisioning_status \<Rightarrow> bool" where
  "status_is_final s \<longleftrightarrow> s = StatusCompleted \<or> s = StatusFailed"

lemma status_consts_normal:
  assumes "status_is_valid s"
  shows "to_lower u (trim_space s) = s"
proof -
  have "trim_space s = s \<and> is_ascii s \<and> (\<forall>x\<in>set s. \<not> is_upper x)"
    using assms unfolding status_is_valid_def status_consts
    by (elim disjE; hypsubst; intro conjI trim_space_ascii_id;
        simp add: is_ascii_def is_ascii_byte_def ascii_space_def in_range_def)
  then show ?thesis by (simp add: to_lower_id)
qed

lemma new_provisioning_status_Inr:
  "new_provisioning_status u v = Inr s \<longleftrightarrow>
     s = to_lower u (trim_space v) \<and> status_is_valid s"
  by (auto simp: new_provisioning_status_def status_is_valid_def Let_def)

interpretation status_vo: value_object "new_provisioning_status u" status_string status_is_valid
  for u
  by unfold_locales
    (auto simp: new_provisioning_status_Inr status_string_def status_consts_normal)

lemma status_final_valid: "status_is_final s \<Longrightarrow> status_is_valid s"
  by (auto simp: status_is_final_def status_is_valid_def)

subsection \<open>ResourceID and Specification\<close>

record resource_id = rid_value :: string

definition new_resource_id :: "string \<Rightarrow> goerr + resource_id" where
  "new_resource_id value =
     (let trimmed = trim_space value in
      if trimmed = '''' then Inl (Opaque ''resource ID cannot be empty'')
      else if 100 < length trimmed then
        Inl (Opaque ''resource ID cannot exceed 100 characters'')
      else Inr \<lparr>rid_value = trimmed\<rparr>)"

definition resource_id_string :: "resource_id \<Rightarrow> string" where
  "resource_id_string r = rid_value r"

definition valid_resource_id :: "resource_id \<Rightarrow> bool" where
  "valid_resource_id r \<longleftrightarrow>
     trim_space (rid_value r) = rid_value r \<and> rid_value r \<noteq> '''' \<and> length (rid_value r) \<le> 100"

interpretation resource_id_vo: value_object new_resource_id resource_id_string valid_resource_id
  by unfold_locales
    (auto simp: new_resource_id_def resource_id_string_def valid_resource_id_def Let_def
      split: if_splits)

record resource_spec = spec_value :: string

definition new_specification :: "string \<Rightarrow> goerr + resource_spec" where
  "new_specification value =
     (let trimmed = trim_space value in
      if trimmed = '''' then Inl (Opaque ''specification cannot be empty'')
      else if 1000 < length trimmed then
        Inl (Opaque ''specification cannot exceed 1000 characters'')
      else Inr \<lparr>spec_value = trimmed\<rparr>)"

definition specification_string :: "resource_spec \<Rightarrow> string" where
  "specification_string s = spec_value s"

definition valid_specification :: "resource_spec \<Rightarrow> bool" where
  "valid_specification s \<longleftrightarrow>
     trim_space (spec_value s) = spec_value s \<and> spec_value s \<noteq> '''' \<and>
     length (spec_value s) \<le> 1000"

interpretation specification_vo: value_object new_specification specification_string valid_specification
  by unfold_locales
    (auto simp: new_specification_def specification_string_def valid_specification_def Let_def
      split: if_splits)

subsection \<open>Properties\<close>

text \<open>C13: An accepted e-mail address is in normal form: accepted again as it is, at most 254 bytes,
  without capitals, a local part, a host and a top-level name of two letters or more.\<close>

theorem email_accepted:
  assumes "unicode_case_tables ul uu" and "new_email ul s = Inr e"
  shows "new_email ul (email_string e) = Inr e \<and> length (email_string e) \<le> 254 \<and>
    (\<forall>c\<in>set (email_string e). \<not> is_upper c) \<and>
    (\<exists>l h t. email_string e = l @ ''@'' @ h @ ''.'' @ t \<and> l \<noteq> [] \<and> h \<noteq> [] \<and> 2 \<le> length t \<and>
       (\<forall>c\<in>set l. local_byte c) \<and> (\<forall>c\<in>set h. host_byte c) \<and> (\<forall>c\<in>set t. tld_byte c))"
proof -
  have v: "valid_email e" by (rule unicode_case_tables.new_email_valid [OF assms])
  then have "full_match email_regex (email_string e)" by (simp add: valid_email_def email_string_def)
  then obtain l h t where "email_string e = l @ ''@'' @ h @ ''.'' @ t" "l \<noteq> []" "h \<noteq> []" "2 \<le> length t"
      "\<forall>c\<in>set l. local_byte c" "\<forall>c\<in>set h. host_byte c" "\<forall>c\<in>set t. tld_byte c"
    by (auto simp: full_match_email_regex)
  with v new_email_valid_string [OF v, of ul] show ?thesis
    by (auto simp: valid_email_def email_string_def)
qed

theorem email_accepted_witness:
  "new_email ascii_lower '' User@Example.COM '' = Inr \<lparr>email_value = ''user@example.com''\<rparr> \<and>
   new_email ascii_lower ''user@example.com'' = Inr \<lparr>email_value = ''user@example.com''\<rparr>"
proof -
  have "new_email ascii_lower '' User@Example.COM '' = Inr \<lparr>email_value = ''user@example.com''\<rparr>"
    by code_simp
  with email_accepted [OF ascii_tables.unicode_case_tables_axioms this] show ?thesis
    by (simp add: email_string_def)
qed

text \<open>C14: Each constructor accepts exactly the spellings the file lists, and nothing else: a cloud provider in any
  case, a status in any case, a resource type as it is written, each with white space around it, and an id
  (a specification) whose trimmed text has 1 to 100 (1 to 1000) bytes; the value is the normalised
  text. \<open>IsValid\<close> holds of a value exactly when its own name is accepted as that value.\<close>

theorem value_objects_accept_exactly:
  "(new_cloud_provider u p = Inr c \<longleftrightarrow> to_upper u (trim_space p) = c \<and> c \<in> {''AWS'', ''AZURE'', ''GCP''}) \<and>
   (new_resource_type t = Inr r \<longleftrightarrow> trim_space t = r \<and> r \<in> {''VM'', ''RDS'', ''S3'', ''Lambda'', ''VPC'', ''ELB''}) \<and>
   (new_provisioning_status v q = Inr s \<longleftrightarrow> to_lower v (trim_space q) = s \<and>
      s \<in> {''pending'', ''in_progress'', ''completed'', ''failed''}) \<and>
   (new_resource_id j = Inr i \<longleftrightarrow> rid_value i = trim_space j \<and> length (rid_value i) \<in> {1..100}) \<and>
   (new_specification d = Inr f \<longleftrightarrow> spec_value f = trim_space d \<and> length (spec_value f) \<in> {1..1000}) \<and>
   (cloud_provider_is_valid c \<longleftrightarrow> new_cloud_provider u (cloud_provider_string c) = Inr c) \<and>
   (resource_type_is_valid r \<longleftrightarrow> new_resource_type (resource_type_string r) = Inr r) \<and>
   (status_is_valid s \<longleftrightarrow> new_provisioning_status v (status_string s) = Inr s) \<and>
   (status_is_final s \<longleftrightarrow> s = ''completed'' \<or> s = ''failed'')"
proof (intro conjI)
  show "new_resource_id j = Inr i \<longleftrightarrow> rid_value i = trim_space j \<and> length (rid_value i) \<in> {1..100}"
    by (cases i) (auto simp: new_resource_id_def Let_def Suc_le_eq)
  show "new_specification d = Inr f \<longleftrightarrow> spec_value f = trim_space d \<and> length (spec_value f) \<in> {1..1000}"
    by (cases f) (auto simp: new_specification_def Let_def Suc_le_eq)
  show "cloud_provider_is_valid c \<longleftrightarrow> new_cloud_provider u (cloud_provider_string c) = Inr c"
    using cloud_vo.make_text_of cloud_vo.make_valid by blast
  show "resource_type_is_valid r \<longleftrightarrow> new_resource_type (resource_type_string r) = Inr r"
    using resource_type_vo.make_text_of resource_type_vo.make_valid by blast
  show "status_is_valid s \<longleftrightarrow> new_provisioning_status v (status_string s) = Inr s"
    using status_vo.make_text_of status_vo.make_valid by blast
qed (auto simp: new_cloud_provider_Inr cloud_provider_is_valid_def cloud_provider_consts new_resource_type_Inr
    resource_type_is_valid_def new_provisioning_status_Inr status_is_valid_def status_is_final_def status_consts)

theorem value_objects_accept_exactly_witness:
  "new_cloud_provider ascii_upper '' azure'' = Inr ''AZURE'' \<and> new_provisioning_status ascii_lower ''Failed '' = Inr ''failed'' \<and>
   new_resource_type ''vm'' \<noteq> Inr ''VM''"
proof -
  have "to_upper ascii_upper (trim_space '' azure'') = ''AZURE''" "to_lower ascii_lower (trim_space ''Failed '') = ''failed''"
    "trim_space ''vm'' = ''vm''" by code_simp+
  then show ?thesis
    using value_objects_accept_exactly [of ascii_upper "'' azure''" "''AZURE''" "''vm''" "''VM''" ascii_lower "''Failed ''" "''failed''"]
    by simp
qed

end
