(* ===== verification/Go_Time.thy ===== *)
theory Go_Time
  imports Go_Strings
begin

text \<open>
  Instants and durations of Go's \<open>time\<close> package, and the RFC 3339 text in which
  \<open>encoding/json\<close> writes and reads a \<open>time.Time\<close>. An instant is the number of nanoseconds
  since 0000-01-01T00:00:00Z (the code works in UTC), a duration a number of nanoseconds.
\<close>

type_synonym gotime = int
type_synonym duration = int

definition second :: duration where "second = 1000000000"
definition hour :: duration where "hour = 3600 * second"
definition millisecond :: duration where "millisecond = 1000000"

text \<open>\<open>Duration.Milliseconds\<close>: Go's integer division truncates towards zero.\<close>

definition milliseconds :: "duration \<Rightarrow> int" where
  "milliseconds d = sgn d * (\<bar>d\<bar> div millisecond)"

subsection \<open>Fixed-width decimals\<close>

fun fixed_dec :: "nat \<Rightarrow> nat \<Rightarrow> string" where
  "fixed_dec 0 n = []"
| "fixed_dec (Suc w) n = fixed_dec w (n div 10) @ [char_of (48 + n mod 10)]"

definition parse_uint :: "nat \<Rightarrow> nat \<Rightarrow> string \<Rightarrow> nat option" where
  "parse_uint lo hi s =
     (if s \<noteq> [] \<and> list_all is_digit s \<and> lo \<le> dec_value s \<and> dec_value s \<le> hi
      then Some (dec_value s) else None)"

lemma length_fixed_dec [simp]: "length (fixed_dec w n) = w"
  by (induction w arbitrary: n) auto

lemma all_digits_fixed_dec [simp]: "list_all is_digit (fixed_dec w n)"
  by (induction w arbitrary: n) auto

lemma dec_value_fixed_dec: "n < 10 ^ w \<Longrightarrow> dec_value (fixed_dec w n) = n"
proof (induction w arbitrary: n)
  case (Suc w)
  then have "n div 10 < 10 ^ w" by (simp add: less_mult_imp_div_less mult.commute)
  then have "dec_value (fixed_dec w (n div 10)) = n div 10" by (rule Suc.IH)
  then show ?case by (simp add: dec_value_def)
qed (simp add: dec_value_def)

lemma parse_uint_fixed_dec:
  "0 < w \<Longrightarrow> n < 10 ^ w \<Longrightarrow> lo \<le> n \<Longrightarrow> n \<le> hi \<Longrightarrow> parse_uint lo hi (fixed_dec w n) = Some n"
  using length_fixed_dec [of w n]
  by (cases "fixed_dec w n = []") (simp_all add: parse_uint_def dec_value_fixed_dec)

subsection \<open>The calendar\<close>

definition is_leap :: "nat \<Rightarrow> bool" where
  "is_leap y \<longleftrightarrow> 4 dvd y \<and> (\<not> 100 dvd y \<or> 400 dvd y)"

text \<open>Days from 0000-01-01 to the first of January of the year.\<close>

definition days_before_year :: "nat \<Rightarrow> nat" where
  "days_before_year y = 365 * y + ((y + 3) div 4 - (y + 99) div 100 + (y + 399) div 400)"

definition month_lengths :: "nat \<Rightarrow> nat list" where
  "month_lengths y = [31, if is_leap y then 29 else 28, 31, 30, 31, 30, 31, 31, 30, 31, 30, 31]"

lemma div_step:
  fixes y k :: nat
  assumes "0 < k"
  shows "(Suc y + (k - 1)) div k = (y + (k - 1)) div k + (if k dvd y then 1 else 0)"
proof -
  have "Suc (y + (k - 1)) mod k = 0 \<longleftrightarrow> k dvd y"
    using assms by (simp add: dvd_eq_mod_eq_0 [symmetric])
  then show ?thesis using assms by (simp only: add_Suc div_Suc) simp
qed

lemma century_le: "((y::nat) + 99) div 100 \<le> (y + 3) div 4"
proof -
  have "(y + 99) div 100 \<le> ((y + 3) div 4 * 4 + 99) div 100"
    by (intro div_le_mono) linarith
  also have "\<dots> \<le> (y + 3) div 4" by linarith
  finally show ?thesis .
qed

lemma leap_step:
  fixes a b c :: nat
  assumes "b \<le> a" and "pb \<Longrightarrow> pa" and "pc \<Longrightarrow> pb"
  shows "365 * Suc y + (a + (if pa then 1 else 0) - (b + (if pb then 1 else 0)) +
           (c + (if pc then 1 else 0))) =
         365 * y + (a - b + c) + (if pa \<and> (\<not> pb \<or> pc) then 366 else 365)"
  using assms by (cases pa; cases pb; cases pc) simp_all

lemma days_before_Suc:
  "days_before_year (Suc y) = days_before_year y + (if is_leap y then 366 else 365)"
proof -
  have "(Suc y + 3) div 4 = (y + 3) div 4 + (if 4 dvd y then 1 else 0)"
    "(Suc y + 99) div 100 = (y + 99) div 100 + (if 100 dvd y then 1 else 0)"
    "(Suc y + 399) div 400 = (y + 399) div 400 + (if 400 dvd y then 1 else 0)"
    using div_step [of 4 y] div_step [of 100 y] div_step [of 400 y] by simp_all
  moreover have "100 dvd y \<Longrightarrow> 4 dvd y" "400 dvd y \<Longrightarrow> 100 dvd y"
    using dvd_trans [of 4 100 y] dvd_trans [of 100 400 y] by auto
  ultimately show ?thesis
    unfolding days_before_year_def is_leap_def
    using leap_step [OF century_le [of y], where pa = "4 dvd y" and pb = "100 dvd y"
        and pc = "400 dvd y" and c = "(y + 399) div 400" and y = y]
    by (simp only:)
qed

lemma days_before_bounds: "365 * y \<le> days_before_year y" "days_before_year y \<le> 366 * y"
  by (induction y) (auto simp: days_before_Suc, simp_all add: days_before_year_def)

lemma days_before_mono: "y \<le> z \<Longrightarrow> days_before_year y \<le> days_before_year z"
  by (rule lift_Suc_mono_le [of days_before_year]) (auto simp: days_before_Suc)

text \<open>The year of a day, searched upwards from an estimate that is never too late.\<close>

function find_year :: "nat \<Rightarrow> nat \<Rightarrow> nat" where
  "find_year y d = (if days_before_year (Suc y) \<le> d then find_year (Suc y) d else y)"
  by pat_completeness auto
termination
proof (relation "measure (\<lambda>(y, d). Suc d - y)")
  fix y d assume "days_before_year (Suc y) \<le> d"
  with days_before_bounds(1) [of "Suc y"] show "((Suc y, d), (y, d)) \<in> measure (\<lambda>(y, d). Suc d - y)"
    by auto
qed simp

declare find_year.simps [simp del]

definition year_of_day :: "nat \<Rightarrow> nat" where
  "year_of_day d = find_year (d div 366) d"

lemma find_year_bounds:
  "days_before_year y \<le> d \<Longrightarrow>
     days_before_year (find_year y d) \<le> d \<and> d < days_before_year (Suc (find_year y d))"
proof (induction y d rule: find_year.induct)
  case (1 y d)
  then show ?case by (cases "days_before_year (Suc y) \<le> d") (auto simp: find_year.simps [of y d])
qed

lemma year_of_day_bounds:
  "days_before_year (year_of_day d) \<le> d" "d < days_before_year (Suc (year_of_day d))"
proof -
  have "days_before_year (d div 366) \<le> d"
    using days_before_bounds(2) [of "d div 366"] by linarith
  from find_year_bounds [OF this]
  show "days_before_year (year_of_day d) \<le> d" "d < days_before_year (Suc (year_of_day d))"
    by (simp_all add: year_of_day_def)
qed

text \<open>Month (from 1) and day of the month (from 1) of a day of the year (from 0).\<close>

fun find_month :: "nat list \<Rightarrow> nat \<Rightarrow> nat \<Rightarrow> nat \<times> nat" where
  "find_month [] m d = (m, Suc d)"
| "find_month (l # ls) m d = (if d < l then (m, Suc d) else find_month ls (Suc m) (d - l))"

definition civil_of_day :: "nat \<Rightarrow> nat \<times> nat \<times> nat" where
  "civil_of_day d =
     (let y = year_of_day d; (m, dd) = find_month (month_lengths y) 1 (d - days_before_year y)
      in (y, m, dd))"

definition day_of_civil :: "nat \<Rightarrow> nat \<Rightarrow> nat \<Rightarrow> nat" where
  "day_of_civil y m dd = days_before_year y + sum_list (take (m - 1) (month_lengths y)) + (dd - 1)"

lemma find_month_inverse:
  "d < sum_list ls \<Longrightarrow> find_month ls k d = (m, dd) \<Longrightarrow>
     k \<le> m \<and> m < k + length ls \<and> 0 < dd \<and> dd \<le> ls ! (m - k) \<and>
     sum_list (take (m - k) ls) + (dd - 1) = d"
proof (induction ls k d arbitrary: m dd rule: find_month.induct)
  case (2 l ls k d)
  show ?case
  proof (cases "d < l")
    case True
    with 2 show ?thesis by auto
  next
    case False
    with 2 have "Suc k \<le> m \<and> m < Suc k + length ls \<and> 0 < dd \<and> dd \<le> ls ! (m - Suc k) \<and>
        sum_list (take (m - Suc k) ls) + (dd - 1) = d - l" by auto
    then show ?thesis using False by (auto simp: Suc_diff_Suc [symmetric, of k m] Suc_le_eq)
  qed
qed simp

lemma sum_month_lengths: "sum_list (month_lengths y) = (if is_leap y then 366 else 365)"
  by (simp add: month_lengths_def)

lemma length_month_lengths [simp]: "length (month_lengths y) = 12"
  by (simp add: month_lengths_def)

lemma month_lengths_le: "i < 12 \<Longrightarrow> month_lengths y ! i \<le> 31"
  by (auto simp: month_lengths_def less_Suc_eq numeral_eq_Suc)

lemma civil_of_day_inverse:
  assumes "civil_of_day d = (y, m, dd)"
  shows "day_of_civil y m dd = d" and "1 \<le> m" and "m \<le> 12" and "1 \<le> dd"
    and "dd \<le> month_lengths y ! (m - 1)" and "y = year_of_day d"
proof -
  let ?y = "year_of_day d"
  from assms have y: "y = ?y"
    and fm: "find_month (month_lengths ?y) 1 (d - days_before_year ?y) = (m, dd)"
    by (auto simp: civil_of_day_def Let_def split: prod.splits)
  have "d - days_before_year ?y < sum_list (month_lengths ?y)"
    using year_of_day_bounds [of d] by (simp add: sum_month_lengths days_before_Suc split: if_splits)
  from find_month_inverse [OF this fm]
  show "day_of_civil y m dd = d" "1 \<le> m" "m \<le> 12" "1 \<le> dd" "dd \<le> month_lengths y ! (m - 1)"
    using year_of_day_bounds(1) [of d] by (auto simp: y day_of_civil_def)
  show "y = ?y" by (rule y)
qed

subsection \<open>RFC 3339\<close>

definition pad2 :: "nat \<Rightarrow> string" where
  "pad2 n = fixed_dec 2 n"

text \<open>The fraction of a second: nothing for 0, else nine digits less the trailing zeros.\<close>

definition nano_text :: "nat \<Rightarrow> string" where
  "nano_text ns =
     (if ns = 0 then []
      else CHR ''.'' # rev (dropWhile (\<lambda>c. c = CHR ''0'') (rev (fixed_dec 9 ns))))"

definition day_seconds :: int where "day_seconds = 86400"

text \<open>
  \<open>Time.MarshalJSON\<close> without the quotes: \<open>None\<close> is its error for a year outside of 0..9999.
\<close>

definition format_rfc3339 :: "gotime \<Rightarrow> string option" where
  "format_rfc3339 t =
     (let secs = t div second; ns = nat (t mod second);
          d = secs div day_seconds; sod = nat (secs mod day_seconds);
          (y, m, dd) = civil_of_day (nat d)
      in if d < 0 \<or> 9999 < y then None
         else Some (fixed_dec 4 y @ ''-'' @ pad2 m @ ''-'' @ pad2 dd @ ''T'' @
                pad2 (sod div 3600) @ '':'' @ pad2 (sod div 60 mod 60) @ '':'' @
                pad2 (sod mod 60) @ nano_text ns @ ''Z''))"

text \<open>
  \<open>Time.UnmarshalJSON\<close> without the quotes: date, time, an optional fraction (nine digits
  count) and \<open>Z\<close> or an offset \<open>+hh:mm\<close>, each number in its range.
\<close>

definition parse_zone :: "string \<Rightarrow> int option" where
  "parse_zone s =
     (if s = ''Z'' then Some 0
      else if length s = 6 \<and> (s ! 0 = CHR ''+'' \<or> s ! 0 = CHR ''-'') \<and> s ! 3 = CHR '':'' then
        (case (parse_uint 0 23 (take 2 (drop 1 s)), parse_uint 0 59 (drop 4 s)) of
           (Some h, Some m) \<Rightarrow>
             Some ((if s ! 0 = CHR ''-'' then -1 else 1) * (int h * 3600 + int m * 60))
         | _ \<Rightarrow> None)
      else None)"

definition parse_fraction :: "string \<Rightarrow> nat \<times> string" where
  "parse_fraction s =
     (case s of
        c # d # r \<Rightarrow>
          if c = CHR ''.'' \<and> is_digit d then
            (let ds = take 9 (takeWhile is_digit (d # r)) in
             (dec_value (ds @ replicate (9 - length ds) (CHR ''0'')), dropWhile is_digit (d # r)))
          else (0, s)
      | _ \<Rightarrow> (0, s))"

definition parse_rfc3339 :: "string \<Rightarrow> gotime option" where
  "parse_rfc3339 s =
     (if length s < 19 \<or> s ! 4 \<noteq> CHR ''-'' \<or> s ! 7 \<noteq> CHR ''-'' \<or> s ! 10 \<noteq> CHR ''T'' \<or>
         s ! 13 \<noteq> CHR '':'' \<or> s ! 16 \<noteq> CHR '':'' then None
      else
        (case (parse_uint 0 9999 (take 4 s), parse_uint 1 12 (take 2 (drop 5 s))) of
           (Some y, Some m) \<Rightarrow>
             (case (parse_uint 1 (month_lengths y ! (m - 1)) (take 2 (drop 8 s)),
                    parse_uint 0 23 (take 2 (drop 11 s)), parse_uint 0 59 (take 2 (drop 14 s)),
                    parse_uint 0 59 (take 2 (drop 17 s))) of
                (Some dd, Some h, Some mi, Some sec) \<Rightarrow>
                  (let (ns, rest) = parse_fraction (drop 19 s) in
                   case parse_zone rest of
                     None \<Rightarrow> None
                   | Some off \<Rightarrow>
                       Some ((int (day_of_civil y m dd) * day_seconds +
                              int h * 3600 + int mi * 60 + int sec - off) * second + int ns))
              | _ \<Rightarrow> None)
         | _ \<Rightarrow> None))"

subsection \<open>What is written is read back\<close>

lemma length_pad2 [simp]: "length (pad2 n) = 2"
  by (simp add: pad2_def)

lemma parse_uint_pad2 [simp]:
  "n < 100 \<Longrightarrow> lo \<le> n \<Longrightarrow> n \<le> hi \<Longrightarrow> parse_uint lo hi (pad2 n) = Some n"
  by (simp add: pad2_def parse_uint_fixed_dec)

lemma parse_uint_year: "n \<le> 9999 \<Longrightarrow> parse_uint 0 9999 (fixed_dec 4 n) = Some n"
  by (rule parse_uint_fixed_dec) auto

lemma strip_zeros_pad:
  "rev (dropWhile P (rev x)) @ rev (takeWhile P (rev x)) = x"
  by (metis rev_append rev_rev_ident takeWhile_dropWhile_id)

lemma trailing_zeros:
  "rev (takeWhile (\<lambda>c. c = z) x) = replicate (length (takeWhile (\<lambda>c. c = z) x)) z"
  by (induction x) (auto simp: replicate_append_same)

lemma nano_strip:
  defines "st ns \<equiv> rev (dropWhile (\<lambda>c. c = CHR ''0'') (rev (fixed_dec 9 ns)))"
  shows "st ns @ replicate (9 - length (st ns)) (CHR ''0'') = fixed_dec 9 ns"
    and "list_all is_digit (st ns)" and "length (st ns) \<le> 9"
proof -
  let ?z = "rev (takeWhile (\<lambda>c. c = CHR ''0'') (rev (fixed_dec 9 ns)))"
  have split: "st ns @ ?z = fixed_dec 9 ns"
    unfolding st_def by (rule strip_zeros_pad)
  then have "length (st ns) + length ?z = 9"
    by (metis length_append length_fixed_dec)
  moreover have "?z = replicate (length ?z) (CHR ''0'')"
    by (subst trailing_zeros) simp
  ultimately show "st ns @ replicate (9 - length (st ns)) (CHR ''0'') = fixed_dec 9 ns"
    using split by (metis diff_add_inverse)
  have "list_all is_digit (st ns @ ?z)" unfolding split by simp
  then show "list_all is_digit (st ns)" by simp
  show "length (st ns) \<le> 9"
    using \<open>length (st ns) + length ?z = 9\<close> by simp
qed

lemma parse_fraction_nano:
  assumes "ns < 1000000000"
  shows "parse_fraction (nano_text ns @ ''Z'') = (ns, ''Z'')"
proof (cases "ns = 0")
  case True
  then show ?thesis by (simp add: nano_text_def parse_fraction_def)
next
  case False
  define ds where "ds = rev (dropWhile (\<lambda>c. c = CHR ''0'') (rev (fixed_dec 9 ns)))"
  note st = nano_strip [of ns, folded ds_def]
  have val: "dec_value (fixed_dec 9 ns) = ns"
    using assms by (intro dec_value_fixed_dec) simp
  have "ds \<noteq> []"
  proof
    assume "ds = []"
    with st(1) have "ns = dec_value (replicate 9 (CHR ''0''))" using val by simp
    also have "\<dots> = 0" by (simp add: dec_value_def numeral_eq_Suc)
    finally show False using False by simp
  qed
  then obtain d r where dr: "ds = d # r" by (cases ds) auto
  have Z: "\<not> is_digit (CHR ''Z'')" by (simp add: in_range_def)
  have dig: "\<forall>c\<in>set (d # r). is_digit c" using st(2) dr by (simp add: list_all_iff)
  then have tw: "takeWhile is_digit (d # r @ ''Z'') = ds" "dropWhile is_digit (d # r @ ''Z'') = ''Z''"
    using Z dr by (auto simp: takeWhile_append2 dropWhile_append2)
  from False have "nano_text ns @ ''Z'' = CHR ''.'' # d # r @ ''Z''"
    using dr by (simp add: nano_text_def ds_def)
  then show ?thesis
    using tw st dig val dr by (simp add: parse_fraction_def)
qed

lemma sexagesimal:
  fixes a r q m n :: nat
  shows "a * 60 + r = q \<Longrightarrow> q * 60 + m = n \<Longrightarrow> a * 3600 + r * 60 + m = n"
  by simp

lemma hours_minutes_seconds:
  "int (sod div 3600) * 3600 + int (sod div 60 mod 60) * 60 + int (sod mod 60) = int sod"
proof -
  have "sod div 60 div 60 * 3600 + sod div 60 mod 60 * 60 + sod mod 60 = sod"
    by (rule sexagesimal [OF div_mult_mod_eq div_mult_mod_eq])
  moreover have "sod div 3600 = sod div 60 div 60"
    using div_mult2_eq [of sod 60 60] by simp
  ultimately have "sod div 3600 * 3600 + sod div 60 mod 60 * 60 + sod mod 60 = sod"
    by (simp only:)
  from this [THEN arg_cong [of _ _ int]] show ?thesis
    by (simp only: of_nat_add of_nat_mult of_nat_numeral)
qed

text \<open>The round trip of a time stamp through its text.\<close>

lemma parse_format_rfc3339:
  assumes "format_rfc3339 t = Some s"
  shows "parse_rfc3339 s = Some t"
proof -
  define secs where "secs = t div second"
  define ns where "ns = nat (t mod second)"
  define d where "d = secs div day_seconds"
  define sod where "sod = nat (secs mod day_seconds)"
  obtain y m dd where c: "civil_of_day (nat d) = (y, m, dd)" by (cases "civil_of_day (nat d)") auto
  note civ = civil_of_day_inverse [OF c]
  from assms c have d0: "0 \<le> d" and y: "y \<le> 9999"
    and s: "s = fixed_dec 4 y @ ''-'' @ pad2 m @ ''-'' @ pad2 dd @ ''T'' @
        pad2 (sod div 3600) @ '':'' @ pad2 (sod div 60 mod 60) @ '':'' @
        pad2 (sod mod 60) @ nano_text ns @ ''Z''"
    by (auto simp: format_rfc3339_def Let_def secs_def ns_def d_def sod_def split: if_splits)
  have ns: "ns < 1000000000" "int ns = t mod second"
    by (simp_all add: ns_def second_def nat_less_iff)
  have sod: "sod < 86400" "int sod = secs mod day_seconds"
    by (simp_all add: sod_def day_seconds_def nat_less_iff)
  have dd: "dd \<le> month_lengths y ! (m - 1)" "dd \<le> 31"
    using civ month_lengths_le [of "m - 1" y] by linarith+
  have p: "parse_uint 0 23 (pad2 (sod div 3600)) = Some (sod div 3600)"
    "parse_uint 0 59 (pad2 (sod div 60 mod 60)) = Some (sod div 60 mod 60)"
    "parse_uint 0 59 (pad2 (sod mod 60)) = Some (sod mod 60)"
    using sod(1) by (intro parse_uint_pad2; linarith)+
  have q: "parse_uint 1 12 (pad2 m) = Some m"
    "parse_uint 1 (month_lengths y ! (m - 1)) (pad2 dd) = Some dd"
    using civ dd by auto
  have "parse_rfc3339 s = Some ((d * day_seconds + int sod) * second + int ns)"
    using d0 hours_minutes_seconds [of sod]
    by (simp add: s parse_rfc3339_def parse_uint_year [OF y] p q [simplified] nth_append
        parse_fraction_nano [OF ns(1)] parse_zone_def civ(1) [simplified] add.assoc)
  also have "d * day_seconds + int sod = secs"
    by (simp add: sod d_def)
  also have "secs * second + int ns = t"
    by (simp add: ns secs_def)
  finally show ?thesis .
qed

end
