(* ===== verification/Idempotency_Store.thy ===== *)
theory Idempotency_Store
  imports Domain_Errors Go_Time
begin

text \<open>
  The port \<open>services/api/internal/domain/ports/outbound/idempotency_store.go\<close>: the record
  kept for an idempotency key and the three operations of a store. The locale
  \<open>idempotency_store\<close> states the contract of the port's comment against a \<open>view\<close> of the
  store: the record each key has. An error of an operation may have been raised before or
  after the operation took effect (a lost reply), so its law allows both.
\<close>

subsection \<open>Records\<close>

type_synonym idempotency_state = string

definition IdempotencyStateInFlight :: idempotency_state where
  "IdempotencyStateInFlight = ''IN_FLIGHT''"

definition IdempotencyStateCompleted :: idempotency_state where
  "IdempotencyStateCompleted = ''COMPLETED''"

record idempotency_record =
  ir_key :: string
  ir_state :: idempotency_state
  ir_hash :: string
  ir_status :: int
  ir_headers :: "(string, string) gomap"
  ir_body :: string
  ir_created :: gotime
  ir_expires :: gotime

lemma idempotency_states_differ [simp]:
  "IdempotencyStateInFlight \<noteq> IdempotencyStateCompleted"
  "IdempotencyStateCompleted \<noteq> IdempotencyStateInFlight"
  by (simp_all add: IdempotencyStateInFlight_def IdempotencyStateCompleted_def)

abbreviation in_flight :: "idempotency_record \<Rightarrow> bool" where
  "in_flight r \<equiv> ir_state r = IdempotencyStateInFlight"

abbreviation completed :: "idempotency_record \<Rightarrow> bool" where
  "completed r \<equiv> ir_state r = IdempotencyStateCompleted"

subsection \<open>The operations of the port\<close>

text \<open>
  \<open>Reserve\<close> gives the record (nil as \<open>None\<close>) and whether it was created; the state \<open>'e\<close> is
  everything an operation can reach.
\<close>

record 'e idem_store =
  st_reserve :: "string \<Rightarrow> string \<Rightarrow> duration \<Rightarrow> 'e \<Rightarrow>
    (goerr + idempotency_record option \<times> bool) \<times> 'e"
  st_complete :: "string \<Rightarrow> int \<Rightarrow> (string, string) gomap \<Rightarrow> string \<Rightarrow> duration \<Rightarrow> 'e \<Rightarrow>
    (goerr + unit) \<times> 'e"
  st_release :: "string \<Rightarrow> 'e \<Rightarrow> (goerr + unit) \<times> 'e"

subsection \<open>The contract\<close>

text \<open>The request hash is a hexadecimal digest.\<close>

definition is_hex :: "string \<Rightarrow> bool" where
  "is_hex h \<longleftrightarrow> list_all (\<lambda>c. is_digit c \<or> in_range (CHR ''a'') (CHR ''f'') c) h"

text \<open>What a call may leave of the record of its key, by operation.\<close>

definition reserved_by :: "string \<Rightarrow> string \<Rightarrow> idempotency_record \<Rightarrow> bool" where
  "reserved_by k h r \<longleftrightarrow> ir_key r = k \<and> in_flight r \<and> ir_hash r = h"

definition completed_with ::
    "int \<Rightarrow> (string, string) gomap \<Rightarrow> string \<Rightarrow> idempotency_record \<Rightarrow> idempotency_record \<Rightarrow> bool" where
  "completed_with status hs body r r' \<longleftrightarrow>
     completed r' \<and> ir_key r' = ir_key r \<and> ir_hash r' = ir_hash r \<and> ir_status r' = status \<and>
     map_of (ir_headers r') = map_of hs \<and> distinct (map fst (ir_headers r')) \<and> ir_body r' = body \<and> ir_created r' = ir_created r"

locale idempotency_store =
  fixes st :: "'e idem_store"
    and view :: "'e \<Rightarrow> string \<Rightarrow> idempotency_record option"
    and inv :: "'e \<Rightarrow> bool"
    and storable :: "(string, string) gomap \<Rightarrow> bool"
  assumes reserve_created:
      "inv e \<Longrightarrow> is_hex h \<Longrightarrow> st_reserve st k h ttl e = (Inr (ro, True), e') \<Longrightarrow>
         inv e' \<and> view e k = None \<and>
         (\<exists>r. ro = Some r \<and> reserved_by k h r \<and> view e' = (view e)(k \<mapsto> r))"
    and reserve_existing:
      "inv e \<Longrightarrow> is_hex h \<Longrightarrow> st_reserve st k h ttl e = (Inr (ro, False), e') \<Longrightarrow>
         inv e' \<and> view e' = view e \<and> view e k \<noteq> None \<and> ro = view e k"
    and reserve_error:
      "inv e \<Longrightarrow> is_hex h \<Longrightarrow> st_reserve st k h ttl e = (Inl err, e') \<Longrightarrow>
         inv e' \<and> (view e' = view e \<or>
           view e k = None \<and> (\<exists>r. reserved_by k h r \<and> view e' = (view e)(k \<mapsto> r)))"
    and complete_ok:
      "inv e \<Longrightarrow> storable hs \<Longrightarrow> go_int status \<Longrightarrow> st_complete st k status hs body ttl e = (Inr u, e') \<Longrightarrow>
         inv e' \<and> (case view e k of
           None \<Rightarrow> view e' = view e
         | Some r \<Rightarrow> \<exists>r'. completed_with status hs body r r' \<and> view e' = (view e)(k \<mapsto> r'))"
    and complete_error:
      "inv e \<Longrightarrow> storable hs \<Longrightarrow> go_int status \<Longrightarrow> st_complete st k status hs body ttl e = (Inl err, e') \<Longrightarrow>
         inv e' \<and> (view e' = view e \<or>
           (\<exists>r r'. view e k = Some r \<and> completed_with status hs body r r' \<and>
              view e' = (view e)(k \<mapsto> r')))"
    and release_ok:
      "inv e \<Longrightarrow> st_release st k e = (Inr u, e') \<Longrightarrow>
         inv e' \<and> (case view e k of
           None \<Rightarrow> view e' = view e
         | Some r \<Rightarrow> view e' = (if in_flight r then (view e)(k := None) else view e))"
    and release_error:
      "inv e \<Longrightarrow> st_release st k e = (Inl err, e') \<Longrightarrow>
         inv e' \<and> (view e' = view e \<or>
           (\<exists>r. view e k = Some r \<and> in_flight r \<and> view e' = (view e)(k := None)))"
begin

text \<open>The three ways a call of \<open>Reserve\<close> can end.\<close>

lemma reserve_cases:
  assumes "inv e" and "is_hex h" and "st_reserve st k h ttl e = (res, e')"
  obtains (created) r where "res = Inr (Some r, True)" "inv e'" "view e k = None"
      "reserved_by k h r" "view e' = (view e)(k \<mapsto> r)"
    | (existing) r where "res = Inr (Some r, False)" "inv e'" "view e k = Some r" "view e' = view e"
    | (failed) err where "res = Inl err" "inv e'" "view e' = view e"
    | (lost) err r where "res = Inl err" "inv e'" "view e k = None" "reserved_by k h r"
      "view e' = (view e)(k \<mapsto> r)"
proof (cases res)
  case (Inl err)
  with reserve_error [OF assms(1,2)] assms(3) failed lost show ?thesis by blast
next
  case (Inr p)
  obtain ro b where p: "p = (ro, b)" by (cases p)
  show ?thesis
  proof (cases b)
    case True
    with Inr p assms(3) have "st_reserve st k h ttl e = (Inr (ro, True), e')" by simp
    from reserve_created [OF assms(1,2) this] created Inr p True show ?thesis by blast
  next
    case False
    with Inr p assms(3) have "st_reserve st k h ttl e = (Inr (ro, False), e')" by simp
    from reserve_existing [OF assms(1,2) this] existing Inr p False show ?thesis by force
  qed
qed

lemma inv_reserve: "inv e \<Longrightarrow> is_hex h \<Longrightarrow> inv (snd (st_reserve st k h ttl e))"
  by (cases "st_reserve st k h ttl e") (auto elim: reserve_cases)

lemma inv_complete: "inv e \<Longrightarrow> storable hs \<Longrightarrow> go_int status \<Longrightarrow> inv (snd (st_complete st k status hs body ttl e))"
  using complete_ok [of e hs status k body ttl] complete_error [of e hs status k body ttl]
  by (cases "st_complete st k status hs body ttl e") (metis old.sum.exhaust snd_conv)

lemma inv_release: "inv e \<Longrightarrow> inv (snd (st_release st k e))"
  using release_ok [of e k] release_error [of e k]
  by (cases "st_release st k e") (metis old.sum.exhaust snd_conv)

text \<open>No operation touches the record of another key.\<close>

lemma reserve_frame:
  "inv e \<Longrightarrow> is_hex h \<Longrightarrow> k' \<noteq> k \<Longrightarrow> view (snd (st_reserve st k h ttl e)) k' = view e k'"
  by (cases "st_reserve st k h ttl e") (auto elim: reserve_cases)

lemma complete_frame:
  assumes "inv e" "storable hs" "go_int status" "k' \<noteq> k"
  shows "view (snd (st_complete st k status hs body ttl e)) k' = view e k'"
proof (cases "st_complete st k status hs body ttl e")
  case (Pair res e')
  show ?thesis
  proof (cases res)
    case (Inl err)
    with complete_error [OF assms(1-3)] Pair assms(4) show ?thesis by fastforce
  next
    case (Inr u)
    with complete_ok [OF assms(1-3)] Pair assms(4) show ?thesis
      by (fastforce split: option.splits)
  qed
qed

lemma release_frame:
  assumes "inv e" "k' \<noteq> k"
  shows "view (snd (st_release st k e)) k' = view e k'"
proof (cases "st_release st k e")
  case (Pair res e')
  show ?thesis
  proof (cases res)
    case (Inl err)
    with release_error [OF assms(1)] Pair assms(2) show ?thesis by fastforce
  next
    case (Inr u)
    with release_ok [OF assms(1)] Pair assms(2) show ?thesis
      by (fastforce split: option.splits if_splits)
  qed
qed

text \<open>A record, once completed, is given back as it is: neither \<open>Reserve\<close> nor \<open>Release\<close> changes it.\<close>

lemma reserve_completed:
  assumes "inv e" "is_hex h" "view e k = Some r" "st_reserve st k h ttl e = (res, e')"
  shows "view e' = view e \<and> (res = Inr (Some r, False) \<or> (\<exists>err. res = Inl err))"
  using assms(1,2,4) by (rule reserve_cases) (use assms(3) in auto)

lemma release_completed:
  assumes "inv e" "view e k = Some r" "\<not> in_flight r"
  shows "view (snd (st_release st k e)) = view e"
proof (cases "st_release st k e")
  case (Pair res e')
  with release_ok [OF assms(1)] release_error [OF assms(1)] assms(2,3) show ?thesis
    by (cases res) (fastforce split: option.splits if_splits)+
qed

end

end
