(* ===== verification/Go_Http.thy ===== *)
theory Go_Http
  imports Domain_Errors
begin

text \<open>
  The part of \<open>net/http\<close> the API rests on: header maps with canonical keys, requests, the
  server's response writer (the first \<open>WriteHeader\<close> fixes status and headers, a later one and
  later header changes do not reach the wire), and handlers as state transformers that may
  panic. The two recorders of the API that embed a \<open>http.ResponseWriter\<close>
  (\<open>statusRecorder\<close> in \<open>metrics_middleware.go\<close>, \<open>responseRecorder\<close> in
  \<open>idempotency_middleware.go\<close>) are constructors of the writer type, and the methods of the
  interface are dispatched on it. Every status code the services write is a final one
  (200 or more); what the server adds on its own (Date, Content-Length, a sniffed
  Content-Type) is left out.
\<close>

subsection \<open>Headers\<close>

type_synonym header = "(string, string list) gomap"

definition token_byte :: "char \<Rightarrow> bool" where
  "token_byte c \<longleftrightarrow> is_lower c \<or> is_upper c \<or> is_digit c \<or>
     c \<in> set (''!#$%&*+-.^_|~'' @ [CHR 0x27, CHR 0x60])"

text \<open>\<open>textproto.CanonicalMIMEHeaderKey\<close>: capital after the start and after a dash.\<close>

fun canon_bytes :: "bool \<Rightarrow> string \<Rightarrow> string" where
  "canon_bytes up [] = []"
| "canon_bytes up (c # s) =
     (if up then upper_byte c else lower_byte c) # canon_bytes (c = CHR ''-'') s"

definition canonical_key :: "string \<Rightarrow> string" where
  "canonical_key k = (if list_all token_byte k then canon_bytes True k else k)"

definition header_get :: "string \<Rightarrow> header \<Rightarrow> string" where
  "header_get k h = (case map_of h (canonical_key k) of Some (v # vs) \<Rightarrow> v | _ \<Rightarrow> '''')"

definition header_set :: "string \<Rightarrow> string \<Rightarrow> header \<Rightarrow> header" where
  "header_set k v h = put (canonical_key k) [v] h"

lemma header_get_set_same [simp]: "header_get k (header_set k v h) = v"
  by (simp add: header_get_def header_set_def)

lemma header_get_set_other:
  "canonical_key k' \<noteq> canonical_key k \<Longrightarrow> header_get k' (header_set k v h) = header_get k' h"
  by (simp add: header_get_def header_set_def)

lemma header_get_set:
  "header_get k' (header_set k v h) =
     (if canonical_key k' = canonical_key k then v else header_get k' h)"
  by (simp add: header_get_def header_set_def)

lemma distinct_header_set [simp]:
  "distinct (map fst h) \<Longrightarrow> distinct (map fst (header_set k v h))"
  by (simp add: header_set_def distinct_keys_put)

lemma upper_byte_canon [simp]:
  "upper_byte (upper_byte c) = upper_byte c" "lower_byte (lower_byte c) = lower_byte c"
  by (simp_all add: upper_byte_id lower_byte_id)

lemma dash_case [simp]:
  "upper_byte c = CHR ''-'' \<longleftrightarrow> c = CHR ''-''" "lower_byte c = CHR ''-'' \<longleftrightarrow> c = CHR ''-''"
  by (auto simp: upper_byte_def lower_byte_def in_range_def char_of_eq_iff take_bit_eq_mod)

lemma canon_bytes_idem [simp]: "canon_bytes u (canon_bytes u k) = canon_bytes u k"
  by (induction u k rule: canon_bytes.induct) auto

lemma token_byte_case:
  "token_byte c \<Longrightarrow> token_byte (upper_byte c) \<and> token_byte (lower_byte c)"
  by (auto simp: token_byte_def upper_byte_def lower_byte_def in_range_def of_char_of)

lemma token_canon_bytes: "list_all token_byte k \<Longrightarrow> list_all token_byte (canon_bytes u k)"
  by (induction u k rule: canon_bytes.induct) (auto simp: token_byte_case)

lemma canonical_key_idem [simp]: "canonical_key (canonical_key k) = canonical_key k"
  by (simp add: canonical_key_def token_canon_bytes)

subsection \<open>Requests\<close>

text \<open>A body that can be read to its end, or one whose reader fails.\<close>

datatype body = Body string | BrokenBody goerr

record http_request =
  rq_method :: string
  rq_path :: string
  rq_header :: header
  rq_body :: body
  rq_pattern :: string

subsection \<open>The server's response writer\<close>

record conn =
  c_header :: header
  c_status :: "int option"
  c_sent :: header
  c_body :: string

definition new_conn :: conn where
  "new_conn = \<lparr>c_header = [], c_status = None, c_sent = [], c_body = ''''\<rparr>"

definition conn_write_header :: "int \<Rightarrow> conn \<Rightarrow> conn" where
  "conn_write_header code c =
     (case c_status c of
        None \<Rightarrow> c\<lparr>c_status := Some code, c_sent := c_header c\<rparr>
      | Some _ \<Rightarrow> c)"

definition body_allowed :: "int \<Rightarrow> bool" where
  "body_allowed code \<longleftrightarrow> 200 \<le> code \<and> code \<noteq> 204 \<and> code \<noteq> 304"

definition conn_write :: "string \<Rightarrow> conn \<Rightarrow> conn" where
  "conn_write b c =
     (let c' = conn_write_header 200 c in
      case c_status c' of
        Some code \<Rightarrow> if body_allowed code then c'\<lparr>c_body := c_body c' @ b\<rparr> else c'
      | None \<Rightarrow> c')"

text \<open>What the server does when the handler has returned: an implicit 200.\<close>

definition conn_finish :: "conn \<Rightarrow> conn" where
  "conn_finish c = conn_write_header 200 c"

subsection \<open>Writers: the connection and the recorders around it\<close>

datatype writer =
    Conn conn
  | StatusRecorder writer int
  | ResponseRecorder writer int string bool

primrec w_conn :: "writer \<Rightarrow> conn" where
  "w_conn (Conn c) = c"
| "w_conn (StatusRecorder w st) = w_conn w"
| "w_conn (ResponseRecorder w st b wrote) = w_conn w"

definition w_header :: "writer \<Rightarrow> header" where
  "w_header w = c_header (w_conn w)"

primrec w_set_header :: "string \<Rightarrow> string \<Rightarrow> writer \<Rightarrow> writer" where
  "w_set_header k v (Conn c) = Conn (c\<lparr>c_header := header_set k v (c_header c)\<rparr>)"
| "w_set_header k v (StatusRecorder w st) = StatusRecorder (w_set_header k v w) st"
| "w_set_header k v (ResponseRecorder w st b wrote) =
     ResponseRecorder (w_set_header k v w) st b wrote"

primrec w_write_header :: "int \<Rightarrow> writer \<Rightarrow> writer" where
  "w_write_header code (Conn c) = Conn (conn_write_header code c)"
| "w_write_header code (StatusRecorder w st) = StatusRecorder (w_write_header code w) code"
| "w_write_header code (ResponseRecorder w st b wrote) =
     (if wrote then ResponseRecorder w st b wrote
      else ResponseRecorder (w_write_header code w) code b True)"

text \<open>
  \<open>responseRecorder.Write\<close> sends the implicit 200 through its own \<open>WriteHeader\<close> first, so the
  recursion goes to a changed writer of the same depth.
\<close>

primrec depth :: "writer \<Rightarrow> nat" where
  "depth (Conn c) = 0"
| "depth (StatusRecorder w st) = Suc (depth w)"
| "depth (ResponseRecorder w st b wrote) = Suc (depth w)"

lemma depth_write_header [simp]: "depth (w_write_header code w) = depth w"
  by (induction w) auto

function w_write :: "string \<Rightarrow> writer \<Rightarrow> writer" where
  "w_write bs (Conn c) = Conn (conn_write bs c)"
| "w_write bs (StatusRecorder w st) = StatusRecorder (w_write bs w) st"
| "w_write bs (ResponseRecorder w st b wrote) =
     (if wrote then ResponseRecorder (w_write bs w) st (b @ bs) True
      else ResponseRecorder (w_write bs (w_write_header 200 w)) 200 (b @ bs) True)"
  by pat_completeness auto
termination
  by (relation "measure (\<lambda>(bs, w). depth w)") auto

text \<open>The writer a recorder embeds, and what the recorder has recorded.\<close>

primrec w_inner :: "writer \<Rightarrow> writer" where
  "w_inner (Conn c) = Conn c"
| "w_inner (StatusRecorder w st) = w"
| "w_inner (ResponseRecorder w st b wrote) = w"

primrec rec_status :: "writer \<Rightarrow> int" where
  "rec_status (Conn c) = (case c_status c of None \<Rightarrow> 200 | Some s \<Rightarrow> s)"
| "rec_status (StatusRecorder w st) = st"
| "rec_status (ResponseRecorder w st b wrote) = st"

primrec rec_body :: "writer \<Rightarrow> string" where
  "rec_body (Conn c) = c_body c"
| "rec_body (StatusRecorder w st) = rec_body w"
| "rec_body (ResponseRecorder w st b wrote) = b"

text \<open>The writer's layers: a handler that only calls the interface keeps them.\<close>

primrec same_layers :: "writer \<Rightarrow> writer \<Rightarrow> bool" where
  "same_layers (Conn c) w' \<longleftrightarrow> (\<exists>c'. w' = Conn c')"
| "same_layers (StatusRecorder w st) w' \<longleftrightarrow> (\<exists>v st'. w' = StatusRecorder v st' \<and> same_layers w v)"
| "same_layers (ResponseRecorder w st b wrote) w' \<longleftrightarrow>
     (\<exists>v st' b' wrote'. w' = ResponseRecorder v st' b' wrote' \<and> same_layers w v)"

lemma same_layers_refl [simp]: "same_layers w w"
  by (induction w) auto

lemma same_layers_trans: "same_layers u v \<Longrightarrow> same_layers v w \<Longrightarrow> same_layers u w"
  by (induction u arbitrary: v w) auto

lemma same_layers_set_header [simp]: "same_layers w (w_set_header k v w)"
  by (induction w) auto

lemma same_layers_write_header [simp]: "same_layers w (w_write_header code w)"
  by (induction w) auto

lemma same_layers_write [simp]: "same_layers w (w_write bs w)"
  by (induction bs w rule: w_write.induct)
    (auto intro: same_layers_trans [OF same_layers_write_header])

subsection \<open>Handlers\<close>

datatype outcome = Returned | Panicked string

type_synonym 'e handler = "http_request \<Rightarrow> writer \<Rightarrow> 'e \<Rightarrow> outcome \<times> http_request \<times> writer \<times> 'e"

subsection \<open>The recorders are transparent\<close>

text \<open>A \<open>responseRecorder\<close> that has written its header sits on a connection that has one.\<close>

primrec coherent :: "writer \<Rightarrow> bool" where
  "coherent (Conn c) \<longleftrightarrow> True"
| "coherent (StatusRecorder w st) \<longleftrightarrow> coherent w"
| "coherent (ResponseRecorder w st b wrote) \<longleftrightarrow>
     coherent w \<and> (wrote \<longrightarrow> c_status (w_conn w) \<noteq> None)"

lemma conn_write_header_status [simp]: "c_status (conn_write_header code c) \<noteq> None"
  by (cases "c_status c") (auto simp: conn_write_header_def)

lemma conn_write_header_again [simp]:
  "c_status c \<noteq> None \<Longrightarrow> conn_write_header code c = c"
  by (auto simp: conn_write_header_def)

lemma conn_write_sent [simp]: "conn_write bs (conn_write_header 200 c) = conn_write bs c"
  by (simp add: conn_write_def Let_def)

lemma conn_write_status [simp]: "c_status (conn_write bs c) \<noteq> None"
  using conn_write_header_status [of 200 c]
  by (auto simp: conn_write_def Let_def split: option.split)

lemma w_conn_set_header [simp]:
  "w_conn (w_set_header k v w) = (w_conn w)\<lparr>c_header := header_set k v (c_header (w_conn w))\<rparr>"
  by (induction w) auto

lemma w_conn_write_header [simp]:
  "coherent w \<Longrightarrow> w_conn (w_write_header code w) = conn_write_header code (w_conn w)"
  by (induction w) auto

lemma coherent_set_header [simp]: "coherent w \<Longrightarrow> coherent (w_set_header k v w)"
  by (induction w) auto

lemma coherent_write_header [simp]: "coherent w \<Longrightarrow> coherent (w_write_header code w)"
  by (induction w) auto

lemma w_write_props:
  "coherent w \<Longrightarrow> w_conn (w_write bs w) = conn_write bs (w_conn w) \<and> coherent (w_write bs w)"
  by (induction bs w rule: w_write.induct) auto

lemma w_conn_write [simp]: "coherent w \<Longrightarrow> w_conn (w_write bs w) = conn_write bs (w_conn w)"
  and coherent_write [simp]: "coherent w \<Longrightarrow> coherent (w_write bs w)"
  by (simp_all add: w_write_props)

text \<open>Once the header is out, neither it nor the status changes.\<close>

lemma conn_sent_fixed:
  "c_status c = Some code \<Longrightarrow> c_status (conn_write bs c) = Some code \<and> c_sent (conn_write bs c) = c_sent c"
  "c_status c = Some code \<Longrightarrow> conn_write_header code' c = c"
  by (auto simp: conn_write_def Let_def)

subsection \<open>Handlers that go through the writer's interface\<close>

datatype w_action = SetHeader string string | WriteHeader int | WriteBody string

primrec w_act :: "w_action \<Rightarrow> writer \<Rightarrow> writer" where
  "w_act (SetHeader k v) w = w_set_header k v w"
| "w_act (WriteHeader code) w = w_write_header code w"
| "w_act (WriteBody bs) w = w_write bs w"

definition w_run :: "w_action list \<Rightarrow> writer \<Rightarrow> writer" where
  "w_run acts w = fold w_act acts w"

definition interface_handler :: "'e handler \<Rightarrow> bool" where
  "interface_handler next \<longleftrightarrow> (\<forall>r w e. \<exists>acts. fst (snd (snd (next r w e))) = w_run acts w)"

lemma w_run_simps [simp]:
  "w_run [] w = w" "w_run (a # acts) w = w_run acts (w_act a w)"
  "w_run (acts @ acts') w = w_run acts' (w_run acts w)"
  by (simp_all add: w_run_def)

lemma same_layers_run [simp]: "same_layers w (w_run acts w)"
proof (induction acts arbitrary: w)
  case (Cons a acts)
  have "same_layers w (w_act a w)" by (cases a) simp_all
  with Cons [of "w_act a w"] show ?case by (auto intro: same_layers_trans)
qed simp

lemma coherent_run [simp]: "coherent w \<Longrightarrow> coherent (w_run acts w)"
proof (induction acts arbitrary: w)
  case (Cons a acts)
  then have "coherent (w_act a w)" by (cases a) simp_all
  with Cons.IH show ?case by simp
qed simp

text \<open>What is done to a \<open>statusRecorder\<close> is done to the writer below it.\<close>

lemma status_recorder_run: "\<exists>st'. w_run acts (StatusRecorder w st) = StatusRecorder (w_run acts w) st'"
proof (induction acts arbitrary: w st)
  case (Cons a acts)
  then show ?case by (cases a) simp_all
qed simp

text \<open>A \<open>responseRecorder\<close> lets everything through but a second \<open>WriteHeader\<close>.\<close>

lemma response_recorder_act:
  "\<exists>acts' st' b' wrote'. w_act a (ResponseRecorder w st b wrote) = ResponseRecorder (w_run acts' w) st' b' wrote'"
proof (cases a)
  case (SetHeader k v)
  then show ?thesis by (intro exI [of _ "[SetHeader k v]"]) simp
next
  case (WriteHeader code)
  then show ?thesis
    by (intro exI [of _ "if wrote then [] else [WriteHeader code]"]) auto
next
  case (WriteBody bs)
  then show ?thesis
    by (intro exI [of _ "if wrote then [WriteBody bs] else [WriteHeader 200, WriteBody bs]"]) auto
qed

lemma response_recorder_run:
  "\<exists>acts' st' b' wrote'. w_run acts (ResponseRecorder w st b wrote) = ResponseRecorder (w_run acts' w) st' b' wrote'"
proof (induction acts arbitrary: w st b wrote)
  case Nil
  show ?case by (intro exI [of _ "[]"]) simp
next
  case (Cons a acts)
  obtain acts1 st1 b1 wrote1 where
    1: "w_act a (ResponseRecorder w st b wrote) = ResponseRecorder (w_run acts1 w) st1 b1 wrote1"
    using response_recorder_act by blast
  obtain acts2 st2 b2 wrote2 where
    2: "w_run acts (ResponseRecorder (w_run acts1 w) st1 b1 wrote1) =
      ResponseRecorder (w_run acts2 (w_run acts1 w)) st2 b2 wrote2"
    using Cons.IH by blast
  from 1 2 show ?case by (intro exI [of _ "acts1 @ acts2"]) simp
qed

text \<open>The status on the wire, and the headers sent with it.\<close>

lemma conn_status_run:
  "coherent w \<Longrightarrow> c_status (w_conn w) = Some code \<Longrightarrow>
     c_status (w_conn (w_run acts w)) = Some code \<and> c_sent (w_conn (w_run acts w)) = c_sent (w_conn w)"
proof (induction acts arbitrary: w)
  case (Cons a acts)
  have "coherent (w_act a w)" using Cons.prems by (cases a) simp_all
  moreover have "c_status (w_conn (w_act a w)) = Some code" "c_sent (w_conn (w_act a w)) = c_sent (w_conn w)"
    using Cons.prems by (cases a; simp add: conn_sent_fixed)+
  ultimately show ?case using Cons.IH by simp
qed simp

text \<open>A header that is set before the handler runs and that the handler leaves alone is sent.\<close>

fun leaves_header :: "string \<Rightarrow> w_action \<Rightarrow> bool" where
  "leaves_header k (SetHeader k' v) \<longleftrightarrow> canonical_key k' \<noteq> canonical_key k"
| "leaves_header k a \<longleftrightarrow> True"

definition sent_header :: "string \<Rightarrow> writer \<Rightarrow> string" where
  "sent_header k w = header_get k (c_sent (conn_finish (w_conn w)))"

lemma sent_header_run:
  "coherent w \<Longrightarrow> c_status (w_conn w) = None \<Longrightarrow> list_all (leaves_header k) acts \<Longrightarrow>
     sent_header k (w_run acts w) = header_get k (w_header w)"
proof (induction acts arbitrary: w)
  case Nil
  then show ?case by (simp add: sent_header_def conn_finish_def conn_write_header_def w_header_def)
next
  case (Cons a acts)
  show ?case
  proof (cases a)
    case (SetHeader k' v)
    then have ne: "canonical_key k \<noteq> canonical_key k'" using Cons.prems(3) by auto
    with SetHeader Cons show ?thesis by (simp add: w_header_def header_get_set_other)
  next
    case (WriteHeader code)
    with Cons.prems have c: "coherent (w_act a w)" "c_status (w_conn (w_act a w)) = Some code"
      "c_sent (w_conn (w_act a w)) = w_header w"
      by (simp_all add: conn_write_header_def w_header_def)
    from conn_status_run [OF c(1,2), of acts] c(3) show ?thesis
      by (simp add: sent_header_def conn_finish_def)
  next
    case (WriteBody bs)
    with Cons.prems have c: "coherent (w_act a w)" "c_status (w_conn (w_act a w)) = Some 200"
      "c_sent (w_conn (w_act a w)) = w_header w"
      by (simp_all add: conn_write_def conn_write_header_def w_header_def Let_def split: if_splits)
    from conn_status_run [OF c(1,2), of acts] c(3) show ?thesis
      by (simp add: sent_header_def conn_finish_def)
  qed
qed

end
