(* ===== verification/Go_Json.thy ===== *)
theory Go_Json
  imports Go_Strings
begin

text \<open>
  What the services use of Go's \<open>encoding/json\<close>: JSON values, the compact printer with Go's
  string escapes (HTML-escaping on, as \<open>Marshal\<close> and \<open>NewEncoder\<close> have it), the parser with
  the scanner's grammar, and the base64 text of a \<open>[]byte\<close>. A number keeps its literal, as
  the decoder keeps it until it knows the type of the field. The main fact is that the
  parser reads back what the printer wrote.
\<close>

datatype json =
    JNull
  | JBool bool
  | JNum string
  | JStr string
  | JArr "json list"
  | JObj "(string \<times> json) list"

subsection \<open>UTF-8\<close>

definition cont :: "char \<Rightarrow> bool" where
  "cont c \<longleftrightarrow> 0x80 \<le> byte c \<and> byte c \<le> 0xBF"

text \<open>
  The length of the well-formed multi-byte sequence at the head of the string, 0 when there
  is none (the decoder then gives U+FFFD and skips one byte).
\<close>

fun multi_len :: "string \<Rightarrow> nat" where
  "multi_len (a # b # s) =
     (if 0xC2 \<le> byte a \<and> byte a \<le> 0xDF then (if cont b then 2 else 0)
      else if byte a = 0xE0 then (case s of c # _ \<Rightarrow> if 0xA0 \<le> byte b \<and> cont b \<and> cont c then 3 else 0 | _ \<Rightarrow> 0)
      else if byte a = 0xED then (case s of c # _ \<Rightarrow> if byte b \<le> 0x9F \<and> cont b \<and> cont c then 3 else 0 | _ \<Rightarrow> 0)
      else if 0xE1 \<le> byte a \<and> byte a \<le> 0xEF then (case s of c # _ \<Rightarrow> if cont b \<and> cont c then 3 else 0 | _ \<Rightarrow> 0)
      else if byte a = 0xF0 then
        (case s of c # d # _ \<Rightarrow> if 0x90 \<le> byte b \<and> cont b \<and> cont c \<and> cont d then 4 else 0 | _ \<Rightarrow> 0)
      else if byte a = 0xF4 then
        (case s of c # d # _ \<Rightarrow> if byte b \<le> 0x8F \<and> cont b \<and> cont c \<and> cont d then 4 else 0 | _ \<Rightarrow> 0)
      else if 0xF1 \<le> byte a \<and> byte a \<le> 0xF3 then
        (case s of c # d # _ \<Rightarrow> if cont b \<and> cont c \<and> cont d then 4 else 0 | _ \<Rightarrow> 0)
      else 0)"
| "multi_len s = 0"

definition replacement :: string where
  "replacement = [CHR 0xEF, CHR 0xBF, CHR 0xBD]"

text \<open>The UTF-8 text of a code point (a surrogate or a too large one becomes U+FFFD).\<close>

definition encode_rune :: "nat \<Rightarrow> string" where
  "encode_rune r =
     (if r < 0x80 then [char_of r]
      else if r < 0x800 then [char_of (0xC0 + r div 64), char_of (0x80 + r mod 64)]
      else if 0xD800 \<le> r \<and> r \<le> 0xDFFF \<or> 0x10FFFF < r then replacement
      else if r < 0x10000 then
        [char_of (0xE0 + r div 4096), char_of (0x80 + r div 64 mod 64), char_of (0x80 + r mod 64)]
      else
        [char_of (0xF0 + r div 262144), char_of (0x80 + r div 4096 mod 64),
         char_of (0x80 + r div 64 mod 64), char_of (0x80 + r mod 64)])"

function valid_utf8 :: "string \<Rightarrow> bool" where
  "valid_utf8 [] \<longleftrightarrow> True"
| "valid_utf8 (c # s) \<longleftrightarrow>
     (if byte c < 0x80 then valid_utf8 s
      else if multi_len (c # s) = 0 then False
      else valid_utf8 (drop (multi_len (c # s)) (c # s)))"
  by pat_completeness auto
termination
  by (relation "measure length") (auto simp del: multi_len.simps)

declare valid_utf8.simps(2) [simp del]

subsection \<open>Printing\<close>

definition u_escape :: "nat \<Rightarrow> string" where
  "u_escape n = [CHR 0x5C, CHR ''u'', CHR ''0'', CHR ''0'', hex_digit (n div 16), hex_digit (n mod 16)]"

definition escape_ascii :: "char \<Rightarrow> string" where
  "escape_ascii c =
     (if c = CHR 0x5C \<or> c = CHR 0x22 then [CHR 0x5C, c]
      else if c = CHR 0x08 then [CHR 0x5C, CHR ''b'']
      else if c = CHR 0x0C then [CHR 0x5C, CHR ''f'']
      else if c = CHR 0x0A then [CHR 0x5C, CHR ''n'']
      else if c = CHR 0x0D then [CHR 0x5C, CHR ''r'']
      else if c = CHR 0x09 then [CHR 0x5C, CHR ''t'']
      else if byte c < 0x20 \<or> c = CHR ''<'' \<or> c = CHR ''>'' \<or> c = CHR ''&'' then u_escape (byte c)
      else [c])"

definition escape_multi :: "string \<Rightarrow> string" where
  "escape_multi m =
     (if m = [CHR 0xE2, CHR 0x80, CHR 0xA8] then CHR 0x5C # ''u2028''
      else if m = [CHR 0xE2, CHR 0x80, CHR 0xA9] then CHR 0x5C # ''u2029''
      else m)"

function escape :: "string \<Rightarrow> string" where
  "escape [] = []"
| "escape (c # s) =
     (if byte c < 0x80 then escape_ascii c @ escape s
      else if multi_len (c # s) = 0 then (CHR 0x5C # ''ufffd'') @ escape s
      else escape_multi (take (multi_len (c # s)) (c # s)) @ escape (drop (multi_len (c # s)) (c # s)))"
  by pat_completeness auto
termination
  by (relation "measure length") (auto simp del: multi_len.simps)

declare escape.simps(2) [simp del]

definition quote :: "string \<Rightarrow> string" where
  "quote s = CHR 0x22 # escape s @ [CHR 0x22]"

definition comma_sep :: "string list \<Rightarrow> string" where
  "comma_sep ps = join_byte (CHR '','') ps"

fun print_json :: "json \<Rightarrow> string" where
  "print_json JNull = ''null''"
| "print_json (JBool b) = (if b then ''true'' else ''false'')"
| "print_json (JNum n) = n"
| "print_json (JStr s) = quote s"
| "print_json (JArr js) = ''['' @ comma_sep (map print_json js) @ '']''"
| "print_json (JObj ms) = ''{'' @ comma_sep (map (\<lambda>(k, j). quote k @ '':'' @ print_json j) ms) @ ''}''"

text \<open>\<open>json.NewEncoder(w).Encode\<close> ends the value with a newline.\<close>

definition encode_line :: "json \<Rightarrow> string" where
  "encode_line j = print_json j @ [CHR 0x0A]"

text \<open>A Go map is marshalled with its keys in byte order.\<close>

definition sort_keys :: "(string \<times> 'a) list \<Rightarrow> (string \<times> 'a) list" where
  "sort_keys m = sort_key fst m"

subsection \<open>Parsing\<close>

definition is_ws :: "char \<Rightarrow> bool" where
  "is_ws c \<longleftrightarrow> c \<in> {CHR 0x20, CHR 0x09, CHR 0x0A, CHR 0x0D}"

definition skip_ws :: "string \<Rightarrow> string" where
  "skip_ws s = dropWhile is_ws s"

definition hex_value :: "char \<Rightarrow> nat option" where
  "hex_value c =
     (if is_digit c then Some (byte c - 48)
      else if in_range (CHR ''a'') (CHR ''f'') c then Some (byte c - 87)
      else if in_range (CHR ''A'') (CHR ''F'') c then Some (byte c - 55)
      else None)"

fun hex4 :: "string \<Rightarrow> (nat \<times> string) option" where
  "hex4 (a # b # c # d # s) =
     (case (hex_value a, hex_value b, hex_value c, hex_value d) of
        (Some w, Some x, Some y, Some z) \<Rightarrow> Some (4096 * w + 256 * x + 16 * y + z, s)
      | _ \<Rightarrow> None)"
| "hex4 s = None"

text \<open>A surrogate pair is one code point; a lone surrogate is U+FFFD.\<close>

definition rune_escape :: "string \<Rightarrow> (string \<times> string) option" where
  "rune_escape s =
     (case hex4 s of
        None \<Rightarrow> None
      | Some (r, t) \<Rightarrow>
          if 0xD800 \<le> r \<and> r < 0xDC00 then
            (case t of
               a # b # t' \<Rightarrow>
                 (if a = CHR 0x5C \<and> b = CHR ''u'' then
                    (case hex4 t' of
                       Some (r2, t'') \<Rightarrow>
                         if 0xDC00 \<le> r2 \<and> r2 < 0xE000
                         then Some (encode_rune ((r - 0xD800) * 1024 + (r2 - 0xDC00) + 0x10000), t'')
                         else Some (replacement, t)
                     | None \<Rightarrow> Some (replacement, t))
                  else Some (replacement, t))
             | _ \<Rightarrow> Some (replacement, t))
          else Some (encode_rune r, t))"

definition simple_escape :: "char \<Rightarrow> char option" where
  "simple_escape c =
     (if c = CHR 0x22 \<or> c = CHR 0x5C \<or> c = CHR ''/'' then Some c
      else if c = CHR ''b'' then Some (CHR 0x08)
      else if c = CHR ''f'' then Some (CHR 0x0C)
      else if c = CHR ''n'' then Some (CHR 0x0A)
      else if c = CHR ''r'' then Some (CHR 0x0D)
      else if c = CHR ''t'' then Some (CHR 0x09)
      else None)"

lemma hex4_shorter: "hex4 s = Some (r, t) \<Longrightarrow> length t < length s"
  by (induction s rule: hex4.induct) (auto split: option.splits)

lemma rune_escape_shorter: "rune_escape s = Some (u, t) \<Longrightarrow> length t < length s"
  by (auto simp: rune_escape_def dest!: hex4_shorter split: option.splits if_splits list.splits)

text \<open>The rest of a string literal after its opening quote: its bytes, and what follows it.\<close>

function parse_str :: "string \<Rightarrow> (string \<times> string) option" where
  "parse_str [] = None"
| "parse_str (c # s) =
     (if c = CHR 0x22 then Some ([], s)
      else if byte c < 0x20 then None
      else if c = CHR 0x5C then
        (case s of
           [] \<Rightarrow> None
         | e # s' \<Rightarrow>
             if e = CHR ''u'' then
               (case rune_escape s' of
                  None \<Rightarrow> None
                | Some (u, t) \<Rightarrow> map_option (\<lambda>(r, t'). (u @ r, t')) (parse_str t))
             else
               (case simple_escape e of
                  None \<Rightarrow> None
                | Some x \<Rightarrow> map_option (\<lambda>(r, t'). (x # r, t')) (parse_str s')))
      else if byte c < 0x80 then map_option (\<lambda>(r, t'). (c # r, t')) (parse_str s)
      else if multi_len (c # s) = 0 then
        map_option (\<lambda>(r, t'). (replacement @ r, t')) (parse_str s)
      else
        map_option (\<lambda>(r, t'). (take (multi_len (c # s)) (c # s) @ r, t'))
          (parse_str (drop (multi_len (c # s)) (c # s))))"
  by pat_completeness auto
termination
  by (relation "measure length") (auto simp del: multi_len.simps dest: rune_escape_shorter)

declare parse_str.simps(2) [simp del]

text \<open>Numbers: an optional sign, an integer part without leading zeros, fraction, exponent.\<close>

definition parse_frac :: "string \<Rightarrow> (string \<times> string) option" where
  "parse_frac s =
     (case s of
        c # r \<Rightarrow>
          if c = CHR ''.'' then
            (if takeWhile is_digit r = [] then None
             else Some (c # takeWhile is_digit r, dropWhile is_digit r))
          else Some ([], s)
      | [] \<Rightarrow> Some ([], s))"

definition parse_exp :: "string \<Rightarrow> (string \<times> string) option" where
  "parse_exp s =
     (case s of
        c # r \<Rightarrow>
          if c = CHR ''e'' \<or> c = CHR ''E'' then
            (let (sg, r') = (case r of
                 d # r'' \<Rightarrow> if d = CHR ''+'' \<or> d = CHR ''-'' then ([d], r'') else ([], r)
               | [] \<Rightarrow> ([], r))
             in if takeWhile is_digit r' = [] then None
                else Some (c # sg @ takeWhile is_digit r', dropWhile is_digit r'))
          else Some ([], s)
      | [] \<Rightarrow> Some ([], s))"

definition parse_int_part :: "string \<Rightarrow> (string \<times> string) option" where
  "parse_int_part s =
     (case s of
        c # r \<Rightarrow>
          if c = CHR ''0'' then Some ([c], r)
          else if is_digit c then Some (takeWhile is_digit s, dropWhile is_digit s)
          else None
      | [] \<Rightarrow> None)"

definition parse_num :: "string \<Rightarrow> (string \<times> string) option" where
  "parse_num s =
     (let (sg, t) = (case s of c # r \<Rightarrow> if c = CHR ''-'' then ([c], r) else ([], s) | [] \<Rightarrow> ([], s))
      in case parse_int_part t of
           None \<Rightarrow> None
         | Some (i, t1) \<Rightarrow>
             (case parse_frac t1 of
                None \<Rightarrow> None
              | Some (f, t2) \<Rightarrow>
                  (case parse_exp t2 of
                     None \<Rightarrow> None
                   | Some (e, t3) \<Rightarrow> Some (sg @ i @ f @ e, t3))))"

text \<open>
  Values, by recursive descent. The fuel is spent once per call; \<open>parse_json\<close> starts with
  enough for the longest input of the length it is given. Go's scanner refuses a value with more than
  10000 containers open at once; the depth is measured on the value read, since either way nothing is
  decoded.
\<close>

fun parse_value :: "nat \<Rightarrow> string \<Rightarrow> (json \<times> string) option"
  and parse_elems :: "nat \<Rightarrow> string \<Rightarrow> (json list \<times> string) option"
  and parse_members :: "nat \<Rightarrow> string \<Rightarrow> ((string \<times> json) list \<times> string) option" where
  "parse_value 0 s = None"
| "parse_value (Suc n) s =
     (case skip_ws s of
        [] \<Rightarrow> None
      | c # r \<Rightarrow>
          if c = CHR 0x22 then map_option (\<lambda>(u, t). (JStr u, t)) (parse_str r)
          else if c = CHR ''{'' then
            (case skip_ws r of
               [] \<Rightarrow> None
             | d # t \<Rightarrow>
                 if d = CHR ''}'' then Some (JObj [], t)
                 else map_option (\<lambda>(ms, t). (JObj ms, t)) (parse_members n (d # t)))
          else if c = CHR ''['' then
            (case skip_ws r of
               [] \<Rightarrow> None
             | d # t \<Rightarrow>
                 if d = CHR '']'' then Some (JArr [], t)
                 else map_option (\<lambda>(js, t). (JArr js, t)) (parse_elems n (d # t)))
          else if prefix ''null'' (c # r) then Some (JNull, drop 4 (c # r))
          else if prefix ''true'' (c # r) then Some (JBool True, drop 4 (c # r))
          else if prefix ''false'' (c # r) then Some (JBool False, drop 5 (c # r))
          else map_option (\<lambda>(u, t). (JNum u, t)) (parse_num (c # r)))"
| "parse_elems 0 s = None"
| "parse_elems (Suc n) s =
     (case parse_value n s of
        None \<Rightarrow> None
      | Some (j, t) \<Rightarrow>
          (case skip_ws t of
             [] \<Rightarrow> None
           | c # r \<Rightarrow>
               if c = CHR '']'' then Some ([j], r)
               else if c = CHR '','' then
                 map_option (\<lambda>(js, t'). (j # js, t')) (parse_elems n r)
               else None))"
| "parse_members 0 s = None"
| "parse_members (Suc n) s =
     (case skip_ws s of
        [] \<Rightarrow> None
      | c # r \<Rightarrow>
          if c \<noteq> CHR 0x22 then None
          else
            (case parse_str r of
               None \<Rightarrow> None
             | Some (k, t) \<Rightarrow>
                 (case skip_ws t of
                    [] \<Rightarrow> None
                  | d # t1 \<Rightarrow>
                      if d \<noteq> CHR '':'' then None
                      else
                        (case parse_value n t1 of
                           None \<Rightarrow> None
                         | Some (j, t2) \<Rightarrow>
                             (case skip_ws t2 of
                                [] \<Rightarrow> None
                              | e # t3 \<Rightarrow>
                                  if e = CHR ''}'' then Some ([(k, j)], t3)
                                  else if e = CHR '','' then
                                    map_option (\<lambda>(ms, t'). ((k, j) # ms, t')) (parse_members n t3)
                                  else None)))))"

definition json_fuel :: "string \<Rightarrow> nat" where
  "json_fuel s = 2 * length s + 2"

fun json_depth :: "json \<Rightarrow> int" where
  "json_depth (JArr js) = 1 + foldr max (map json_depth js) 0"
| "json_depth (JObj ms) = 1 + foldr max (map (\<lambda>(k, j). json_depth j) ms) 0"
| "json_depth j = 0"

definition maxNestingDepth :: int where
  "maxNestingDepth = 10000"

text \<open>\<open>json.Unmarshal\<close> reads one value and allows only white space after it.\<close>

definition parse_json :: "string \<Rightarrow> json option" where
  "parse_json s =
     (case parse_value (json_fuel s) s of
        None \<Rightarrow> None
      | Some (j, t) \<Rightarrow> if skip_ws t = [] \<and> json_depth j \<le> maxNestingDepth then Some j else None)"

text \<open>\<open>Decoder.Decode\<close> reads the first value of the stream and leaves the rest.\<close>

definition decode_first :: "string \<Rightarrow> json option" where
  "decode_first s =
     (case parse_value (json_fuel s) s of
        None \<Rightarrow> None
      | Some (j, t) \<Rightarrow> if json_depth j \<le> maxNestingDepth then Some j else None)"

subsection \<open>A printed string is read back\<close>

lemma hex_value_digit [simp]: "n < 16 \<Longrightarrow> hex_value (hex_digit n) = Some n"
  by (auto simp: hex_value_def hex_digit_def in_range_def of_char_of)

lemma multi_len_local:
  "0 < multi_len s \<Longrightarrow> multi_len (take (multi_len s) s @ t) = multi_len s"
  by (induction s rule: multi_len.induct) (auto split: list.splits if_splits)

lemma multi_len_le: "multi_len s \<le> length s"
  by (induction s rule: multi_len.induct) (auto split: list.splits)

lemma rune_escape_ascii:
  assumes "byte c < 0x80"
  shows "rune_escape (CHR ''0'' # CHR ''0'' # hex_digit (byte c div 16) # hex_digit (byte c mod 16) # s)
    = Some ([c], s)"
proof -
  have "hex_value (CHR ''0'') = Some 0" by (simp add: hex_value_def in_range_def)
  moreover have "byte c div 16 < 16" "byte c mod 16 < 16"
    using nat_of_char_less_256 [of c] by linarith+
  moreover have "16 * (byte c div 16) + byte c mod 16 = byte c" by simp
  ultimately show ?thesis using assms
    by (simp add: rune_escape_def encode_rune_def)
qed

lemma parse_str_plain:
  "c \<noteq> CHR 0x22 \<Longrightarrow> c \<noteq> CHR 0x5C \<Longrightarrow> 0x20 \<le> byte c \<Longrightarrow> byte c < 0x80 \<Longrightarrow>
     parse_str (c # s) = map_option (\<lambda>(r, t'). (c # r, t')) (parse_str s)"
  by (simp add: parse_str.simps(2))

lemma parse_str_simple:
  "e \<noteq> CHR ''u'' \<Longrightarrow> simple_escape e = Some x \<Longrightarrow>
     parse_str (CHR 0x5C # e # s) = map_option (\<lambda>(r, t'). (x # r, t')) (parse_str s)"
  by (simp add: parse_str.simps(2))

lemma parse_str_unicode:
  "rune_escape s = Some (u, t) \<Longrightarrow>
     parse_str (CHR 0x5C # CHR ''u'' # s) = map_option (\<lambda>(r, t'). (u @ r, t')) (parse_str t)"
  by (simp add: parse_str.simps(2))

lemma parse_str_escape_ascii:
  assumes "byte c < 0x80"
  shows "parse_str (escape_ascii c @ s) = map_option (\<lambda>(r, t'). (c # r, t')) (parse_str s)"
proof (cases "c \<in> {CHR 0x5C, CHR 0x22, CHR 0x08, CHR 0x0C, CHR 0x0A, CHR 0x0D, CHR 0x09}")
  case True
  then show ?thesis
    by (auto simp: escape_ascii_def parse_str_simple simple_escape_def)
next
  case False
  then have esc: "escape_ascii c =
      (if byte c < 0x20 \<or> c = CHR ''<'' \<or> c = CHR ''>'' \<or> c = CHR ''&''
       then u_escape (byte c) else [c])"
    by (simp add: escape_ascii_def)
  show ?thesis
  proof (cases "byte c < 0x20 \<or> c = CHR ''<'' \<or> c = CHR ''>'' \<or> c = CHR ''&''")
    case True
    with assms show ?thesis
      by (simp only: esc if_True) (simp add: u_escape_def parse_str_unicode rune_escape_ascii)
  next
    case not_html: False
    with False assms show ?thesis
      by (simp only: esc if_False append_Cons append_Nil) (intro parse_str_plain, auto)
  qed
qed

lemma parse_str_multi:
  assumes "0 < multi_len m" and "128 \<le> byte (hd m)"
  shows "parse_str (escape_multi (take (multi_len m) m) @ s) =
    map_option (\<lambda>(r, t'). (take (multi_len m) m @ r, t')) (parse_str s)"
proof -
  let ?m = "take (multi_len m) m"
  have line_sep: "rune_escape (CHR ''2'' # CHR ''0'' # CHR ''2'' # CHR ''8'' # s) = Some ([CHR 0xE2, CHR 0x80, CHR 0xA8], s)"
    "rune_escape (CHR ''2'' # CHR ''0'' # CHR ''2'' # CHR ''9'' # s) = Some ([CHR 0xE2, CHR 0x80, CHR 0xA9], s)"
    by (simp_all add: rune_escape_def hex_value_def in_range_def encode_rune_def char_of_eq_iff)
  show ?thesis
  proof (cases "escape_multi ?m = ?m")
    case True
    from assms obtain c r where m: "m = c # r" "128 \<le> byte c" by (cases m) auto
    obtain n where n: "multi_len m = Suc n" using assms by (cases "multi_len m") auto
    have loc: "multi_len (?m @ s) = multi_len m" using assms(1) by (rule multi_len_local)
    have "length ?m = multi_len m" using multi_len_le [of m] by simp
    with loc have td: "take (multi_len m) (?m @ s) = ?m" "drop (multi_len m) (?m @ s) = s" by simp_all
    from m n have "?m @ s = c # (take n r @ s)" by simp
    with loc td m n True show ?thesis
      by (auto simp: parse_str.simps(2) simp del: multi_len.simps)
  next
    case False
    then show ?thesis
      by (auto simp: escape_multi_def parse_str_unicode line_sep split: if_splits)
  qed
qed

lemma parse_str_escape:
  "valid_utf8 s \<Longrightarrow> parse_str (escape s @ CHR 0x22 # t) = Some (s, t)"
proof (induction s rule: escape.induct)
  case 1
  then show ?case by (simp add: parse_str.simps(2))
next
  case (2 c s)
  show ?case
  proof (cases "byte c < 0x80")
    case True
    with 2 show ?thesis
      by (simp add: escape.simps(2) valid_utf8.simps(2) parse_str_escape_ascii)
  next
    case False
    with 2 show ?thesis
      by (simp add: escape.simps(2) valid_utf8.simps(2) parse_str_multi split: if_splits)
  qed
qed

subsection \<open>A printed value is read back\<close>

definition int_lit :: "string \<Rightarrow> bool" where
  "int_lit n =
     (let d = (case n of c # r \<Rightarrow> if c = CHR ''-'' then r else n | [] \<Rightarrow> n)
      in d = ''0'' \<or> (d \<noteq> [] \<and> list_all is_digit d \<and> hd d \<noteq> CHR ''0''))"

text \<open>Values whose strings are UTF-8 and whose numbers are integer literals.\<close>

fun wf_json :: "json \<Rightarrow> bool" where
  "wf_json (JNum n) \<longleftrightarrow> int_lit n"
| "wf_json (JStr s) \<longleftrightarrow> valid_utf8 s"
| "wf_json (JArr js) \<longleftrightarrow> (\<forall>j\<in>set js. wf_json j)"
| "wf_json (JObj ms) \<longleftrightarrow> (\<forall>(k, j)\<in>set ms. valid_utf8 k \<and> wf_json j)"
| "wf_json j \<longleftrightarrow> True"

definition delim :: "string \<Rightarrow> bool" where
  "delim t \<longleftrightarrow> t = [] \<or> hd t \<in> {CHR '','', CHR '']'', CHR ''}''}"

lemma delim_simps [simp]:
  "delim []" "delim (CHR '','' # t)" "delim (CHR '']'' # t)" "delim (CHR ''}'' # t)"
  by (simp_all add: delim_def)

lemma delim_not_digit: "delim t \<Longrightarrow> t = [] \<or> \<not> is_digit (hd t)"
  by (auto simp: delim_def in_range_def)

lemma digits_span:
  "list_all is_digit d \<Longrightarrow> delim t \<Longrightarrow>
     takeWhile is_digit (d @ t) = d \<and> dropWhile is_digit (d @ t) = t"
  using delim_not_digit [of t]
  by (cases t) (auto simp: takeWhile_append2 dropWhile_append2 list_all_iff)

lemma parse_frac_delim: "delim t \<Longrightarrow> parse_frac t = Some ([], t)"
  by (cases t) (auto simp: parse_frac_def delim_def)

lemma parse_exp_delim: "delim t \<Longrightarrow> parse_exp t = Some ([], t)"
  by (cases t) (auto simp: parse_exp_def delim_def)

lemma parse_int_part_digits:
  assumes "d = ''0'' \<or> (d \<noteq> [] \<and> list_all is_digit d \<and> hd d \<noteq> CHR ''0'')" and "delim t"
  shows "parse_int_part (d @ t) = Some (d, t)"
  using assms(1)
proof
  assume d: "d \<noteq> [] \<and> list_all is_digit d \<and> hd d \<noteq> CHR ''0''"
  then obtain c r where "d = c # r" by (cases d) auto
  with d digits_span [of d t] assms(2) show ?thesis
    by (simp add: parse_int_part_def)
qed (simp add: parse_int_part_def)

lemma parse_num_int_lit:
  assumes "int_lit n" and "delim t"
  shows "parse_num (n @ t) = Some (n, t)"
proof -
  obtain sg d where n: "n = sg @ d"
    and sg: "sg = [] \<and> (\<forall>c r. d = c # r \<longrightarrow> c \<noteq> CHR ''-'') \<or> sg = [CHR ''-'']"
    and d: "d = ''0'' \<or> (d \<noteq> [] \<and> list_all is_digit d \<and> hd d \<noteq> CHR ''0'')"
  proof (cases n)
    case Nil
    with assms that show ?thesis by (simp add: int_lit_def)
  next
    case (Cons c r)
    with assms that [of "[CHR ''-'']" r] that [of "[]" n] show ?thesis
      by (cases "c = CHR ''-''") (auto simp: int_lit_def)
  qed
  note p = parse_int_part_digits [OF d assms(2)] parse_frac_delim [OF assms(2)]
    parse_exp_delim [OF assms(2)]
  from d obtain c r where "d = c # r" by (cases d) auto
  with sg p n show ?thesis
    by (auto simp: parse_num_def)
qed

lemma int_lit_hd:
  assumes "int_lit n"
  obtains c r where "n = c # r" "c = CHR ''-'' \<or> is_digit c"
  using assms by (cases n) (auto simp: int_lit_def in_range_def Let_def split: if_splits)

text \<open>The fuel a value takes.\<close>

fun need :: "json \<Rightarrow> nat" and need_elems :: "json list \<Rightarrow> nat"
  and need_members :: "(string \<times> json) list \<Rightarrow> nat" where
  "need (JArr js) = Suc (need_elems js)"
| "need (JObj ms) = Suc (need_members ms)"
| "need j = 1"
| "need_elems [] = 0"
| "need_elems (j # js) = Suc (max (need j) (need_elems js))"
| "need_members [] = 0"
| "need_members (m # ms) = Suc (max (need (snd m)) (need_members ms))"

lemma skip_ws_id [simp]: "\<not> is_ws c \<Longrightarrow> skip_ws (c # s) = c # s"
  by (simp add: skip_ws_def)

lemma is_ws_simps [simp]:
  "\<not> is_ws (CHR 0x22)" "\<not> is_ws (CHR ''{'')" "\<not> is_ws (CHR ''['')" "\<not> is_ws (CHR ''}'')"
  "\<not> is_ws (CHR '']'')" "\<not> is_ws (CHR '','')" "\<not> is_ws (CHR '':'')" "\<not> is_ws (CHR ''n'')"
  "\<not> is_ws (CHR ''t'')" "\<not> is_ws (CHR ''f'')" "\<not> is_ws (CHR ''-'')"
  by (simp_all add: is_ws_def)

lemma is_ws_digit [simp]: "is_digit c \<Longrightarrow> \<not> is_ws c"
  by (auto simp: is_ws_def in_range_def)

lemma print_json_hd:
  assumes "wf_json j"
  obtains c r where "print_json j = c # r" "\<not> is_ws c" "c \<noteq> CHR '']''"
proof (cases j)
  case (JNum n)
  with assms have "int_lit n" by simp
  then obtain c r where c: "n = c # r" "c = CHR ''-'' \<or> is_digit c" by (rule int_lit_hd)
  then have "\<not> is_ws c" "c \<noteq> CHR '']''" by (auto simp: is_ws_def in_range_def)
  with c(1) JNum that [of c r] show ?thesis by simp
next
  case (JBool b)
  then show ?thesis using that by (cases b) auto
qed (use that in \<open>auto simp: quote_def\<close>)

lemma comma_sep_Cons:
  "comma_sep (p # ps) = (if ps = [] then p else p @ CHR '','' # comma_sep ps)"
  by (cases ps) (auto simp: comma_sep_def)

lemma parse_elems_print:
  assumes "\<And>j n t. j \<in> set js \<Longrightarrow> wf_json j \<Longrightarrow> need j \<le> n \<Longrightarrow> delim t \<Longrightarrow>
      parse_value n (print_json j @ t) = Some (j, t)"
    and "js \<noteq> []" and "\<forall>j\<in>set js. wf_json j" and "need_elems js \<le> n"
  shows "parse_elems n (comma_sep (map print_json js) @ CHR '']'' # t) = Some (js, t)"
  using assms
proof (induction js arbitrary: n)
  case (Cons j js)
  then obtain m where n: "n = Suc m" "need j \<le> m" "need_elems js \<le> m" by (cases n) auto
  show ?case
  proof (cases "js = []")
    case True
    with Cons.prems n show ?thesis by (simp add: comma_sep_Cons)
  next
    case False
    with Cons.prems n Cons.IH [of m] show ?thesis by (simp add: comma_sep_Cons)
  qed
qed simp

lemma parse_members_print:
  assumes "\<And>j n t. j \<in> snd ` set ms \<Longrightarrow> wf_json j \<Longrightarrow> need j \<le> n \<Longrightarrow> delim t \<Longrightarrow>
      parse_value n (print_json j @ t) = Some (j, t)"
    and "ms \<noteq> []" and "\<forall>(k, j)\<in>set ms. valid_utf8 k \<and> wf_json j" and "need_members ms \<le> n"
  shows "parse_members n
    (comma_sep (map (\<lambda>(k, j). quote k @ '':'' @ print_json j) ms) @ CHR ''}'' # t) = Some (ms, t)"
  using assms
proof (induction ms arbitrary: n)
  case (Cons m ms)
  obtain k j where m: "m = (k, j)" by (cases m)
  with Cons.prems obtain l where n: "n = Suc l" "need j \<le> l" "need_members ms \<le> l"
    by (cases n) auto
  show ?case
  proof (cases "ms = []")
    case True
    with Cons.prems n m show ?thesis
      by (simp add: comma_sep_Cons quote_def parse_str_escape)
  next
    case False
    with Cons.prems n m Cons.IH [of l] show ?thesis
      by (simp add: comma_sep_Cons quote_def parse_str_escape)
  qed
qed simp

lemma parse_value_print:
  "wf_json j \<Longrightarrow> need j \<le> n \<Longrightarrow> delim t \<Longrightarrow> parse_value n (print_json j @ t) = Some (j, t)"
proof (induction j arbitrary: n t)
  case (JNum x)
  then obtain m where n: "n = Suc m" by (cases n) auto
  from JNum.prems have lit: "int_lit x" by simp
  then obtain c r where x: "x = c # r" "c = CHR ''-'' \<or> is_digit c" by (rule int_lit_hd)
  then have "c \<noteq> CHR 0x22 \<and> c \<noteq> CHR ''{'' \<and> c \<noteq> CHR ''['' \<and> c \<noteq> CHR ''n'' \<and> c \<noteq> CHR ''t'' \<and>
      c \<noteq> CHR ''f'' \<and> \<not> is_ws c"
    by (auto simp: in_range_def is_ws_def)
  with x n parse_num_int_lit [OF lit JNum.prems(3)] show ?case by auto
next
  case (JStr s)
  then show ?case by (cases n) (auto simp: quote_def parse_str_escape)
next
  case (JArr js)
  then obtain m where n: "n = Suc m" "need_elems js \<le> m" by (cases n) auto
  show ?case
  proof (cases js)
    case Nil
    with n show ?thesis by (simp add: comma_sep_def)
  next
    case (Cons j js')
    then obtain c r where "print_json j = c # r" "\<not> is_ws c" "c \<noteq> CHR '']''"
      using JArr.prems by (auto elim: print_json_hd)
    then have "\<exists>r'. comma_sep (map print_json js) = c # r'"
      by (cases js') (auto simp: Cons comma_sep_Cons)
    then obtain r' where r': "comma_sep (map print_json js) = c # r'" ..
    have "parse_elems m (comma_sep (map print_json js) @ CHR '']'' # t) = Some (js, t)"
      using JArr n Cons by (intro parse_elems_print) auto
    with r' n \<open>\<not> is_ws c\<close> \<open>c \<noteq> CHR '']''\<close> show ?thesis by simp
  qed
next
  case (JObj ms)
  then obtain m where n: "n = Suc m" "need_members ms \<le> m" by (cases n) auto
  show ?case
  proof (cases ms)
    case Nil
    with n show ?thesis by (simp add: comma_sep_def)
  next
    case (Cons kj ms')
    have "\<exists>r'. comma_sep (map (\<lambda>(k, j). quote k @ '':'' @ print_json j) ms) = CHR 0x22 # r'"
      by (cases kj; cases ms') (auto simp: Cons comma_sep_Cons quote_def)
    then obtain r' where r':
      "comma_sep (map (\<lambda>(k, j). quote k @ '':'' @ print_json j) ms) = CHR 0x22 # r'" ..
    have "parse_members m (comma_sep (map (\<lambda>(k, j). quote k @ '':'' @ print_json j) ms) @ CHR ''}'' # t)
        = Some (ms, t)"
      using JObj n Cons by (intro parse_members_print) (auto simp: snds.simps, fastforce+)
    with r' n show ?thesis by simp
  qed
next
  case JNull
  then obtain m where "n = Suc m" by (cases n) auto
  then show ?case by simp
next
  case (JBool b)
  then obtain m where "n = Suc m" by (cases n) auto
  then show ?case by (cases b) simp_all
qed

text \<open>The fuel \<open>parse_json\<close> starts with is enough for any printed value.\<close>

lemma int_lit_nonempty: "int_lit n \<Longrightarrow> n \<noteq> []"
  by (auto simp: int_lit_def)

lemma need_elems_le:
  "(\<And>j. j \<in> set js \<Longrightarrow> need j \<le> 2 * length (print_json j) + 1) \<Longrightarrow>
     need_elems js \<le> 2 * length (comma_sep (map print_json js)) + 2"
proof (induction js)
  case (Cons j js)
  then have "need j \<le> 2 * length (print_json j) + 1"
    "need_elems js \<le> 2 * length (comma_sep (map print_json js)) + 2" by simp_all
  then show ?case by (cases "js = []") (simp_all add: comma_sep_Cons)
qed simp

lemma need_members_le:
  "(\<And>k j. (k, j) \<in> set ms \<Longrightarrow> need j \<le> 2 * length (print_json j) + 1) \<Longrightarrow>
     need_members ms \<le>
       2 * length (comma_sep (map (\<lambda>(k, j). quote k @ '':'' @ print_json j) ms)) + 2"
proof (induction ms)
  case (Cons m ms)
  obtain k j where m: "m = (k, j)" by (cases m)
  with Cons have "need j \<le> 2 * length (print_json j) + 1"
    "need_members ms \<le>
       2 * length (comma_sep (map (\<lambda>(k, j). quote k @ '':'' @ print_json j) ms)) + 2" by auto
  then show ?case by (cases "ms = []") (simp_all add: comma_sep_Cons m)
qed simp

lemma need_le: "wf_json j \<Longrightarrow> need j \<le> 2 * length (print_json j) + 1"
proof (induction j)
  case (JArr js)
  then show ?case using need_elems_le [of js] by auto
next
  case (JObj ms)
  have "need j \<le> 2 * length (print_json j) + 1" if "(k, j) \<in> set ms" for k j
  proof -
    from that have "(k, j) \<in> set ms" "j \<in> Basic_BNFs.snds (k, j)" by auto
    from JObj.IH [OF this] JObj.prems that show ?thesis by auto
  qed
  then show ?case using need_members_le [of ms] by auto
qed auto

text \<open>The depth of a value is bounded through the depths of its parts.\<close>

lemma foldr_max_le: "(\<forall>x\<in>set xs. x \<le> d) \<Longrightarrow> 0 \<le> d \<Longrightarrow> foldr max xs 0 \<le> (d :: int)"
  by (induction xs) auto

lemma depth_JObj: "(\<And>k j. (k, j) \<in> set ms \<Longrightarrow> json_depth j \<le> d) \<Longrightarrow> 0 \<le> d \<Longrightarrow> json_depth (JObj ms) \<le> 1 + d"
proof -
  assume m: "\<And>k j. (k, j) \<in> set ms \<Longrightarrow> json_depth j \<le> d" and d: "0 \<le> d"
  have "\<forall>x\<in>set (map (\<lambda>(k, j). json_depth j) ms). x \<le> d" using m by auto
  from foldr_max_le [OF this d] show ?thesis by simp
qed

lemma depth_flat: "(\<And>k j. (k, j) \<in> set ms \<Longrightarrow> json_depth j = 0) \<Longrightarrow> json_depth (JObj ms) \<le> 1"
  using depth_JObj [of ms 0] by simp

lemma parse_print_json:
  "wf_json j \<Longrightarrow> json_depth j \<le> maxNestingDepth \<Longrightarrow> parse_json (print_json j) = Some j"
  using parse_value_print [of j "json_fuel (print_json j)" "[]"] need_le [of j]
  by (simp add: parse_json_def json_fuel_def skip_ws_def)

text \<open>\<open>Decode\<close> reads the line \<open>Encode\<close> wrote.\<close>

lemma decode_print_json:
  "wf_json j \<Longrightarrow> json_depth j \<le> maxNestingDepth \<Longrightarrow> delim t \<Longrightarrow> decode_first (print_json j @ t) = Some j"
  using parse_value_print [of j "json_fuel (print_json j @ t)" t] need_le [of j]
  by (simp add: decode_first_def json_fuel_def)

lemma valid_utf8_ascii: "is_ascii s \<Longrightarrow> valid_utf8 s"
  by (induction s) (auto simp: valid_utf8.simps(2) is_ascii_def is_ascii_byte_def)

lemma digits_hd: "0 < n \<Longrightarrow> hd (digits n) \<noteq> CHR ''0''"
proof (induction n rule: digits.induct)
  case (1 n)
  show ?case
  proof (cases "n < 10")
    case True
    with 1 show ?thesis by (auto simp: digits.simps [of n] char_of_eq_iff take_bit_eq_mod)
  next
    case False
    with 1 digits_digits(2) [of "n div 10"] show ?thesis
      by (simp add: digits.simps [of n])
  qed
qed

lemma int_lit_digits: "int_lit (digits n) \<and> int_lit (CHR ''-'' # digits n)"
proof -
  obtain c r where d: "digits n = c # r" using digits_digits(2) [of n] by (cases "digits n") auto
  then have "is_digit c" using digits_digits(1) [of n] by simp
  then have "c \<noteq> CHR ''-''" by (auto simp: in_range_def)
  with d digits_digits [of n] digits_hd [of n] show ?thesis
    by (cases "n = 0") (auto simp: int_lit_def digits.simps [of 0])
qed

lemma int_lit_itoa [simp]: "int_lit (itoa i)"
  by (simp add: itoa_def int_lit_digits)

subsection \<open>Struct fields\<close>

text \<open>
  The decoder matches a member with the field of exactly that name, else with the first
  field whose name is equal under Unicode case folding. The field names here are ASCII; the
  only runes beyond ASCII that fold to an ASCII letter are U+017F (to S) and U+212A (to K).
\<close>

fun fold_key :: "string \<Rightarrow> string" where
  "fold_key [] = []"
| "fold_key (c # s) =
     (if prefix [CHR 0xC5, CHR 0xBF] (c # s) then CHR ''S'' # fold_key (drop 1 s)
      else if prefix [CHR 0xE2, CHR 0x84, CHR 0xAA] (c # s) then CHR ''K'' # fold_key (drop 2 s)
      else upper_byte c # fold_key s)"

definition resolve_field :: "string list \<Rightarrow> string \<Rightarrow> string option" where
  "resolve_field fields k =
     (if k \<in> set fields then Some k else find (\<lambda>f. fold_key f = fold_key k) fields)"

text \<open>
  Members are stored in order, so a later one wins; a member no field matches is skipped; a
  value of the wrong type makes the whole call fail.
\<close>

fun decode_fields ::
    "string list \<Rightarrow> (string \<Rightarrow> json \<Rightarrow> 'a \<Rightarrow> 'a option) \<Rightarrow> (string \<times> json) list \<Rightarrow> 'a \<Rightarrow> 'a option" where
  "decode_fields fields store [] r = Some r"
| "decode_fields fields store ((k, j) # ms) r =
     (case resolve_field fields k of
        None \<Rightarrow> decode_fields fields store ms r
      | Some f \<Rightarrow>
          (case store f j r of
             None \<Rightarrow> None
           | Some r' \<Rightarrow> decode_fields fields store ms r'))"

text \<open>A JSON value stored in a \<open>string\<close> field: \<open>null\<close> leaves the field alone.\<close>

definition store_string :: "(string \<Rightarrow> 'a \<Rightarrow> 'a) \<Rightarrow> json \<Rightarrow> 'a \<Rightarrow> 'a option" where
  "store_string upd j r =
     (case j of JStr s \<Rightarrow> Some (upd s r) | JNull \<Rightarrow> Some r | _ \<Rightarrow> None)"

text \<open>A struct: an object, or \<open>null\<close>, which leaves it as it is.\<close>

definition decode_struct ::
    "string list \<Rightarrow> (string \<Rightarrow> json \<Rightarrow> 'a \<Rightarrow> 'a option) \<Rightarrow> json \<Rightarrow> 'a \<Rightarrow> 'a option" where
  "decode_struct fields store j r =
     (case j of
        JObj ms \<Rightarrow> decode_fields fields store ms r
      | JNull \<Rightarrow> Some r
      | _ \<Rightarrow> None)"

lemma resolve_field_exact [simp]: "k \<in> set fields \<Longrightarrow> resolve_field fields k = Some k"
  by (simp add: resolve_field_def)

end
