(* ===== verification/Go_Runtime.thy ===== *)
theory Go_Runtime
  imports Go_Http Go_Json Go_Time
begin

text \<open>
  What a service takes from outside of its own code while it runs, as a record of operations
  on the state \<open>'e\<close> of the world: the clock, random UUIDs, OpenTelemetry instruments and the
  logrus entry that writes a line. The locales state the documented behaviour that some
  statements rest on; \<open>sim_runtime\<close> is an instance that keeps everything in a record.
\<close>

datatype attr_value = AStr string | AInt int | AMicros int | AErr goerr | AStrs "string list"

type_synonym attrs = "(string, attr_value) gomap"

datatype log_level = DebugLevel | InfoLevel | WarnLevel | ErrorLevel | FatalLevel

text \<open>\<open>rt_add\<close> is \<open>Add\<close> of a counter, \<open>rt_record\<close> \<open>Record\<close> of a histogram (here of nanoseconds).\<close>

record 'e runtime =
  rt_now :: "'e \<Rightarrow> gotime \<times> 'e"
  rt_uuid :: "'e \<Rightarrow> string \<times> 'e"
  rt_add :: "string \<Rightarrow> int \<Rightarrow> attrs \<Rightarrow> 'e \<Rightarrow> 'e"
  rt_record :: "string \<Rightarrow> duration \<Rightarrow> attrs \<Rightarrow> 'e \<Rightarrow> 'e"
  rt_emit :: "log_level \<Rightarrow> string \<Rightarrow> attrs \<Rightarrow> 'e \<Rightarrow> 'e"

subsection \<open>Laws of the instruments\<close>

text \<open>
  \<open>total e n a\<close> is the sum of what was added to the instrument \<open>n\<close> under the attributes \<open>a\<close>,
  \<open>points e n\<close> the recorded points, \<open>entries e\<close> the log entries, oldest first.
\<close>

locale runtime_laws =
  fixes rt :: "'e runtime"
    and total :: "'e \<Rightarrow> string \<Rightarrow> attrs \<Rightarrow> int"
    and points :: "'e \<Rightarrow> string \<Rightarrow> (duration \<times> attrs) list"
    and entries :: "'e \<Rightarrow> (log_level \<times> string \<times> attrs) list"
  assumes total_add: "total (rt_add rt n i a e) m b = total e m b + (if m = n \<and> b = a then i else 0)"
    and total_other: "total (snd (rt_now rt e)) = total e" "total (snd (rt_uuid rt e)) = total e"
      "total (rt_record rt n d a e) = total e" "total (rt_emit rt lv msg a e) = total e"
    and points_record: "points (rt_record rt n d a e) m = points e m @ (if m = n then [(d, a)] else [])"
    and points_other: "points (snd (rt_now rt e)) = points e" "points (snd (rt_uuid rt e)) = points e"
      "points (rt_add rt n i a e) = points e" "points (rt_emit rt lv msg a e) = points e"
    and entries_emit: "entries (rt_emit rt lv msg a e) = entries e @ [(lv, msg, a)]"
    and entries_other: "entries (snd (rt_now rt e)) = entries e" "entries (snd (rt_uuid rt e)) = entries e"
      "entries (rt_add rt n i a e) = entries e" "entries (rt_record rt n d a e) = entries e"
begin

lemmas runtime_simps = total_add total_other points_record points_other entries_emit entries_other

end

subsection \<open>A runtime in a record\<close>

record sim =
  sim_time :: gotime
  sim_ids :: nat
  sim_added :: "(string \<times> int \<times> attrs) list"
  sim_points :: "(string \<times> duration \<times> attrs) list"
  sim_log :: "(log_level \<times> string \<times> attrs) list"

definition new_sim :: sim where
  "new_sim = \<lparr>sim_time = 63871200000 * second, sim_ids = 0, sim_added = [], sim_points = [],
     sim_log = []\<rparr>"

definition sim_uuid :: "nat \<Rightarrow> string" where
  "sim_uuid n = ''00000000-0000-4000-8000-'' @ fixed_dec 12 n"

text \<open>The clock of the instance advances a millisecond with every reading.\<close>

definition sim_runtime :: "('m sim_scheme) runtime" where
  "sim_runtime =
     \<lparr>rt_now = (\<lambda>e. (sim_time e, e\<lparr>sim_time := sim_time e + millisecond\<rparr>)),
      rt_uuid = (\<lambda>e. (sim_uuid (sim_ids e), e\<lparr>sim_ids := Suc (sim_ids e)\<rparr>)),
      rt_add = (\<lambda>n i a e. e\<lparr>sim_added := sim_added e @ [(n, i, a)]\<rparr>),
      rt_record = (\<lambda>n d a e. e\<lparr>sim_points := sim_points e @ [(n, d, a)]\<rparr>),
      rt_emit = (\<lambda>lv msg a e. e\<lparr>sim_log := sim_log e @ [(lv, msg, a)]\<rparr>)\<rparr>"

definition sim_total :: "'m sim_scheme \<Rightarrow> string \<Rightarrow> attrs \<Rightarrow> int" where
  "sim_total e n a = (\<Sum>(m, i, b) \<leftarrow> sim_added e. if m = n \<and> b = a then i else 0)"

definition sim_points_of :: "'m sim_scheme \<Rightarrow> string \<Rightarrow> (duration \<times> attrs) list" where
  "sim_points_of e n = map snd (filter (\<lambda>p. fst p = n) (sim_points e))"

interpretation sim: runtime_laws sim_runtime sim_total sim_points_of sim_log
  by unfold_locales
    (auto simp: sim_runtime_def sim_total_def sim_points_of_def fun_eq_iff split: if_splits)

end
