(* ===== verification/Go_Base64.thy ===== *)
theory Go_Base64
  imports Go_Strings
begin

text \<open>
  \<open>base64.StdEncoding\<close>, the text \<open>encoding/json\<close> gives a \<open>[]byte\<close>, and its round trip.
\<close>

definition b64_char :: "nat \<Rightarrow> char" where
  "b64_char n =
     (if n < 26 then char_of (65 + n) else if n < 52 then char_of (71 + n)
      else if n < 62 then char_of (n - 4) else if n = 62 then CHR ''+'' else CHR ''/'')"

definition b64_value :: "char \<Rightarrow> nat option" where
  "b64_value c =
     (if is_upper c then Some (byte c - 65) else if is_lower c then Some (byte c - 71)
      else if is_digit c then Some (byte c + 4) else if c = CHR ''+'' then Some 62
      else if c = CHR ''/'' then Some 63 else None)"

fun b64_encode :: "string \<Rightarrow> string" where
  "b64_encode [] = []"
| "b64_encode [a] = [b64_char (byte a div 4), b64_char (byte a mod 4 * 16), CHR ''='', CHR ''='']"
| "b64_encode [a, b] =
     [b64_char (byte a div 4), b64_char (byte a mod 4 * 16 + byte b div 16),
      b64_char (byte b mod 16 * 4), CHR ''='']"
| "b64_encode (a # b # c # s) =
     b64_char (byte a div 4) # b64_char (byte a mod 4 * 16 + byte b div 16) #
     b64_char (byte b mod 16 * 4 + byte c div 64) # b64_char (byte c mod 64) # b64_encode s"

text \<open>Four characters at a time; padding ends the text; line breaks are skipped.\<close>

fun b64_quads :: "string \<Rightarrow> string option" where
  "b64_quads [] = Some []"
| "b64_quads (a # b # c # d # s) =
     (case (b64_value a, b64_value b) of
        (Some w, Some x) \<Rightarrow>
          if c = CHR ''='' \<and> d = CHR ''='' \<and> s = [] then Some [char_of (w * 4 + x div 16)]
          else
            (case b64_value c of
               None \<Rightarrow> None
             | Some y \<Rightarrow>
                 if d = CHR ''='' \<and> s = [] then
                   Some [char_of (w * 4 + x div 16), char_of (x mod 16 * 16 + y div 4)]
                 else
                   (case b64_value d of
                      None \<Rightarrow> None
                    | Some z \<Rightarrow>
                        map_option
                          (\<lambda>r. char_of (w * 4 + x div 16) # char_of (x mod 16 * 16 + y div 4) #
                               char_of (y mod 4 * 64 + z) # r)
                          (b64_quads s)))
      | _ \<Rightarrow> None)"
| "b64_quads s = None"

definition b64_decode :: "string \<Rightarrow> string option" where
  "b64_decode s = b64_quads (filter (\<lambda>c. c \<noteq> CHR 0x0A \<and> c \<noteq> CHR 0x0D) s)"

lemma b64_value_char [simp]: "n < 64 \<Longrightarrow> b64_value (b64_char n) = Some n"
  by (auto simp: b64_value_def b64_char_def in_range_def of_char_of)

lemma b64_char_props [simp]:
  assumes "n < 64"
  shows "b64_char n \<noteq> CHR ''=''" "b64_char n \<noteq> CHR 0x0A" "b64_char n \<noteq> CHR 0x0D"
    "is_ascii_byte (b64_char n)"
  using b64_value_char [OF assms]
  by (auto simp: b64_value_def in_range_def is_ascii_byte_def split: if_splits)

lemma byte_parts:
  "byte a div 4 < 64" "byte b div 16 < 16" "byte c div 64 < 4"
  "byte a mod 4 * 16 + byte b div 16 < 64" "byte b mod 16 * 4 + byte c div 64 < 64"
  "byte a mod 4 * 16 < 64" "byte b mod 16 * 4 < 64"
proof -
  have lt: "byte a < 256" "byte b < 256" "byte c < 256" by simp_all
  then show d: "byte a div 4 < 64" "byte b div 16 < 16" "byte c div 64 < 4" by linarith+
  have m: "byte a mod 4 < 4" "byte b mod 16 < 16" by simp_all
  show "byte a mod 4 * 16 + byte b div 16 < 64" "byte b mod 16 * 4 + byte c div 64 < 64"
    "byte a mod 4 * 16 < 64" "byte b mod 16 * 4 < 64"
    using d m by linarith+
qed

lemma byte_join [simp]:
  "char_of (byte a div 4 * 4 + (byte a mod 4 * 16 + q) div 16) = a" if "q < 16"
  using that by (simp add: div_add1_eq)

lemma b64_quads_encode: "b64_quads (b64_encode s) = Some s"
proof (induction s rule: b64_encode.induct)
  case (2 a)
  have "char_of (byte a div 4 * 4 + byte a mod 4 * 16 div 16) = a" by simp
  then show ?case by (simp add: byte_parts)
next
  case (3 a b)
  then show ?case by (simp add: byte_parts div_add1_eq)
next
  case (4 a b c s)
  then show ?case by (simp add: byte_parts div_add1_eq)
qed simp

lemma b64_encode_clean:
  "filter (\<lambda>c. c \<noteq> CHR 0x0A \<and> c \<noteq> CHR 0x0D) (b64_encode s) = b64_encode s"
  by (induction s rule: b64_encode.induct) (simp_all add: byte_parts)

lemma b64_decode_encode [simp]: "b64_decode (b64_encode s) = Some s"
  by (simp add: b64_decode_def b64_encode_clean b64_quads_encode)

lemma is_ascii_b64: "is_ascii (b64_encode s)"
  by (induction s rule: b64_encode.induct)
    (simp_all add: is_ascii_def byte_parts, simp_all add: is_ascii_byte_def)

lemma b64_value_char_some: "n < 64 \<Longrightarrow> b64_value (b64_char n) \<noteq> None"
  by simp

lemma set_b64: "set (b64_encode s) \<subseteq> {c. b64_value c \<noteq> None} \<union> {CHR ''=''}"
  by (induction s rule: b64_encode.induct) (simp_all add: byte_parts)

end
