(* ===== verification/Redis_Store.thy ===== *)
theory Redis_Store
  imports Idempotency_Store Go_Runtime Go_Base64
begin

text \<open>
  \<open>services/api/internal/adapters/outbound/idempotency/redis_store.go\<close>: the store of
  idempotency records on Redis. Redis and its client library are parameters: \<open>redis_client\<close>
  is what the Go code calls, \<open>redis_commands\<close> what the two Lua scripts call on the server;
  \<open>redis_laws\<close> states their documented behaviour against the contents of the database.
  The record envelope is written and read as JSON text, since the release script searches
  that text.
\<close>

subsection \<open>Redis, as the store uses it\<close>

text \<open>\<open>r_get\<close> gives \<open>None\<close> for \<open>redis.Nil\<close>; \<open>r_eval\<close> runs a script as one step of the server.\<close>

record 's redis_client =
  r_setnx :: "string \<Rightarrow> string \<Rightarrow> duration \<Rightarrow> 's \<Rightarrow> (goerr + bool) \<times> 's"
  r_get :: "string \<Rightarrow> 's \<Rightarrow> (goerr + string option) \<times> 's"
  r_eval :: "('s \<Rightarrow> (goerr + int) \<times> 's) \<Rightarrow> 's \<Rightarrow> (goerr + int) \<times> 's"

text \<open>\<open>c_set_px\<close> fails for a time to live that Redis does not accept.\<close>

record 's redis_commands =
  c_exists :: "string \<Rightarrow> 's \<Rightarrow> bool"
  c_get :: "string \<Rightarrow> 's \<Rightarrow> string option"
  c_set_px :: "string \<Rightarrow> string \<Rightarrow> string \<Rightarrow> 's \<Rightarrow> goerr + 's"
  c_del :: "string \<Rightarrow> 's \<Rightarrow> 's"

subsection \<open>The record envelope\<close>

record record_envelope =
  env_state :: idempotency_state
  env_hash :: string
  env_status :: int
  env_headers :: "(string, string) gomap"
  env_body :: string
  env_created :: gotime
  env_expires :: gotime

definition zero_envelope :: record_envelope where
  "zero_envelope = \<lparr>env_state = '''', env_hash = '''', env_status = 0, env_headers = [],
     env_body = '''', env_created = 31622400 * second, env_expires = 31622400 * second\<rparr>"

definition opt_member :: "bool \<Rightarrow> string \<Rightarrow> json \<Rightarrow> (string \<times> json) list" where
  "opt_member p k j = (if p then [(k, j)] else [])"

definition string_map_json :: "(string, string) gomap \<Rightarrow> json" where
  "string_map_json m = JObj (map (\<lambda>(k, v). (k, JStr v)) (sort_keys m))"

definition envelope_json :: "record_envelope \<Rightarrow> string \<Rightarrow> string \<Rightarrow> json" where
  "envelope_json env created expires =
     JObj ([(''state'', JStr (env_state env)), (''request_hash'', JStr (env_hash env))] @
           opt_member (env_status env \<noteq> 0) ''status_code'' (JNum (itoa (env_status env))) @
           opt_member (env_headers env \<noteq> []) ''headers'' (string_map_json (env_headers env)) @
           opt_member (env_body env \<noteq> '''') ''body'' (JStr (b64_encode (env_body env))) @
           [(''created_at'', JStr created), (''expires_at'', JStr expires)])"

definition marshal_envelope :: "record_envelope \<Rightarrow> goerr + string" where
  "marshal_envelope env =
     (case (format_rfc3339 (env_created env), format_rfc3339 (env_expires env)) of
        (Some c, Some x) \<Rightarrow> Inr (print_json (envelope_json env c x))
      | _ \<Rightarrow> Inl (Opaque ''json: error calling MarshalJSON for type time.Time: Time.MarshalJSON: year outside of range [0,9999]''))"

text \<open>Reading it back, field by field.\<close>

definition store_int :: "(int \<Rightarrow> 'a \<Rightarrow> 'a) \<Rightarrow> json \<Rightarrow> 'a \<Rightarrow> 'a option" where
  "store_int upd j r =
     (case j of
        JNum n \<Rightarrow> (case read_int n of Some i \<Rightarrow> Some (upd i r) | None \<Rightarrow> None)
      | JNull \<Rightarrow> Some r
      | _ \<Rightarrow> None)"

fun store_map_members ::
    "(string \<times> json) list \<Rightarrow> (string, string) gomap \<Rightarrow> (string, string) gomap option" where
  "store_map_members [] m = Some m"
| "store_map_members ((k, j) # ms) m =
     (case j of
        JStr v \<Rightarrow> store_map_members ms (put k v m)
      | JNull \<Rightarrow> store_map_members ms (put k '''' m)
      | _ \<Rightarrow> None)"

definition store_map ::
    "((string, string) gomap \<Rightarrow> 'a \<Rightarrow> 'a) \<Rightarrow> (string, string) gomap \<Rightarrow> json \<Rightarrow> 'a \<Rightarrow> 'a option" where
  "store_map upd old j r =
     (case j of
        JObj ms \<Rightarrow> (case store_map_members ms old of Some m \<Rightarrow> Some (upd m r) | None \<Rightarrow> None)
      | JNull \<Rightarrow> Some (upd [] r)
      | _ \<Rightarrow> None)"

fun byte_elems :: "json list \<Rightarrow> string option" where
  "byte_elems [] = Some []"
| "byte_elems (JNum n # js) =
     (case (read_nat n, byte_elems js) of
        (Some i, Some bs) \<Rightarrow> if i < 256 then Some (char_of i # bs) else None
      | _ \<Rightarrow> None)"
| "byte_elems (JNull # js) = map_option (\<lambda>bs. CHR 0x00 # bs) (byte_elems js)"
| "byte_elems js = None"

definition store_bytes :: "(string \<Rightarrow> 'a \<Rightarrow> 'a) \<Rightarrow> json \<Rightarrow> 'a \<Rightarrow> 'a option" where
  "store_bytes upd j r =
     (case j of
        JStr s \<Rightarrow> (case b64_decode s of Some b \<Rightarrow> Some (upd b r) | None \<Rightarrow> None)
      | JArr js \<Rightarrow> (case byte_elems js of Some b \<Rightarrow> Some (upd b r) | None \<Rightarrow> None)
      | JNull \<Rightarrow> Some (upd [] r)
      | _ \<Rightarrow> None)"

definition store_time :: "(gotime \<Rightarrow> 'a \<Rightarrow> 'a) \<Rightarrow> json \<Rightarrow> 'a \<Rightarrow> 'a option" where
  "store_time upd j r =
     (case j of
        JStr s \<Rightarrow> (case parse_rfc3339 s of Some t \<Rightarrow> Some (upd t r) | None \<Rightarrow> None)
      | JNull \<Rightarrow> Some r
      | _ \<Rightarrow> None)"

definition envelope_fields :: "string list" where
  "envelope_fields =
     [''state'', ''request_hash'', ''status_code'', ''headers'', ''body'', ''created_at'', ''expires_at'']"

definition store_envelope_field :: "string \<Rightarrow> json \<Rightarrow> record_envelope \<Rightarrow> record_envelope option" where
  "store_envelope_field f j env =
     (if f = ''state'' then store_string (\<lambda>s e. e\<lparr>env_state := s\<rparr>) j env
      else if f = ''request_hash'' then store_string (\<lambda>s e. e\<lparr>env_hash := s\<rparr>) j env
      else if f = ''status_code'' then store_int (\<lambda>i e. e\<lparr>env_status := i\<rparr>) j env
      else if f = ''headers'' then store_map (\<lambda>m e. e\<lparr>env_headers := m\<rparr>) (env_headers env) j env
      else if f = ''body'' then store_bytes (\<lambda>b e. e\<lparr>env_body := b\<rparr>) j env
      else if f = ''created_at'' then store_time (\<lambda>t e. e\<lparr>env_created := t\<rparr>) j env
      else store_time (\<lambda>t e. e\<lparr>env_expires := t\<rparr>) j env)"

definition unmarshal_envelope :: "string \<Rightarrow> goerr + record_envelope" where
  "unmarshal_envelope raw =
     (case parse_json raw of
        None \<Rightarrow> Inl (Opaque ''invalid JSON'')
      | Some j \<Rightarrow>
          (case decode_struct envelope_fields store_envelope_field j zero_envelope of
             None \<Rightarrow> Inl (Opaque ''json: cannot unmarshal into recordEnvelope'')
           | Some env \<Rightarrow> Inr env))"

subsection \<open>The scripts\<close>

definition keyPrefix :: string where
  "keyPrefix = ''idempotency:''"

text \<open>\<open>completeScript\<close>: replace the value if the key exists, with a fresh time to live.\<close>

definition complete_script ::
    "'s redis_commands \<Rightarrow> string \<Rightarrow> string \<Rightarrow> string \<Rightarrow> 's \<Rightarrow> (goerr + int) \<times> 's" where
  "complete_script cmd key payload px s =
     (if \<not> c_exists cmd key s then (Inr 0, s)
      else case c_set_px cmd key payload px s of
             Inl err \<Rightarrow> (Inl err, s)
           | Inr s' \<Rightarrow> (Inr 1, s'))"

definition in_flight_marker :: string where
  "in_flight_marker = CHR 0x22 # ''IN_FLIGHT'' @ [CHR 0x22]"

text \<open>\<open>releaseScript\<close>: delete the key if its text contains the marker.\<close>

definition release_script ::
    "'s redis_commands \<Rightarrow> string \<Rightarrow> 's \<Rightarrow> (goerr + int) \<times> 's" where
  "release_script cmd key s =
     (case c_get cmd key s of
        None \<Rightarrow> (Inr 0, s)
      | Some raw \<Rightarrow>
          if contains in_flight_marker raw then (Inr 1, c_del cmd key s) else (Inr 0, s))"

subsection \<open>The operations\<close>

definition record_of_envelope :: "string \<Rightarrow> record_envelope \<Rightarrow> idempotency_record" where
  "record_of_envelope key env =
     \<lparr>ir_key = key, ir_state = env_state env, ir_hash = env_hash env, ir_status = env_status env,
      ir_headers = env_headers env, ir_body = env_body env, ir_created = env_created env,
      ir_expires = env_expires env\<rparr>"

definition redis_get :: "'s redis_client \<Rightarrow> string \<Rightarrow> 's \<Rightarrow> (goerr + idempotency_record) \<times> 's" where
  "redis_get rc key s =
     (case r_get rc (keyPrefix @ key) s of
        (Inl err, s') \<Rightarrow> (Inl (Wrapped ''redis GET: '' err ''''), s')
      | (Inr None, s') \<Rightarrow> (Inl (Sentinel ErrIdempotencyNotFound), s')
      | (Inr (Some raw), s') \<Rightarrow>
          (case unmarshal_envelope raw of
             Inl err \<Rightarrow> (Inl (Wrapped ''unmarshal idempotency record: '' err ''''), s')
           | Inr env \<Rightarrow> (Inr (record_of_envelope key env), s')))"

definition reservation_envelope :: "string \<Rightarrow> gotime \<Rightarrow> duration \<Rightarrow> record_envelope" where
  "reservation_envelope requestHash now ttl =
     \<lparr>env_state = IdempotencyStateInFlight, env_hash = requestHash, env_status = 0,
      env_headers = [], env_body = '''', env_created = now, env_expires = now + ttl\<rparr>"

definition redis_reserve ::
    "'s redis_client \<Rightarrow> gotime \<Rightarrow> string \<Rightarrow> string \<Rightarrow> duration \<Rightarrow> 's \<Rightarrow>
     (goerr + idempotency_record option \<times> bool) \<times> 's" where
  "redis_reserve rc now key requestHash ttl s =
     (let env = reservation_envelope requestHash now ttl in
      case marshal_envelope env of
        Inl err \<Rightarrow> (Inl (Wrapped ''marshal idempotency reservation: '' err ''''), s)
      | Inr payload \<Rightarrow>
          (case r_setnx rc (keyPrefix @ key) payload ttl s of
             (Inl err, s') \<Rightarrow> (Inl (Wrapped ''redis SETNX: '' err ''''), s')
           | (Inr True, s') \<Rightarrow> (Inr (Some (record_of_envelope key env), True), s')
           | (Inr False, s') \<Rightarrow>
               (case redis_get rc key s' of
                  (Inl err, s'') \<Rightarrow> (Inl err, s'')
                | (Inr existing, s'') \<Rightarrow> (Inr (Some existing, False), s''))))"

definition completion_envelope ::
    "idempotency_record \<Rightarrow> int \<Rightarrow> (string, string) gomap \<Rightarrow> string \<Rightarrow> gotime \<Rightarrow> duration \<Rightarrow> record_envelope" where
  "completion_envelope existing statusCode headers body now ttl =
     \<lparr>env_state = IdempotencyStateCompleted, env_hash = ir_hash existing,
      env_status = statusCode, env_headers = headers, env_body = body,
      env_created = ir_created existing, env_expires = now + ttl\<rparr>"

definition redis_complete ::
    "'s redis_client \<Rightarrow> 's redis_commands \<Rightarrow> gotime \<Rightarrow> string \<Rightarrow> int \<Rightarrow> (string, string) gomap \<Rightarrow>
     string \<Rightarrow> duration \<Rightarrow> 's \<Rightarrow> (goerr + unit) \<times> 's" where
  "redis_complete rc cmd now key statusCode headers body ttl s =
     (case redis_get rc key s of
        (Inl err, s') \<Rightarrow>
          if errors_is err ErrIdempotencyNotFound then (Inr (), s') else (Inl err, s')
      | (Inr existing, s') \<Rightarrow>
          (case marshal_envelope (completion_envelope existing statusCode headers body now ttl) of
             Inl err \<Rightarrow> (Inl (Wrapped ''marshal idempotency completion: '' err ''''), s')
           | Inr payload \<Rightarrow>
               (case r_eval rc (complete_script cmd (keyPrefix @ key) payload (itoa (milliseconds ttl))) s' of
                  (Inl err, s'') \<Rightarrow> (Inl (Wrapped ''redis complete script: '' err ''''), s'')
                | (Inr n, s'') \<Rightarrow> (Inr (), s''))))"

definition redis_release ::
    "'s redis_client \<Rightarrow> 's redis_commands \<Rightarrow> string \<Rightarrow> 's \<Rightarrow> (goerr + unit) \<times> 's" where
  "redis_release rc cmd key s =
     (case r_eval rc (release_script cmd (keyPrefix @ key)) s of
        (Inl err, s') \<Rightarrow> (Inl (Wrapped ''redis release script: '' err ''''), s')
      | (Inr n, s') \<Rightarrow> (Inr (), s'))"

text \<open>\<open>NewRedisStore\<close>: the port's operations; \<open>clk\<close> is \<open>time.Now().UTC()\<close>.\<close>

definition redis_store ::
    "'s redis_client \<Rightarrow> 's redis_commands \<Rightarrow> ('s \<Rightarrow> gotime) \<Rightarrow> 's idem_store" where
  "redis_store rc cmd clk =
     \<lparr>st_reserve = (\<lambda>k h ttl s. redis_reserve rc (clk s) k h ttl s),
      st_complete = (\<lambda>k status hs body ttl s. redis_complete rc cmd (clk s) k status hs body ttl s),
      st_release = (\<lambda>k s. redis_release rc cmd k s)\<rparr>"

lemmas redis_store_defs = redis_store_def redis_reserve_def redis_complete_def redis_release_def
  redis_get_def

subsection \<open>The round trip of an envelope\<close>

definition utf8_map :: "(string, string) gomap \<Rightarrow> bool" where
  "utf8_map m \<longleftrightarrow> distinct (map fst m) \<and> (\<forall>(k, v)\<in>set m. valid_utf8 k \<and> valid_utf8 v)"

definition wf_envelope :: "record_envelope \<Rightarrow> bool" where
  "wf_envelope env \<longleftrightarrow> is_ascii (env_state env) \<and> is_hex (env_hash env) \<and>
     go_int (env_status env) \<and> utf8_map (env_headers env)"

text \<open>Reading back gives the same envelope, its header map in key order.\<close>

definition sorted_envelope :: "record_envelope \<Rightarrow> record_envelope" where
  "sorted_envelope env = env\<lparr>env_headers := sort_keys (env_headers env)\<rparr>"

lemma put_fresh: "k \<notin> fst ` set m \<Longrightarrow> put k v m = m @ [(k, v)]"
  by (induction m) auto

lemma store_map_members_strings:
  "distinct (map fst (m @ xs)) \<Longrightarrow>
     store_map_members (map (\<lambda>(k, v). (k, JStr v)) xs) m = Some (m @ xs)"
proof (induction xs arbitrary: m)
  case (Cons x xs)
  obtain k v where x: "x = (k, v)" by (cases x)
  with Cons.prems have "k \<notin> fst ` set m" by auto
  with Cons.IH [of "m @ [(k, v)]"] Cons.prems x show ?case by (simp add: put_fresh)
qed simp

lemma set_sort_keys [simp]: "set (sort_keys m) = set m"
  by (simp add: sort_keys_def)

lemma sort_keys_empty [simp]: "sort_keys m = [] \<longleftrightarrow> m = []"
  by (metis set_empty set_sort_keys)

lemma empty_sorted [simp]: "sort_keys [] = []"
  by (simp add: sort_keys_def)

lemma distinct_sort_keys: "distinct (map fst m) \<Longrightarrow> distinct (map fst (sort_keys m))"
  by (simp add: distinct_map sort_keys_def)

lemma map_of_sort_keys: "distinct (map fst m) \<Longrightarrow> map_of (sort_keys m) = map_of m"
proof (rule ext)
  fix k
  assume d: "distinct (map fst m)"
  note s = distinct_sort_keys [OF d]
  show "map_of (sort_keys m) k = map_of m k"
  proof (cases "map_of m k")
    case None
    then have "map_of (sort_keys m) k = None" by (simp add: map_of_eq_None_iff)
    with None show ?thesis by simp
  next
    case (Some v)
    with d s show ?thesis by (simp add: map_of_eq_Some_iff)
  qed
qed

lemma is_ascii_append [simp]: "is_ascii (a @ b) \<longleftrightarrow> is_ascii a \<and> is_ascii b"
  by (simp add: is_ascii_def)

lemma is_ascii_digits: "list_all is_digit s \<Longrightarrow> is_ascii s"
  by (auto simp: is_ascii_def list_all_iff in_range_def is_ascii_byte_def)

lemma is_ascii_literals [simp]:
  "is_ascii []" "is_ascii (c # s) \<longleftrightarrow> is_ascii_byte c \<and> is_ascii s"
  by (simp_all add: is_ascii_def)

lemma is_ascii_char [simp]: "byte c < 0x80 \<Longrightarrow> is_ascii_byte c"
  by (simp add: is_ascii_byte_def)

lemma is_ascii_nano: "is_ascii (nano_text ns)"
proof -
  have "list_all is_digit (rev (dropWhile (\<lambda>c. c = CHR ''0'') (rev (fixed_dec 9 ns))))"
    using all_digits_fixed_dec [of 9 ns]
    by (auto simp: list_all_iff dest: set_dropWhileD)
  then show ?thesis by (simp add: nano_text_def is_ascii_digits)
qed

lemma is_ascii_format: "format_rfc3339 t = Some s \<Longrightarrow> is_ascii s"
  by (auto simp: format_rfc3339_def Let_def pad2_def is_ascii_digits is_ascii_nano
      split: prod.splits if_splits)

lemma is_ascii_hex: "is_hex h \<Longrightarrow> is_ascii h"
  by (auto simp: is_hex_def is_ascii_def list_all_iff in_range_def is_ascii_byte_def)

lemma wf_envelope_json:
  assumes "wf_envelope env" "is_ascii c" "is_ascii x"
  shows "wf_json (envelope_json env c x)"
  using assms
  by (auto simp: envelope_json_def opt_member_def string_map_json_def wf_envelope_def utf8_map_def
      valid_utf8_ascii is_ascii_b64 is_ascii_hex split: prod.splits)

lemma depth_envelope_json: "json_depth (envelope_json env c x) \<le> maxNestingDepth"
proof -
  have "json_depth (string_map_json hs) \<le> 1" for hs
    unfolding string_map_json_def by (rule depth_flat) auto
  then have "json_depth (envelope_json env c x) \<le> 1 + 1"
    unfolding envelope_json_def by (intro depth_JObj) (auto simp: opt_member_def split: if_splits)
  then show ?thesis by (simp add: maxNestingDepth_def)
qed

lemma unmarshal_marshal:
  assumes "wf_envelope env" "marshal_envelope env = Inr raw"
  shows "unmarshal_envelope raw = Inr (sorted_envelope env)"
proof -
  from assms(2) obtain c x where t: "format_rfc3339 (env_created env) = Some c"
    "format_rfc3339 (env_expires env) = Some x" and raw: "raw = print_json (envelope_json env c x)"
    by (auto simp: marshal_envelope_def split: option.splits)
  from assms(1) t have "wf_json (envelope_json env c x)"
    by (simp add: wf_envelope_json is_ascii_format)
  then have parse: "parse_json raw = Some (envelope_json env c x)"
    unfolding raw by (rule parse_print_json [OF _ depth_envelope_json])
  have "distinct (map fst (sort_keys (env_headers env)))" "go_int (env_status env)"
    using assms(1) by (auto simp: wf_envelope_def utf8_map_def intro: distinct_sort_keys)
  note facts = this parse_format_rfc3339 [OF t(1)] parse_format_rfc3339 [OF t(2)]
    store_map_members_strings [of "[]" "sort_keys (env_headers env)"]
  show ?thesis
    unfolding unmarshal_envelope_def parse
    using facts
    by (cases env)
      (simp add: envelope_json_def opt_member_def decode_struct_def envelope_fields_def
        store_envelope_field_def store_string_def store_int_def store_map_def store_bytes_def
        store_time_def string_map_json_def read_itoa empty_sorted zero_envelope_def sorted_envelope_def)
qed

end
