(* ===== verification/Redis_Marker.thy ===== *)
theory Redis_Marker
  imports Redis_Store
begin

text \<open>
  The release script decides by searching the record's JSON text for \<open>"IN_FLIGHT"\<close>. Here is
  what that search finds: an occurrence lies in one string of the value, and a string contains
  one exactly when it is \<open>IN_FLIGHT\<close> or ends in a quote and \<open>IN_FLIGHT\<close>.
\<close>

subsection \<open>What the release script finds\<close>

text \<open>A character that is not in the text searched for separates an occurrence from another.\<close>

lemma contains_sep:
  assumes "c \<notin> set m" "m \<noteq> []"
  shows "contains m (a @ c # b) \<longleftrightarrow> contains m a \<or> contains m b"
proof (induction a)
  case Nil
  from assms obtain x m' where "m = x # m'" "x \<noteq> c" by (cases m) auto
  then show ?case by simp
next
  case (Cons x a)
  have "prefix m (x # a @ c # b) \<longleftrightarrow> prefix m (x # a)"
  proof
    assume "prefix m (x # a @ c # b)"
    then obtain z where z: "(x # a) @ c # b = m @ z" by (auto simp: prefix_def)
    then show "prefix m (x # a)"
      using assms(1) by (auto simp: append_eq_append_conv2 prefix_def Cons_eq_append_conv)
  next
    assume "prefix m (x # a)"
    then obtain z where "x # a = m @ z" by (auto simp: prefix_def)
    then have "x # a @ c # b = m @ z @ c # b" by simp
    then show "prefix m (x # a @ c # b)" by (rule prefixI)
  qed
  with Cons assms show ?case by simp
qed

lemma contains_sep_simps:
  assumes "c \<notin> set m" "m \<noteq> []"
  shows "contains m (c # b) \<longleftrightarrow> contains m b" "contains m (a @ [c]) \<longleftrightarrow> contains m a"
  using contains_sep [OF assms, of "[]" b] contains_sep [OF assms, of a "[]"] assms by simp_all

lemma contains_comma_sep:
  assumes "CHR '','' \<notin> set m" "m \<noteq> []"
  shows "contains m (comma_sep ps) \<longleftrightarrow> (\<exists>p\<in>set ps. contains m p)"
proof (induction ps)
  case (Cons p ps)
  then show ?case using assms by (cases "ps = []") (simp_all add: comma_sep_Cons contains_sep)
qed (use assms in \<open>simp add: comma_sep_def\<close>)

text \<open>Where the pieces of an escaped text come from.\<close>

lemma multi_len_cont: "multi_len (a # r) = Suc n \<Longrightarrow> list_all cont (take n r)"
proof -
  assume m: "multi_len (a # r) = Suc n"
  consider "r = []" | b where "r = [b]" | b c where "r = [b, c]" | b c d u where "r = b # c # d # u"
    by (metis list.exhaust)
  then show ?thesis
    using m by cases (auto simp only: multi_len.simps list.case take_Suc_Cons list.pred_inject simp_thms nat.distinct nat.inject zero_neq_one numeral_eq_Suc pred_numeral_simps BitM.simps numeral_One take_0 One_nat_def
        split: if_split_asm)
qed

lemma multi_len_first: "multi_len (a # r) = Suc n \<Longrightarrow> 0xC2 \<le> byte a"
  by (cases r) (auto simp only: multi_len.simps nat.distinct split: if_split_asm)

lemma multi_bytes: "list_all (\<lambda>c. 0x80 \<le> byte c) (take (multi_len s) s)"
proof (cases "multi_len s")
  case (Suc n)
  then obtain a r where s: "s = a # r" by (cases s) auto
  with Suc multi_len_cont [of a r n] multi_len_first [of a r n] show ?thesis
    by (auto simp del: multi_len.simps simp: list_all_iff cont_def)
qed simp

lemma multi_len_ascii_tail:
  assumes "byte c < 0x80"
  shows "multi_len (a # s @ c # t) = multi_len (a # s)"
proof -
  have nc: "cont c = False" using assms by (simp add: cont_def)
  consider "s = []" | x where "s = [x]" | x y where "s = [x, y]" | x y z u where "s = x # y # z # u"
    by (metis list.exhaust)
  then show ?thesis
  proof cases
    case 1
    then show ?thesis
      by (cases t) (simp_all only: append.simps multi_len.simps list.case nc simp_thms if_False if_cancel
          split: list.split)
  next
    case 2
    then show ?thesis
      by (cases t) (simp_all only: append.simps multi_len.simps list.case nc simp_thms if_False if_cancel
          split: list.split)
  next
    case 3
    then show ?thesis
      by (simp only: append.simps multi_len.simps list.case nc simp_thms if_False if_cancel)
  next
    case 4
    then show ?thesis by (simp only: append.simps multi_len.simps list.case)
  qed
qed

lemma escape_append_ascii:
  "byte c < 0x80 \<Longrightarrow> escape (s @ c # t) = escape s @ escape (c # t)"
proof (induction s rule: escape.induct)
  case (2 x s)
  note m = multi_len_ascii_tail [OF 2(4), of x s t]
  have td: "take (multi_len (x # s)) (x # s @ c # t) = take (multi_len (x # s)) (x # s)"
    "drop (multi_len (x # s)) (x # s @ c # t) = drop (multi_len (x # s)) (x # s) @ c # t"
    using multi_len_le [of "x # s"] by (metis append_Cons take_append diff_is_0_eq take_0 append_Nil2,
      metis append_Cons drop_append diff_is_0_eq drop_0)
  consider "byte x < 0x80" | "0x80 \<le> byte x" "multi_len (x # s) = 0"
    | "0x80 \<le> byte x" "multi_len (x # s) \<noteq> 0" by linarith
  then show ?case
    by cases (use 2 m td in \<open>simp_all add: escape.simps(2) [of x] del: multi_len.simps\<close>)
qed simp

text \<open>The last character of an escaped text that is a capital, \<open>_\<close> or a quote is the text's own.\<close>

definition own_last :: "char \<Rightarrow> bool" where
  "own_last c \<longleftrightarrow> is_upper c \<or> c = CHR ''_'' \<or> c = CHR 0x22"

lemma hex_digit_not_own: "n < 16 \<Longrightarrow> \<not> own_last (hex_digit n)"
  by (auto simp: own_last_def hex_digit_def in_range_def of_char_of char_of_eq_iff take_bit_eq_mod)

lemma escape_ascii_last:
  "escape_ascii c = u @ [d] \<Longrightarrow> own_last d \<Longrightarrow> byte c < 0x80 \<Longrightarrow> d = c"
  using hex_digit_not_own [of "byte c mod 16"]
  by (auto simp: escape_ascii_def u_escape_def own_last_def in_range_def Cons_eq_append_conv append_eq_Cons_conv split: if_splits)

lemma escape_ascii_nonempty [simp]: "escape_ascii c \<noteq> []"
  by (simp add: escape_ascii_def u_escape_def)

lemma escape_multi_last:
  assumes "0 < multi_len s" "byte (hd s) \<ge> 0x80"
  shows "escape_multi (take (multi_len s) s) \<noteq> []"
    "escape_multi (take (multi_len s) s) = u @ [d] \<Longrightarrow> \<not> own_last d"
proof -
  from assms have ne: "take (multi_len s) s \<noteq> []" by (cases s) auto
  then show "escape_multi (take (multi_len s) s) \<noteq> []" by (simp add: escape_multi_def)
  have "0x80 \<le> byte (last (take (multi_len s) s))"
    using multi_bytes [of s] ne by (auto simp: list_all_iff)
  then have "\<not> own_last (last (take (multi_len s) s))"
    by (auto simp: own_last_def in_range_def)
  then show "escape_multi (take (multi_len s) s) = u @ [d] \<Longrightarrow> \<not> own_last d"
    by (auto simp: escape_multi_def own_last_def in_range_def Cons_eq_append_conv append_eq_Cons_conv split: if_splits)
qed

lemma escape_empty [simp]: "escape s = [] \<longleftrightarrow> s = []"
proof (cases s)
  case (Cons c r)
  then show ?thesis
    using escape_multi_last(1) [of s] by (auto simp: escape.simps(2))
qed simp

lemma append_last_cases:
  "a @ b = u @ [d] \<Longrightarrow> (b = [] \<and> a = u @ [d]) \<or> (\<exists>v. b = v @ [d])"
  by (cases b rule: rev_cases) auto

lemma escape_last:
  "escape s = u @ [d] \<Longrightarrow> own_last d \<Longrightarrow> \<exists>s'. s = s' @ [d]"
proof (induction s arbitrary: u rule: escape.induct)
  case (2 c s)
  let ?m = "multi_len (c # s)"
  consider (ascii) "byte c < 0x80" | (bad) "0x80 \<le> byte c" "?m = 0"
    | (multi) "0x80 \<le> byte c" "0 < ?m" by linarith
  then show ?case
  proof cases
    case ascii
    with 2 show ?thesis
      using append_last_cases [of "escape_ascii c" "escape s" u d] escape_ascii_last [of c _ d]
      by (auto simp: escape.simps(2))
  next
    case bad
    then have "(CHR 0x5C # ''ufffd'') @ escape s = u @ [d]"
      using "2.prems" by (simp add: escape.simps(2))
    from append_last_cases [OF this] show ?thesis
    proof
      assume "escape s = [] \<and> CHR 0x5C # ''ufffd'' = u @ [d]"
      then have "d = CHR ''d''" by (auto simp: Cons_eq_append_conv append_eq_Cons_conv)
      with "2.prems" show ?thesis by (simp add: own_last_def in_range_def)
    next
      assume "\<exists>v. escape s = v @ [d]"
      then obtain v where "escape s = v @ [d]" ..
      from "2.IH"(2) [OF _ _ this] bad "2.prems"(2) show ?thesis by auto
    qed
  next
    case multi
    then have "escape_multi (take ?m (c # s)) @ escape (drop ?m (c # s)) = u @ [d]"
      using "2.prems" by (simp add: escape.simps(2))
    from append_last_cases [OF this] show ?thesis
    proof
      assume "escape (drop ?m (c # s)) = [] \<and> escape_multi (take ?m (c # s)) = u @ [d]"
      with escape_multi_last(2) [of "c # s" u d] multi "2.prems" show ?thesis by auto
    next
      assume "\<exists>v. escape (drop ?m (c # s)) = v @ [d]"
      then obtain v where "escape (drop ?m (c # s)) = v @ [d]" ..
      then have "\<exists>s'. drop ?m (c # s) = s' @ [d]"
        using "2.IH"(3) [of v] multi "2.prems"(2) by simp
      then show ?thesis by (metis append_assoc append_take_drop_id)
    qed
  qed
qed simp

text \<open>A plain tail of an escaped text is a tail of the text.\<close>

definition plain :: "char \<Rightarrow> bool" where
  "plain c \<longleftrightarrow> is_upper c \<or> c = CHR ''_''"

lemma plainD:
  assumes "plain c"
  shows "own_last c \<and> byte c < 0x80 \<and> escape_ascii c = [c]"
proof -
  from assms have b: "65 \<le> byte c \<and> byte c \<le> 90 \<or> c = CHR ''_''"
    by (auto simp: plain_def in_range_def)
  then have "c \<notin> {CHR 0x5C, CHR 0x22, CHR 0x08, CHR 0x0C, CHR 0x0A, CHR 0x0D, CHR 0x09,
      CHR ''<'', CHR ''>'', CHR ''&''}" and "0x20 \<le> byte c" "byte c < 0x80"
    by auto
  with assms show ?thesis by (simp add: escape_ascii_def plain_def own_last_def)
qed

lemma escape_plain: "list_all plain w \<Longrightarrow> escape (s @ w) = escape s @ w"
proof (induction w arbitrary: s)
  case (Cons c w)
  then have c: "plain c" "list_all plain w" by simp_all
  have "escape (s @ c # w) = escape s @ escape (c # w)"
    using c(1) by (simp add: escape_append_ascii plainD)
  also have "escape (c # w) = escape [c] @ w"
    using Cons.IH [OF c(2), of "[c]"] by simp
  also have "escape [c] = [c]" using c(1) by (simp add: escape.simps(2) plainD)
  finally show ?case by simp
qed simp

lemma escape_plain_tail:
  "list_all plain w \<Longrightarrow> escape s = u @ w \<Longrightarrow> \<exists>s'. s = s' @ w \<and> escape s' = u"
proof (induction w arbitrary: s rule: rev_induct)
  case (snoc c w)
  then have c: "plain c" "list_all plain w" by simp_all
  with escape_last [of s "u @ w" c] snoc.prems plainD obtain s1 where s1: "s = s1 @ [c]" by auto
  with escape_plain [of "[c]" s1] c snoc.prems have "escape s1 = u @ w" by simp
  from snoc.IH [OF c(2) this] s1 show ?case by auto
qed simp

text \<open>Every quote in an escaped text stands behind a backslash.\<close>

lemma contains_skip:
  "c \<notin> set m \<Longrightarrow> contains [x, c] (y # m @ r) \<Longrightarrow> \<exists>y'. contains [x, c] (y' # r)"
proof (induction m arbitrary: y)
  case (Cons z m)
  then have "contains [x, c] (z # m @ r)" by auto
  with Cons show ?case by auto
qed auto

lemma escape_ascii_quote:
  "c \<noteq> CHR 0x22 \<Longrightarrow> CHR 0x22 \<notin> set (escape_ascii c)"
proof -
  have "hex_digit n \<noteq> CHR 0x22" if "n < 16" for n
    using hex_digit_not_own [OF that] by (auto simp: own_last_def)
  moreover have "byte c div 16 < 16" "byte c mod 16 < 16"
    using nat_of_char_less_256 [of c] by linarith+
  ultimately show "c \<noteq> CHR 0x22 \<Longrightarrow> CHR 0x22 \<notin> set (escape_ascii c)"
    by (auto simp: escape_ascii_def u_escape_def dest: sym)
qed

lemma escape_no_bare_quote:
  "x \<noteq> CHR 0x5C \<Longrightarrow> \<not> contains [x, CHR 0x22] (CHR 0x5C # escape s)"
proof -
  have "x \<noteq> CHR 0x5C \<Longrightarrow> \<not> contains [x, CHR 0x22] (y # escape s) \<and>
      (\<forall>r. escape s \<noteq> CHR 0x22 # r)" for y
  proof (induction s arbitrary: y rule: escape.induct)
    case (2 c s)
    have skip: "\<not> contains [x, CHR 0x22] (y # m @ r) \<and> (\<forall>t. m @ r \<noteq> CHR 0x22 # t)"
      if "m \<noteq> []" "CHR 0x22 \<notin> set m" "\<And>y. \<not> contains [x, CHR 0x22] (y # r)" for m r y
      using contains_skip [OF that(2)] that by (cases m) auto
    consider (quote) "c = CHR 0x22" | (ascii) "byte c < 0x80" "c \<noteq> CHR 0x22"
      | (bad) "0x80 \<le> byte c" "multi_len (c # s) = 0"
      | (multi) "0x80 \<le> byte c" "0 < multi_len (c # s)" by linarith
    then show ?case
    proof cases
      case quote
      with 2 show ?thesis by (simp add: escape.simps(2) escape_ascii_def)
    next
      case ascii
      with 2 skip [of "escape_ascii c" "escape s"] show ?thesis
        by (simp add: escape.simps(2) escape_ascii_quote)
    next
      case bad
      with 2 skip [of "CHR 0x5C # ''ufffd''" "escape s"] show ?thesis
        by (simp add: escape.simps(2))
    next
      case multi
      let ?m = "take (multi_len (c # s)) (c # s)"
      have "CHR 0x22 \<notin> set ?m" using multi_bytes [of "c # s"] by (auto simp: list_all_iff)
      then have "CHR 0x22 \<notin> set (escape_multi ?m)" by (auto simp: escape_multi_def)
      with 2 multi skip [of "escape_multi ?m"] escape_multi_last(1) [of "c # s"] show ?thesis
        by (simp add: escape.simps(2) not_less)
    qed
  qed simp
  then show "x \<noteq> CHR 0x5C \<Longrightarrow> \<not> contains [x, CHR 0x22] (CHR 0x5C # escape s)" by blast
qed

text \<open>
  A string carries the marker into the text of an envelope when it is \<open>IN_FLIGHT\<close> or ends
  in a quote and \<open>IN_FLIGHT\<close>.
\<close>

definition masks :: "string \<Rightarrow> bool" where
  "masks s \<longleftrightarrow> suffix (CHR 0x22 # ''IN_FLIGHT'') (CHR 0x22 # s)"

lemma plain_in_flight: "list_all plain ''IN_FLIGHT''"
  by (simp add: plain_def in_range_def)

lemma masks_cases:
  "masks s \<longleftrightarrow> s = ''IN_FLIGHT'' \<or> (\<exists>z. s = z @ CHR 0x22 # ''IN_FLIGHT'')"
  by (auto simp: masks_def suffix_def Cons_eq_append_conv)

lemma contains_quote: "contains in_flight_marker (quote s) \<longleftrightarrow> masks s"
proof
  let ?w = "''IN_FLIGHT''" and ?q = "CHR 0x22"
  assume "contains in_flight_marker (quote s)"
  then obtain a b where "quote s = a @ in_flight_marker @ b"
    by (auto simp: contains_sublist sublist_def)
  then have q: "(?q # escape s) @ [?q] = (a @ ?q # ?w) @ ?q # b"
    by (simp add: quote_def in_flight_marker_def)
  show "masks s"
  proof (cases b rule: rev_cases)
    case Nil
    with q have e: "?q # escape s = a @ ?q # ?w" by simp
    show ?thesis
    proof (cases a)
      case Nil
      with e have "escape s = [] @ ?w" by simp
      from escape_plain_tail [OF plain_in_flight this] show ?thesis by (auto simp: masks_cases)
    next
      case (Cons x a')
      with e have "escape s = (a' @ [?q]) @ ?w" by simp
      from escape_plain_tail [OF plain_in_flight this] obtain s1
        where s1: "s = s1 @ ?w" "escape s1 = a' @ [?q]" by auto
      from escape_last [OF s1(2)] obtain s2 where "s1 = s2 @ [?q]" by (auto simp: own_last_def)
      with s1 show ?thesis by (auto simp: masks_cases)
    qed
  next
    case (snoc b' y)
    have "(?q # escape s) @ [?q] = (a @ ?q # ?w @ ?q # b') @ [y]"
      using q unfolding snoc by (simp only: append_assoc append_Cons)
    from append1_eq_conv [THEN iffD1, OF this]
    have "?q # escape s = a @ ?q # ?w @ ?q # b'" by (rule conjunct1)
    then have "?q # escape s = (a @ ?q # ''IN_FLIGH'') @ [CHR ''T'', ?q] @ b'" by simp
    then have "contains [CHR ''T'', ?q] (?q # escape s)" by (metis contains_mid)
    then have "contains [CHR ''T'', ?q] (CHR 0x5C # escape s)" by simp
    with escape_no_bare_quote [of "CHR ''T''" s] show ?thesis by simp
  qed
next
  assume "masks s"
  then consider "s = ''IN_FLIGHT''" | z where "s = z @ CHR 0x22 # ''IN_FLIGHT''"
    by (auto simp: masks_cases)
  then show "contains in_flight_marker (quote s)"
  proof cases
    case 1
    then have "escape s = ''IN_FLIGHT''" using escape_plain [OF plain_in_flight, of "[]"] by simp
    then show ?thesis by (simp add: quote_def in_flight_marker_def)
  next
    case 2
    have "escape s = escape (z @ [CHR 0x22]) @ ''IN_FLIGHT''"
      using escape_plain [OF plain_in_flight, of "z @ [CHR 0x22]"] 2 by simp
    also have "escape (z @ [CHR 0x22]) = escape z @ [CHR 0x5C, CHR 0x22]"
      by (simp add: escape_append_ascii) (simp add: escape.simps(2) escape_ascii_def)
    finally have "quote s = (CHR 0x22 # escape z @ [CHR 0x5C]) @ in_flight_marker @ []"
      by (simp add: quote_def in_flight_marker_def)
    then show ?thesis by (metis contains_mid)
  qed
qed

text \<open>An envelope's text contains the marker exactly when one of its strings carries it there.\<close>

fun marked :: "json \<Rightarrow> bool" where
  "marked (JStr s) \<longleftrightarrow> masks s"
| "marked (JArr js) \<longleftrightarrow> (\<exists>j\<in>set js. marked j)"
| "marked (JObj ms) \<longleftrightarrow> (\<exists>(k, j)\<in>set ms. masks k \<or> marked j)"
| "marked j \<longleftrightarrow> False"

lemma marker_seps:
  "CHR '','' \<notin> set in_flight_marker" "CHR '':'' \<notin> set in_flight_marker"
  "CHR ''{'' \<notin> set in_flight_marker" "CHR ''}'' \<notin> set in_flight_marker"
  "CHR ''['' \<notin> set in_flight_marker" "CHR '']'' \<notin> set in_flight_marker"
  "in_flight_marker \<noteq> []"
  by (simp_all add: in_flight_marker_def)

lemmas marker_contains = contains_sep [OF marker_seps(2,7)] contains_sep_simps [OF marker_seps(3,7)]
  contains_sep_simps [OF marker_seps(4,7)] contains_sep_simps [OF marker_seps(5,7)]
  contains_sep_simps [OF marker_seps(6,7)] contains_comma_sep [OF marker_seps(1,7)]

lemma contains_print:
  "wf_json j \<Longrightarrow> contains in_flight_marker (print_json j) \<longleftrightarrow> marked j"
proof (induction j)
  case (JNum n)
  have "CHR 0x22 \<notin> set n"
    using JNum by (auto simp: int_lit_def list_all_iff Let_def in_range_def split: list.splits if_splits)
  then show ?case by (auto simp: contains_sublist sublist_def in_flight_marker_def)
next
  case (JObj ms)
  have "contains in_flight_marker (quote (fst p) @ CHR '':'' # print_json (snd p)) \<longleftrightarrow>
      masks (fst p) \<or> marked (snd p)" if p: "p \<in> set ms" for p
  proof -
    have "snd p \<in> Basic_BNFs.snds p" by (simp add: snds.simps)
    from JObj.IH [OF p this] JObj.prems p show ?thesis
      by (auto simp: marker_contains contains_quote)
  qed
  then show ?case
    by (simp add: marker_contains split_beta del: contains.simps cong: bex_cong)
qed (auto simp: marker_contains contains_quote, simp_all add: in_flight_marker_def)

lemma not_masks: "CHR ''I'' \<notin> set s \<Longrightarrow> \<not> masks s"
  by (auto simp: masks_cases)

lemma marked_simps [simp]:
  "marked (string_map_json m) \<longleftrightarrow> (\<exists>(k, v)\<in>set m. masks k \<or> masks v)"
  by (simp add: string_map_json_def split_beta)

text \<open>What the release script makes of the text of an envelope.\<close>

lemma hex_not_masks:
  assumes "is_hex h"
  shows "\<not> masks h"
proof
  assume "masks h"
  then have "CHR ''T'' \<in> set h" by (auto simp: masks_cases)
  with assms show False by (auto simp: is_hex_def list_all_iff in_range_def)
qed

lemma b64_not_masks: "\<not> masks (b64_encode s)"
proof
  assume "masks (b64_encode s)"
  then have "CHR ''_'' \<in> set (b64_encode s)" by (auto simp: masks_cases)
  then show False using set_b64 [of s] by (auto simp: b64_value_def in_range_def)
qed

lemma time_not_masks: "format_rfc3339 t = Some s \<Longrightarrow> \<not> masks s"
proof
  assume f: "format_rfc3339 t = Some s" and "masks s"
  then obtain u where "s = u @ [CHR ''T'']" by (auto simp: masks_cases)
  with f show False by (auto simp: format_rfc3339_def Let_def split: prod.splits if_splits)
qed

lemma marker_in_envelope:
  assumes "wf_envelope env" "marshal_envelope env = Inr raw"
  shows "contains in_flight_marker raw \<longleftrightarrow>
    masks (env_state env) \<or> (\<exists>(k, v)\<in>set (env_headers env). masks k \<or> masks v)"
proof -
  from assms(2) obtain c x where t: "format_rfc3339 (env_created env) = Some c"
    "format_rfc3339 (env_expires env) = Some x" and raw: "raw = print_json (envelope_json env c x)"
    by (auto simp: marshal_envelope_def split: option.splits)
  from assms(1) t have wf: "wf_json (envelope_json env c x)"
    by (simp add: wf_envelope_json is_ascii_format)
  from assms(1) have "\<not> masks (env_hash env)" by (simp add: wf_envelope_def hex_not_masks)
  with time_not_masks [OF t(1)] time_not_masks [OF t(2)] b64_not_masks [of "env_body env"]
  show ?thesis
    unfolding raw contains_print [OF wf]
    by (cases "env_headers env = []"; cases "env_status env = 0"; cases "env_body env = []")
      (simp_all add: envelope_json_def opt_member_def not_masks)
qed

end
