(* ===== verification/Redis_Contract.thy ===== *)
theory Redis_Contract
  imports Redis_Marker
begin

text \<open>
  The Redis store implements the contract of the port: the locale \<open>redis\<close> states the
  documented behaviour of the commands, and every instance of it gives an instance of
  \<open>idempotency_store\<close>. The last part is a Redis in memory.
\<close>

subsection \<open>The contract of the port on top of Redis\<close>

text \<open>
  What the records' keys hold. A text under a key of the store was written by it, and no
  captured header carries the marker into a completed record.
\<close>

definition unmarked_headers :: "(string, string) gomap \<Rightarrow> bool" where
  "unmarked_headers hs \<longleftrightarrow> utf8_map hs \<and> (\<forall>(k, v)\<in>set hs. \<not> masks k \<and> \<not> masks v)"

definition stored_envelope :: "record_envelope \<Rightarrow> string \<Rightarrow> bool" where
  "stored_envelope env raw \<longleftrightarrow>
     wf_envelope env \<and> unmarked_headers (env_headers env) \<and>
     env_state env \<in> {IdempotencyStateInFlight, IdempotencyStateCompleted} \<and>
     marshal_envelope env = Inr raw"

definition record_at :: "(string \<Rightarrow> string option) \<Rightarrow> string \<Rightarrow> idempotency_record option" where
  "record_at m key =
     (case m (keyPrefix @ key) of
        None \<Rightarrow> None
      | Some raw \<Rightarrow>
          (case unmarshal_envelope raw of
             Inl err \<Rightarrow> None
           | Inr env \<Rightarrow> Some (record_of_envelope key env)))"

definition records_ok :: "(string \<Rightarrow> string option) \<Rightarrow> bool" where
  "records_ok m \<longleftrightarrow> (\<forall>key raw. m (keyPrefix @ key) = Some raw \<longrightarrow> (\<exists>env. stored_envelope env raw))"

lemma stored_unmarshal:
  "stored_envelope env raw \<Longrightarrow> unmarshal_envelope raw = Inr (sorted_envelope env)"
  by (simp add: stored_envelope_def unmarshal_marshal)

lemma masks_states [simp]:
  "masks IdempotencyStateInFlight" "\<not> masks IdempotencyStateCompleted"
  by (simp_all add: masks_cases IdempotencyStateInFlight_def IdempotencyStateCompleted_def
      Cons_eq_append_conv)

lemma stored_marker:
  "stored_envelope env raw \<Longrightarrow>
     contains in_flight_marker raw \<longleftrightarrow> env_state env = IdempotencyStateInFlight"
  by (auto simp: stored_envelope_def marker_in_envelope unmarked_headers_def)

lemma records_ok_upd:
  "records_ok m \<Longrightarrow> stored_envelope env raw \<Longrightarrow> records_ok (m(keyPrefix @ key \<mapsto> raw))"
  by (auto simp: records_ok_def)

lemma records_ok_del: "records_ok m \<Longrightarrow> records_ok (m(k := None))"
  by (auto simp: records_ok_def)

lemma record_at_upd:
  "stored_envelope env raw \<Longrightarrow> record_at (m(keyPrefix @ key \<mapsto> raw)) =
     (record_at m)(key \<mapsto> record_of_envelope key (sorted_envelope env))"
  by (rule ext) (simp add: record_at_def stored_unmarshal)

lemma record_at_del: "record_at (m(keyPrefix @ key := None)) = (record_at m)(key := None)"
  by (rule ext) (simp add: record_at_def)

lemma record_atE:
  assumes "records_ok m"
  obtains (absent) "m (keyPrefix @ key) = None" "record_at m key = None"
    | (stored) env raw where "m (keyPrefix @ key) = Some raw" "stored_envelope env raw"
      "record_at m key = Some (record_of_envelope key (sorted_envelope env))"
proof (cases "m (keyPrefix @ key)")
  case None
  with absent show ?thesis by (simp add: record_at_def)
next
  case (Some raw)
  with assms obtain env where "stored_envelope env raw" by (auto simp: records_ok_def)
  with Some stored show ?thesis by (simp add: record_at_def stored_unmarshal)
qed

lemma stored_reservation:
  "is_hex h \<Longrightarrow> marshal_envelope (reservation_envelope h now ttl) = Inr raw \<Longrightarrow>
     stored_envelope (reservation_envelope h now ttl) raw"
  by (simp add: stored_envelope_def reservation_envelope_def wf_envelope_def unmarked_headers_def
      utf8_map_def go_int_def IdempotencyStateInFlight_def)

lemma reserved_by_reservation:
  "reserved_by key h (record_of_envelope key (reservation_envelope h now ttl))"
  by (simp add: reserved_by_def record_of_envelope_def reservation_envelope_def)

lemma sorted_reservation [simp]:
  "sorted_envelope (reservation_envelope h now ttl) = reservation_envelope h now ttl"
  by (simp add: sorted_envelope_def reservation_envelope_def)

lemma stored_completion:
  "stored_envelope env raw \<Longrightarrow> unmarked_headers hs \<Longrightarrow> go_int status \<Longrightarrow>
   marshal_envelope (completion_envelope (record_of_envelope key (sorted_envelope env)) status hs body now ttl) = Inr raw' \<Longrightarrow>
     stored_envelope (completion_envelope (record_of_envelope key (sorted_envelope env)) status hs body now ttl) raw'"
  by (simp add: stored_envelope_def completion_envelope_def wf_envelope_def unmarked_headers_def
      IdempotencyStateCompleted_def record_of_envelope_def sorted_envelope_def)

lemma completed_with_completion:
  "unmarked_headers hs \<Longrightarrow> ir_key r = key \<Longrightarrow> completed_with status hs body r
     (record_of_envelope key (sorted_envelope (completion_envelope r status hs body now ttl)))"
  by (simp add: completed_with_def record_of_envelope_def sorted_envelope_def
      completion_envelope_def map_of_sort_keys distinct_sort_keys unmarked_headers_def utf8_map_def)

text \<open>
  The documented behaviour of the commands, against the contents \<open>db\<close> of the database, over
  a stretch in which no key expires. A call that fails may have failed before or after it
  took effect; a script that fails changes nothing or has run to its end.
\<close>

locale redis =
  fixes rc :: "'s redis_client"
    and cmd :: "'s redis_commands"
    and db :: "'s \<Rightarrow> string \<Rightarrow> string option"
  assumes setnx_true: "r_setnx rc k v ttl s = (Inr True, s') \<Longrightarrow> db s k = None \<and> db s' = (db s)(k \<mapsto> v)"
    and setnx_false: "r_setnx rc k v ttl s = (Inr False, s') \<Longrightarrow> db s k \<noteq> None \<and> db s' = db s"
    and setnx_error: "r_setnx rc k v ttl s = (Inl err, s') \<Longrightarrow>
      db s' = db s \<or> db s k = None \<and> db s' = (db s)(k \<mapsto> v)"
    and get_ok: "r_get rc k s = (Inr found, s') \<Longrightarrow> db s' = db s \<and> found = db s k"
    and get_error: "r_get rc k s = (Inl err, s') \<Longrightarrow>
      db s' = db s \<and> \<not> errors_is err ErrIdempotencyNotFound"
    and eval_ok: "r_eval rc f s = (Inr n, s') \<Longrightarrow>
      \<exists>t u. db t = db s \<and> f t = (Inr n, u) \<and> db s' = db u"
    and eval_error: "r_eval rc f s = (Inl err, s') \<Longrightarrow>
      db s' = db s \<or> (\<exists>t. db t = db s \<and> db s' = db (snd (f t)))"
    and exists_db: "c_exists cmd k s \<longleftrightarrow> db s k \<noteq> None"
    and get_db: "c_get cmd k s = db s k"
    and set_db: "c_set_px cmd k v px s = Inr s' \<Longrightarrow> db s' = (db s)(k \<mapsto> v)"
    and del_db: "db (c_del cmd k s) = (db s)(k := None)"
begin

abbreviation view :: "'s \<Rightarrow> string \<Rightarrow> idempotency_record option" where
  "view s \<equiv> record_at (db s)"

abbreviation inv :: "'s \<Rightarrow> bool" where
  "inv s \<equiv> records_ok (db s)"

lemma get_cases:
  assumes "inv s" and "redis_get rc key s = (res, s')"
  obtains (absent) "res = Inl (Sentinel ErrIdempotencyNotFound)" "db s' = db s"
      "db s (keyPrefix @ key) = None" "view s key = None"
    | (found) env raw where "res = Inr (record_of_envelope key (sorted_envelope env))" "db s' = db s"
      "stored_envelope env raw" "db s (keyPrefix @ key) = Some raw"
      "view s key = Some (record_of_envelope key (sorted_envelope env))"
    | (failed) err where "res = Inl err" "db s' = db s" "\<not> errors_is err ErrIdempotencyNotFound"
proof (cases "r_get rc (keyPrefix @ key) s")
  case (Pair r t)
  show ?thesis
  proof (cases r)
    case (Inl e)
    with Pair get_error [of "keyPrefix @ key" s e t] assms(2) show ?thesis
      by (intro failed [of "Wrapped ''redis GET: '' e ''''"]) (auto simp: redis_get_def)
  next
    case (Inr v)
    with Pair get_ok [of "keyPrefix @ key" s v t] have v: "db t = db s" "v = db s (keyPrefix @ key)"
      by simp_all
    from assms(1) show ?thesis
    proof (cases rule: record_atE [where key = key])
      case a: absent
      with v Pair Inr assms(2) show ?thesis by (intro absent) (simp_all add: redis_get_def)
    next
      case (stored env raw)
      with v Pair Inr assms(2) stored_unmarshal [OF stored(2)] show ?thesis
        by (intro found [of env raw]) (simp_all add: redis_get_def)
    qed
  qed
qed

lemma complete_script_effect:
  assumes "complete_script cmd k v px t = (r, u)"
  shows "db u = db t \<and> (db t k = None \<or> (\<exists>err. r = Inl err)) \<or>
    db t k \<noteq> None \<and> db u = (db t)(k \<mapsto> v)"
proof (cases "c_exists cmd k t")
  case True
  with assms show ?thesis
    by (cases "c_set_px cmd k v px t") (auto simp: complete_script_def exists_db dest: set_db)
next
  case False
  with assms show ?thesis by (auto simp: complete_script_def exists_db)
qed

lemma release_script_effect:
  assumes "inv t" "release_script cmd (keyPrefix @ key) t = (r, u)"
  shows "db u = db t \<and> (\<forall>rec. view t key = Some rec \<longrightarrow> \<not> in_flight rec) \<or>
    db u = (db t)(keyPrefix @ key := None) \<and> (\<exists>rec. view t key = Some rec \<and> in_flight rec)"
  using assms(1)
proof (cases rule: record_atE [where key = key])
  case absent
  with assms(2) show ?thesis by (simp add: release_script_def get_db)
next
  case (stored env raw)
  with assms(2) stored_marker [OF stored(2)] show ?thesis
    by (auto simp: release_script_def get_db del_db record_of_envelope_def sorted_envelope_def
        split: if_splits)
qed

lemma complete_effect:
  assumes i: "inv s" and hs: "unmarked_headers hs" "go_int status"
    and c: "redis_complete rc cmd now key status hs body ttl s = (res, s')"
  shows "inv s' \<and> (view s' = view s \<and> (view s key = None \<or> (\<exists>err. res = Inl err)) \<or>
    (\<exists>r r'. view s key = Some r \<and> completed_with status hs body r r' \<and>
       view s' = (view s)(key \<mapsto> r')))"
proof -
  obtain g s1 where g: "redis_get rc key s = (g, s1)" by (cases "redis_get rc key s")
  from i g show ?thesis
  proof (cases rule: get_cases)
    case absent
    with c g i show ?thesis by (simp add: redis_complete_def)
  next
    case (failed err)
    with c g i show ?thesis by (auto simp: redis_complete_def)
  next
    case (found env raw)
    let ?r = "record_of_envelope key (sorted_envelope env)"
    let ?env = "completion_envelope ?r status hs body now ttl"
    let ?px = "itoa (milliseconds ttl)"
    show ?thesis
    proof (cases "marshal_envelope ?env")
      case (Inl err)
      with c g i found show ?thesis by (auto simp: redis_complete_def)
    next
      case (Inr raw')
      let ?f = "complete_script cmd (keyPrefix @ key) raw' ?px"
      note st = stored_completion [OF found(3) hs Inr]
      have w: "completed_with status hs body ?r (record_of_envelope key (sorted_envelope ?env))"
        using hs(1) by (rule completed_with_completion) (simp add: record_of_envelope_def)
      have eff: "inv s' \<and> (view s' = view s \<and> (\<exists>err. r = Inl err) \<or>
          view s' = (view s)(key \<mapsto> record_of_envelope key (sorted_envelope ?env)))"
        if f: "?f t = (r, u)" "db t = db s1" "db s' = db u" for t r u
        using complete_script_effect [OF f(1)] f found i st records_ok_upd [OF i st, of key]
        by (auto simp: record_at_upd)
      obtain r where ev: "r_eval rc ?f s1 = (r, s')" and res: "\<And>e. r = Inl e \<Longrightarrow> \<exists>err. res = Inl err"
        using c g Inr found(1) by (auto simp: redis_complete_def split: sum.splits prod.splits)
      show ?thesis
      proof (cases r)
        case (Inl e)
        from eval_error [OF ev [unfolded Inl]] show ?thesis
        proof
          assume "\<exists>t. db t = db s1 \<and> db s' = db (snd (?f t))"
          then obtain t where t: "db t = db s1" "db s' = db (snd (?f t))" by blast
          obtain r' u where "?f t = (r', u)" by (cases "?f t")
          with eff [of t r' u] t found(5) w Inl res show ?thesis by fastforce
        qed (use i found(2) Inl res in auto)
      next
        case (Inr n)
        from eval_ok [OF ev [unfolded Inr]] obtain t u where
          "db t = db s1" "?f t = (Inr n, u)" "db s' = db u" by blast
        with eff [of t "Inr n" u] found(5) w show ?thesis by auto
      qed
    qed
  qed
qed

end

sublocale redis \<subseteq> idempotency_store "redis_store rc cmd clk" view inv unmarked_headers for clk
proof unfold_locales
  fix e h k ttl ro e'
  assume i: "inv e" and h: "is_hex h"
    and r: "st_reserve (redis_store rc cmd clk) k h ttl e = (Inr (ro, True), e')"
  let ?env = "reservation_envelope h (clk e) ttl"
  from r obtain raw where m: "marshal_envelope ?env = Inr raw"
    and s: "r_setnx rc (keyPrefix @ k) raw ttl e = (Inr True, e')"
    and ro: "ro = Some (record_of_envelope k ?env)"
    by (auto simp: redis_store_def redis_reserve_def Let_def split: sum.splits prod.splits bool.splits)
  note st = stored_reservation [OF h m] and up = setnx_true [OF s]
  show "inv e' \<and> view e k = None \<and>
      (\<exists>r. ro = Some r \<and> reserved_by k h r \<and> view e' = (view e)(k \<mapsto> r))"
    using up st i records_ok_upd [OF i st, of k] reserved_by_reservation [of k h "clk e" ttl] ro
    by (simp add: record_at_upd record_at_def)
next
  fix e h k ttl ro e'
  assume i: "inv e" and h: "is_hex h"
    and r: "st_reserve (redis_store rc cmd clk) k h ttl e = (Inr (ro, False), e')"
  then obtain raw s1 x where s: "r_setnx rc (keyPrefix @ k) raw ttl e = (Inr False, s1)"
    and g: "redis_get rc k s1 = (Inr x, e')" and ro: "ro = Some x"
    by (auto simp: redis_store_def redis_reserve_def Let_def split: sum.splits prod.splits bool.splits)
  from setnx_false [OF s] i have "inv s1" by simp
  from this g show "inv e' \<and> view e' = view e \<and> view e k \<noteq> None \<and> ro = view e k"
    by (rule get_cases) (use setnx_false [OF s] i ro in auto)
next
  fix e h k ttl err e'
  assume i: "inv e" and h: "is_hex h"
    and r: "st_reserve (redis_store rc cmd clk) k h ttl e = (Inl err, e')"
  let ?env = "reservation_envelope h (clk e) ttl"
  show "inv e' \<and> (view e' = view e \<or>
      view e k = None \<and> (\<exists>r. reserved_by k h r \<and> view e' = (view e)(k \<mapsto> r)))"
  proof (cases "marshal_envelope ?env")
    case (Inl x)
    with r i show ?thesis by (simp add: redis_store_def redis_reserve_def Let_def)
  next
    case (Inr raw)
    note st = stored_reservation [OF h Inr]
    from r Inr consider
        (setnx) x where "r_setnx rc (keyPrefix @ k) raw ttl e = (Inl x, e')"
      | (get) s1 x where "r_setnx rc (keyPrefix @ k) raw ttl e = (Inr False, s1)"
          "redis_get rc k s1 = (Inl x, e')"
      by (auto simp: redis_store_def redis_reserve_def Let_def split: sum.splits prod.splits bool.splits)
    then show ?thesis
    proof cases
      case setnx
      from setnx_error [OF setnx] show ?thesis
      proof
        assume "db e (keyPrefix @ k) = None \<and> db e' = (db e)(keyPrefix @ k \<mapsto> raw)"
        with records_ok_upd [OF i st, of k] reserved_by_reservation [of k h "clk e" ttl] st
        show ?thesis by (auto simp: record_at_upd record_at_def)
      qed (use i in simp)
    next
      case get
      from setnx_false [OF get(1)] i have "inv s1" by simp
      from this get(2) show ?thesis
        by (rule get_cases) (use setnx_false [OF get(1)] i in auto)
    qed
  qed
next
  fix e hs status k body ttl u e'
  assume i: "inv e" and hs: "unmarked_headers hs" "go_int status"
    and r: "st_complete (redis_store rc cmd clk) k status hs body ttl e = (Inr u, e')"
  show "inv e' \<and> (case view e k of
      None \<Rightarrow> view e' = view e
    | Some r \<Rightarrow> \<exists>r'. completed_with status hs body r r' \<and> view e' = (view e)(k \<mapsto> r'))"
    using complete_effect [OF i hs r [unfolded redis_store_def, simplified]]
    by (auto split: option.splits)
next
  fix e hs status k body ttl err e'
  assume i: "inv e" and hs: "unmarked_headers hs" "go_int status"
    and r: "st_complete (redis_store rc cmd clk) k status hs body ttl e = (Inl err, e')"
  show "inv e' \<and> (view e' = view e \<or>
      (\<exists>r r'. view e k = Some r \<and> completed_with status hs body r r' \<and> view e' = (view e)(k \<mapsto> r')))"
    using complete_effect [OF i hs r [unfolded redis_store_def, simplified]] by blast
next
  fix e k u e'
  assume i: "inv e" and r: "st_release (redis_store rc cmd clk) k e = (Inr u, e')"
  then obtain n where ev: "r_eval rc (release_script cmd (keyPrefix @ k)) e = (Inr n, e')"
    by (auto simp: redis_store_def redis_release_def split: sum.splits prod.splits)
  from eval_ok [OF ev] obtain t v where t: "db t = db e"
    and f: "release_script cmd (keyPrefix @ k) t = (Inr n, v)" and v: "db e' = db v" by blast
  from i t have "inv t" by simp
  from release_script_effect [OF this f] i t v show "inv e' \<and> (case view e k of
      None \<Rightarrow> view e' = view e
    | Some r \<Rightarrow> view e' = (if in_flight r then (view e)(k := None) else view e))"
    by (auto simp: record_at_del records_ok_del split: option.splits)
next
  fix e k err e'
  assume i: "inv e" and r: "st_release (redis_store rc cmd clk) k e = (Inl err, e')"
  then obtain x where ev: "r_eval rc (release_script cmd (keyPrefix @ k)) e = (Inl x, e')"
    by (auto simp: redis_store_def redis_release_def split: sum.splits prod.splits)
  from eval_error [OF ev]
  show "inv e' \<and> (view e' = view e \<or>
      (\<exists>r. view e k = Some r \<and> in_flight r \<and> view e' = (view e)(k := None)))"
  proof
    assume "\<exists>t. db t = db e \<and> db e' = db (snd (release_script cmd (keyPrefix @ k) t))"
    then obtain t where t: "db t = db e" "db e' = db (snd (release_script cmd (keyPrefix @ k) t))"
      by blast
    obtain n v where f: "release_script cmd (keyPrefix @ k) t = (n, v)" by fastforce
    from i t have "inv t" by simp
    from release_script_effect [OF this f] i t f show ?thesis
      by (auto simp: record_at_del records_ok_del)
  qed (use i in simp)
qed

subsection \<open>A Redis in memory\<close>

text \<open>
  The commands over an association list, beside the simulated runtime: an instance of the
  laws, used where a statement is applied to concrete input.
\<close>

record mem_world = sim +
  mem_db :: "(string, string) gomap"

definition mem_client :: "('m mem_world_scheme) redis_client" where
  "mem_client =
     \<lparr>r_setnx = (\<lambda>k v ttl s.
        case map_of (mem_db s) k of
          None \<Rightarrow> (Inr True, s\<lparr>mem_db := put k v (mem_db s)\<rparr>)
        | Some x \<Rightarrow> (Inr False, s)),
      r_get = (\<lambda>k s. (Inr (map_of (mem_db s) k), s)),
      r_eval = (\<lambda>f s. f s)\<rparr>"

definition mem_commands :: "('m mem_world_scheme) redis_commands" where
  "mem_commands =
     \<lparr>c_exists = (\<lambda>k s. map_of (mem_db s) k \<noteq> None),
      c_get = (\<lambda>k s. map_of (mem_db s) k),
      c_set_px = (\<lambda>k v px s.
        case read_int px of
          Some n \<Rightarrow> if 0 < n then Inr (s\<lparr>mem_db := put k v (mem_db s)\<rparr>)
                    else Inl (Opaque ''ERR invalid expire time in set'')
        | None \<Rightarrow> Inl (Opaque ''ERR value is not an integer or out of range'')),
      c_del = (\<lambda>k s. s\<lparr>mem_db := AList.delete k (mem_db s)\<rparr>)\<rparr>"

interpretation mem: redis mem_client mem_commands "\<lambda>s. map_of (mem_db s)"
  by unfold_locales
    (auto simp: mem_client_def mem_commands_def delete_conv split: option.splits if_splits)

definition mem_store :: "('m mem_world_scheme) idem_store" where
  "mem_store = redis_store mem_client mem_commands sim_time"

end
