(* ===== verification/Api_Responses.thy ===== *)
theory Api_Responses
  imports Go_Runtime
begin

text \<open>
  \<open>adapters/inbound/http/validation.go\<close> and \<open>response.go\<close> of the API: the error response and
  the success envelopes as the JSON text the encoder writes, the message of a failed
  validation, and \<open>DecodeAndValidate\<close>, which every handler starts with. The validator package
  is a parameter: it gets the fields of a struct with their \<open>validate\<close> tags and gives the
  failures. Reading a body is not recorded in the request: no one reads it twice but the
  idempotency middleware, which puts it back.
\<close>

subsection \<open>Error responses\<close>

record validation_detail =
  vd_field :: string
  vd_message :: string
  vd_value :: "json option"

record error_response =
  er_code :: string
  er_message :: string
  er_request_id :: string
  er_details :: "validation_detail list"

definition ErrCodeValidation :: string where "ErrCodeValidation = ''VALIDATION_ERROR''"
definition ErrCodeInvalidJSON :: string where "ErrCodeInvalidJSON = ''INVALID_JSON''"
definition ErrCodeMissingHeader :: string where "ErrCodeMissingHeader = ''MISSING_HEADER''"
definition ErrCodeInternalError :: string where "ErrCodeInternalError = ''INTERNAL_ERROR''"
definition ErrCodeUnauthorized :: string where "ErrCodeUnauthorized = ''UNAUTHORIZED''"
definition ErrCodeNotFound :: string where "ErrCodeNotFound = ''NOT_FOUND''"
definition ErrCodeRateLimited :: string where "ErrCodeRateLimited = ''RATE_LIMITED''"
definition ErrCodeIdempotencyKeyInvalid :: string where "ErrCodeIdempotencyKeyInvalid = ''IDEMPOTENCY_KEY_INVALID''"
definition ErrCodeIdempotencyKeyMismatch :: string where "ErrCodeIdempotencyKeyMismatch = ''IDEMPOTENCY_KEY_MISMATCH''"
definition ErrCodeIdempotencyInProgress :: string where "ErrCodeIdempotencyInProgress = ''IDEMPOTENT_REQUEST_IN_PROGRESS''"

lemmas err_code_defs = ErrCodeValidation_def ErrCodeInvalidJSON_def ErrCodeMissingHeader_def
  ErrCodeInternalError_def ErrCodeUnauthorized_def ErrCodeNotFound_def ErrCodeRateLimited_def
  ErrCodeIdempotencyKeyInvalid_def ErrCodeIdempotencyKeyMismatch_def
  ErrCodeIdempotencyInProgress_def

definition simple_error :: "string \<Rightarrow> string \<Rightarrow> string \<Rightarrow> error_response" where
  "simple_error code msg requestID =
     \<lparr>er_code = code, er_message = msg, er_request_id = requestID, er_details = []\<rparr>"

definition omit_empty :: "string \<Rightarrow> string \<Rightarrow> (string \<times> json) list" where
  "omit_empty k s = (if s = '''' then [] else [(k, JStr s)])"

definition detail_json :: "validation_detail \<Rightarrow> json" where
  "detail_json d =
     JObj ([(''field'', JStr (vd_field d)), (''message'', JStr (vd_message d))] @
           (case vd_value d of Some j \<Rightarrow> [(''value'', j)] | None \<Rightarrow> []))"

definition error_json :: "error_response \<Rightarrow> json" where
  "error_json e =
     JObj ([(''code'', JStr (er_code e)), (''message'', JStr (er_message e))] @
           omit_empty ''requestId'' (er_request_id e) @
           (if er_details e = [] then [] else [(''details'', JArr (map detail_json (er_details e)))]))"

subsection \<open>Responses on a writer\<close>

definition send_json :: "writer \<Rightarrow> int \<Rightarrow> json option \<Rightarrow> writer" where
  "send_json w code payload =
     (let w' = w_write_header code (w_set_header ''Content-Type'' ''application/json'' w)
      in case payload of Some j \<Rightarrow> w_write (encode_line j) w' | None \<Rightarrow> w')"

definition RespondWithError :: "writer \<Rightarrow> int \<Rightarrow> error_response \<Rightarrow> writer" where
  "RespondWithError w statusCode errResp = send_json w statusCode (Some (error_json errResp))"

definition RespondWithValidationError :: "writer \<Rightarrow> string \<Rightarrow> validation_detail list \<Rightarrow> writer" where
  "RespondWithValidationError w requestID errors =
     RespondWithError w 400
       \<lparr>er_code = ErrCodeValidation, er_message = ''Request validation failed'',
        er_request_id = requestID, er_details = errors\<rparr>"

definition RespondWithJSON :: "writer \<Rightarrow> int \<Rightarrow> json option \<Rightarrow> writer" where
  "RespondWithJSON w statusCode payload = send_json w statusCode payload"

subsection \<open>Success envelopes\<close>

definition APIVersionPrefix :: string where "APIVersionPrefix = ''/v1''"

text \<open>\<open>Format(time.RFC3339)\<close>: whole seconds, in UTC, for years up to 9999.\<close>

definition format_seconds :: "gotime \<Rightarrow> string" where
  "format_seconds t =
     (case format_rfc3339 (t - t mod second) of Some s \<Rightarrow> s | None \<Rightarrow> '''')"

definition meta_json :: "string \<Rightarrow> gotime \<Rightarrow> json" where
  "meta_json requestID now =
     JObj (omit_empty ''requestId'' requestID @
           [(''timestamp'', JStr (format_seconds now)),
            (''apiVersion'', JStr (drop 1 APIVersionPrefix))])"

text \<open>\<open>NewAPIResponse\<close>; a nil payload is left out.\<close>

definition NewAPIResponse :: "json option \<Rightarrow> string \<Rightarrow> gotime \<Rightarrow> json" where
  "NewAPIResponse data requestID now =
     JObj ([(''success'', JBool True)] @
           (case data of Some j \<Rightarrow> [(''data'', j)] | None \<Rightarrow> []) @
           [(''meta'', meta_json requestID now)])"

record pagination_meta =
  pg_page :: int
  pg_per_page :: int
  pg_total_items :: int
  pg_total_pages :: int
  pg_next_cursor :: string
  pg_prev_cursor :: string

definition pagination_json :: "pagination_meta \<Rightarrow> json" where
  "pagination_json p =
     JObj ([(''page'', JNum (itoa (pg_page p))), (''perPage'', JNum (itoa (pg_per_page p))),
            (''totalItems'', JNum (itoa (pg_total_items p))),
            (''totalPages'', JNum (itoa (pg_total_pages p)))] @
           omit_empty ''nextCursor'' (pg_next_cursor p) @ omit_empty ''prevCursor'' (pg_prev_cursor p))"

text \<open>\<open>None\<close> is a nil slice, which the encoder writes as \<open>null\<close>.\<close>

definition NewPaginatedResponse :: "json list option \<Rightarrow> string \<Rightarrow> pagination_meta \<Rightarrow> gotime \<Rightarrow> json" where
  "NewPaginatedResponse data requestID pagination now =
     JObj [(''success'', JBool True),
           (''data'', case data of Some js \<Rightarrow> JArr js | None \<Rightarrow> JNull),
           (''meta'', meta_json requestID now),
           (''pagination'', pagination_json pagination)]"

definition message_json :: "string \<Rightarrow> string \<Rightarrow> json" where
  "message_json msg status = JObj ([(''message'', JStr msg)] @ omit_empty ''status'' status)"

definition created_json :: "string \<Rightarrow> string \<Rightarrow> string \<Rightarrow> json" where
  "created_json msg resourceID status =
     JObj ([(''message'', JStr msg)] @ omit_empty ''resourceId'' resourceID @ [(''status'', JStr status)])"

definition accepted_json :: "string \<Rightarrow> string \<Rightarrow> string \<Rightarrow> string \<Rightarrow> json" where
  "accepted_json msg requestID status trackURL =
     JObj ([(''message'', JStr msg), (''requestId'', JStr requestID), (''status'', JStr status)] @
           omit_empty ''trackUrl'' trackURL)"

subsection \<open>Validation\<close>

record field_error =
  fe_field :: string
  fe_tag :: string
  fe_param :: string
  fe_value :: string

text \<open>A field of a struct: its Go name, the tags with their parameters, its value.\<close>

type_synonym struct_fields = "(string \<times> (string \<times> string) list \<times> string) list"

type_synonym validator = "struct_fields \<Rightarrow> field_error list"

fun snake_bytes :: "string \<Rightarrow> string" where
  "snake_bytes [] = []"
| "snake_bytes (c # s) = (if is_upper c then CHR ''_'' # c # snake_bytes s else c # snake_bytes s)"

definition toSnakeCase :: "(string \<Rightarrow> string) \<Rightarrow> string \<Rightarrow> string" where
  "toSnakeCase ul s =
     to_lower ul (case s of [] \<Rightarrow> [] | c # r \<Rightarrow> c # snake_bytes r)"

definition formatValidationMessage :: "(string \<Rightarrow> string) \<Rightarrow> field_error \<Rightarrow> string" where
  "formatValidationMessage ul fe =
     (let field = toSnakeCase ul (fe_field fe); tag = fe_tag fe; param = fe_param fe in
      if tag = ''required'' then field @ '' is required''
      else if tag = ''email'' then field @ '' must be a valid email address''
      else if tag = ''min'' then field @ '' must be at least '' @ param @ '' characters''
      else if tag = ''max'' then field @ '' must be at most '' @ param @ '' characters''
      else if tag = ''oneof'' then field @ '' must be one of: '' @ param
      else if tag = ''url'' then field @ '' must be a valid URL''
      else if tag = ''uuid'' then field @ '' must be a valid UUID''
      else if tag = ''alphanum'' then field @ '' must contain only alphanumeric characters''
      else if tag = ''gte'' then field @ '' must be greater than or equal to '' @ param
      else if tag = ''lte'' then field @ '' must be less than or equal to '' @ param
      else field @ '' failed validation: '' @ tag)"

definition validation_detail_of :: "(string \<Rightarrow> string) \<Rightarrow> field_error \<Rightarrow> validation_detail" where
  "validation_detail_of ul fe =
     \<lparr>vd_field = toSnakeCase ul (fe_field fe), vd_message = formatValidationMessage ul fe,
      vd_value = Some (JStr (fe_value fe))\<rparr>"

definition ValidateStruct ::
    "validator \<Rightarrow> (string \<Rightarrow> string) \<Rightarrow> struct_fields \<Rightarrow> validation_detail list" where
  "ValidateStruct vs ul fs = map (validation_detail_of ul) (vs fs)"

subsection \<open>Decoding and validating a request\<close>

text \<open>What the decoder and the validator know of a struct type.\<close>

record 'a struct_type =
  sty_zero :: 'a
  sty_names :: "string list"
  sty_store :: "string \<Rightarrow> json \<Rightarrow> 'a \<Rightarrow> 'a option"
  sty_fields :: "'a \<Rightarrow> struct_fields"

definition decode_body :: "'a struct_type \<Rightarrow> body \<Rightarrow> 'a option" where
  "decode_body ty b =
     (case b of
        BrokenBody err \<Rightarrow> None
      | Body bs \<Rightarrow>
          (case decode_first bs of
             None \<Rightarrow> None
           | Some j \<Rightarrow> decode_struct (sty_names ty) (sty_store ty) j (sty_zero ty)))"

definition DecodeAndValidate ::
    "validator \<Rightarrow> (string \<Rightarrow> string) \<Rightarrow> 'a struct_type \<Rightarrow> writer \<Rightarrow> http_request \<Rightarrow> string \<Rightarrow>
     'a option \<times> writer" where
  "DecodeAndValidate vs ul ty w r requestID =
     (case decode_body ty (rq_body r) of
        None \<Rightarrow>
          (None, RespondWithError w 400
             (simple_error ErrCodeInvalidJSON ''Invalid JSON in request body'' requestID))
      | Some payload \<Rightarrow>
          (let errors = ValidateStruct vs ul (sty_fields ty payload)
           in if errors \<noteq> [] then (None, RespondWithValidationError w requestID errors)
              else (Some payload, w)))"

definition ValidateRequiredHeader :: "writer \<Rightarrow> http_request \<Rightarrow> string \<Rightarrow> string \<Rightarrow> bool \<times> writer" where
  "ValidateRequiredHeader w r headerName requestID =
     (if header_get headerName (rq_header r) = '''' then
        (False, RespondWithError w 400
           \<lparr>er_code = ErrCodeMissingHeader, er_message = ''Missing required header: '' @ headerName,
            er_request_id = requestID,
            er_details = [\<lparr>vd_field = headerName,
              vd_message = ''Header '' @ [CHR 0x27] @ headerName @ [CHR 0x27] @ '' is required'',
              vd_value = None\<rparr>]\<rparr>)
      else (True, w))"

definition getRequestID :: "http_request \<Rightarrow> string" where
  "getRequestID r =
     (let id = header_get ''X-Request-Id'' (rq_header r); trace = header_get ''X-Amzn-Trace-Id'' (rq_header r)
      in if id \<noteq> '''' then id else if trace \<noteq> '''' then trace else '''')"

subsection \<open>The validator's contract\<close>

text \<open>
  \<open>holds tag param v\<close> is the meaning of a tag. The validator reports nothing exactly when every
  tag holds, and what it reports is a tag that fails, on a field of the struct.
\<close>

locale validator_laws =
  fixes vs :: validator
    and holds :: "string \<Rightarrow> string \<Rightarrow> string \<Rightarrow> bool"
  assumes reports: "vs fs = [] \<longleftrightarrow> (\<forall>(n, tags, v)\<in>set fs. \<forall>(t, p)\<in>set tags. holds t p v)"
    and reported: "fe \<in> set (vs fs) \<Longrightarrow>
      \<exists>tags. (fe_field fe, tags, fe_value fe) \<in> set fs \<and> (fe_tag fe, fe_param fe) \<in> set tags \<and>
        \<not> holds (fe_tag fe) (fe_param fe) (fe_value fe)"
    and oneof: "holds ''oneof'' p v \<longleftrightarrow> v \<in> set (split_byte (CHR '' '') p)"
    and required: "holds ''required'' '''' v \<longleftrightarrow> v \<noteq> ''''"
begin

lemma validate_accepts:
  "ValidateStruct vs ul fs = [] \<longleftrightarrow> (\<forall>(n, tags, v)\<in>set fs. \<forall>(t, p)\<in>set tags. holds t p v)"
  by (simp add: ValidateStruct_def reports)

lemma decode_and_validate_accepts:
  "fst (DecodeAndValidate vs ul ty w r rid) = Some x \<longleftrightarrow>
     decode_body ty (rq_body r) = Some x \<and>
     (\<forall>(n, tags, v)\<in>set (sty_fields ty x). \<forall>(t, p)\<in>set tags. holds t p v)"
  unfolding validate_accepts [of ul "sty_fields ty x", symmetric]
  by (auto simp: DecodeAndValidate_def Let_def split: option.split)

end

subsection \<open>Facts about responses\<close>

lemma send_json_layers [simp]: "same_layers w (send_json w code p)"
proof -
  note h = same_layers_trans [OF same_layers_set_header same_layers_write_header]
  from h same_layers_trans [OF h same_layers_write] show ?thesis
    by (simp add: send_json_def Let_def split: option.split)
qed

lemma decode_and_validate_accepted:
  "DecodeAndValidate vs ul ty w r rid = (Some x, w') \<Longrightarrow> w' = w"
  by (auto simp: DecodeAndValidate_def Let_def split: option.splits if_splits)

text \<open>On a connection nothing was written to, the response is the status and the text sent.\<close>

lemma coherent_send_json [simp]: "coherent w \<Longrightarrow> coherent (send_json w code p)"
  by (auto simp: send_json_def Let_def split: option.split)

lemma send_json_fresh:
  assumes "coherent w" "c_status (w_conn w) = None" "body_allowed code"
  shows "c_status (w_conn (send_json w code (Some j))) = Some code"
    "c_body (w_conn (send_json w code (Some j))) = c_body (w_conn w) @ encode_line j"
    "c_sent (w_conn (send_json w code (Some j))) =
       header_set ''Content-Type'' ''application/json'' (c_header (w_conn w))"
  using assms by (simp_all add: send_json_def Let_def conn_write_def conn_write_header_def)

text \<open>After the header is out, an error response only adds its text to the body.\<close>

lemma send_json_late:
  assumes "coherent w" "c_status (w_conn w) = Some code'"
  shows "c_status (w_conn (send_json w code (Some j))) = Some code'"
    "c_sent (w_conn (send_json w code (Some j))) = c_sent (w_conn w)"
  using assms by (simp_all add: send_json_def Let_def conn_write_def conn_write_header_def)

lemma send_json_run:
  "send_json w code (Some j) =
     w_run [SetHeader ''Content-Type'' ''application/json'', WriteHeader code, WriteBody (encode_line j)] w"
  by (simp add: send_json_def Let_def)

text \<open>What is sent is the text of the value and can be read back.\<close>

lemma wf_omit_empty: "valid_utf8 k \<Longrightarrow> valid_utf8 s \<Longrightarrow> \<forall>(k, j)\<in>set (omit_empty k s). valid_utf8 k \<and> wf_json j"
  by (simp add: omit_empty_def)

end
