(* ===== verification/Idempotency_Middleware.thy ===== *)
theory Idempotency_Middleware
  imports Idempotency_Store Api_Responses
begin

text \<open>
  \<open>adapters/inbound/http/idempotency_middleware.go\<close>: deduplication of requests by a key the
  client supplies. \<open>uuid_ok\<close> is whether \<open>uuid.Parse\<close> succeeds, \<open>sha256\<close> the digest; the store
  is any implementation of the port. The lemmas are proved over the contract of
  the port, whatever stands behind it.
\<close>

subsection \<open>The middleware\<close>

definition HeaderIdempotencyKey :: string where
  "HeaderIdempotencyKey = ''X-Idempotency-Key''"

definition idempotencyReplayHeader :: string where
  "idempotencyReplayHeader = ''X-Idempotent-Replay''"

definition idempotencyCacheHeader :: string where
  "idempotencyCacheHeader = ''X-Idempotent-Cache''"

text \<open>\<open>replayCachedResponse\<close>, its header loop first.\<close>

definition set_headers :: "(string, string) gomap \<Rightarrow> writer \<Rightarrow> writer" where
  "set_headers hs w = fold (\<lambda>(k, v). w_set_header k v) hs w"

definition replayCachedResponse ::
    "writer \<Rightarrow> idempotency_record option \<Rightarrow> string \<Rightarrow> string \<Rightarrow> writer" where
  "replayCachedResponse w existing requestHash requestID =
     (case existing of
        None \<Rightarrow>
          RespondWithError w 500 (simple_error ErrCodeInternalError
            ''Idempotency record missing after reservation conflict'' requestID)
      | Some rec \<Rightarrow>
          if ir_hash rec \<noteq> requestHash then
            RespondWithError w 422 (simple_error ErrCodeIdempotencyKeyMismatch
              ''Idempotency key was reused with a different request body'' requestID)
          else if ir_state rec = IdempotencyStateInFlight then
            RespondWithError (w_set_header ''Retry-After'' ''1'' w) 409
              (simple_error ErrCodeIdempotencyInProgress
                ''A request with this idempotency key is still being processed'' requestID)
          else
            (let w1 = w_set_header idempotencyReplayHeader ''true'' (set_headers (ir_headers rec) w);
                 status = (if ir_status rec = 0 then 200 else ir_status rec);
                 w2 = w_write_header status w1
             in if ir_body rec \<noteq> '''' then w_write (ir_body rec) w2 else w2))"

definition shouldCacheResponse :: "int \<Rightarrow> bool" where
  "shouldCacheResponse status = ((if status = 0 then 200 else status) < 500)"

definition newResponseRecorder :: "writer \<Rightarrow> writer" where
  "newResponseRecorder w = ResponseRecorder w 200 '''' False"

definition skipped_headers :: "string list" where
  "skipped_headers = [''Date'', ''X-Request-Id'', ''X-Response-Time'', ''Content-Length'',
     ''Transfer-Encoding'', ''Connection'']"

definition capturedHeaders :: "writer \<Rightarrow> (string, string) gomap" where
  "capturedHeaders w =
     [(k, hd vs). (k, vs) \<leftarrow> w_header w, k \<notin> set skipped_headers \<and> vs \<noteq> []]"

text \<open>What follows a reservation: the handler runs on the recorder, then the record is settled.\<close>

definition settle ::
    "'e idem_store \<Rightarrow> duration \<Rightarrow> string \<Rightarrow> outcome \<times> http_request \<times> writer \<times> 'e \<Rightarrow>
     outcome \<times> http_request \<times> writer \<times> 'e" where
  "settle st ttl key call =
     (case call of
        (Panicked v, r', rec, e') \<Rightarrow>
          (Panicked v, r', w_inner rec, snd (st_release st key e'))
      | (Returned, r', rec, e') \<Rightarrow>
          if shouldCacheResponse (rec_status rec) then
            (case st_complete st key (rec_status rec) (capturedHeaders rec) (rec_body rec) ttl e' of
               (Inl err, e'') \<Rightarrow>
                 (Returned, r', w_inner (w_set_header idempotencyCacheHeader ''store-failed'' rec), e'')
             | (Inr u, e'') \<Rightarrow> (Returned, r', w_inner rec, e''))
          else (Returned, r', w_inner rec, snd (st_release st key e')))"

definition run_recorded ::
    "'e idem_store \<Rightarrow> duration \<Rightarrow> 'e handler \<Rightarrow> string \<Rightarrow> http_request \<Rightarrow> writer \<Rightarrow> 'e \<Rightarrow>
     outcome \<times> http_request \<times> writer \<times> 'e" where
  "run_recorded st ttl next key r w e = settle st ttl key (next r (newResponseRecorder w) e)"

definition IdempotencyMiddleware ::
    "(string \<Rightarrow> bool) \<Rightarrow> (string \<Rightarrow> string) \<Rightarrow> 'e idem_store \<Rightarrow> duration \<Rightarrow> 'e handler \<Rightarrow> 'e handler" where
  "IdempotencyMiddleware uuid_ok sha256 st ttl next r w e =
     (let key = header_get HeaderIdempotencyKey (rq_header r);
          requestID = header_get ''X-Request-Id'' (rq_header r)
      in if key = '''' then next r w e
         else if \<not> uuid_ok key then
           (Returned, r, RespondWithError w 400 (simple_error ErrCodeIdempotencyKeyInvalid
              ''X-Idempotency-Key must be a valid UUID'' requestID), e)
         else
           (case rq_body r of
              BrokenBody err \<Rightarrow>
                (Returned, r, RespondWithError w 400 (simple_error ErrCodeInvalidJSON
                   ''Failed to read request body'' requestID), e)
            | Body body \<Rightarrow>
                (let r' = r\<lparr>rq_body := Body body\<rparr>;
                     requestHash = hex_encode (sha256 body)
                 in case st_reserve st key requestHash ttl e of
                      (Inl err, e') \<Rightarrow>
                        (Returned, r', RespondWithError w 500 (simple_error ErrCodeInternalError
                           ''Idempotency store unavailable'' requestID), e')
                    | (Inr (existing, created), e') \<Rightarrow>
                        if \<not> created then
                          (Returned, r', replayCachedResponse w existing requestHash requestID, e')
                        else run_recorded st ttl next key r' w e')))"

subsection \<open>What the recorder sees\<close>

text \<open>What a recorder has seen, against the connection below: \<open>pre\<close> was sent before it was put on.\<close>

primrec recorded :: "string \<Rightarrow> writer \<Rightarrow> bool" where
  "recorded pre (Conn c) \<longleftrightarrow> False"
| "recorded pre (StatusRecorder w st) \<longleftrightarrow> False"
| "recorded pre (ResponseRecorder w st b wrote) \<longleftrightarrow>
     coherent w \<and>
     c_status (w_conn w) = (if wrote then Some st else None) \<and>
     (\<not> wrote \<longrightarrow> st = 200 \<and> b = '''') \<and>
     c_body (w_conn w) = pre @ (if body_allowed st then b else '''')"

lemma recorded_new:
  "coherent w \<Longrightarrow> c_status (w_conn w) = None \<Longrightarrow> recorded (c_body (w_conn w)) (newResponseRecorder w)"
  by (simp add: newResponseRecorder_def)

lemma recorded_act: "recorded pre w \<Longrightarrow> recorded pre (w_act a w)"
  by (cases a; cases w)
    (auto simp: conn_write_header_def conn_write_def Let_def body_allowed_def split: if_splits)

lemma recorded_run: "recorded pre w \<Longrightarrow> recorded pre (w_run acts w)"
  unfolding w_run_def by (induction acts arbitrary: w) (auto simp: recorded_act)

lemma recorded_response:
  assumes "recorded pre rec"
  shows "coherent rec" "coherent (w_inner rec)" "w_conn (w_inner rec) = w_conn rec"
    "c_status (conn_finish (w_conn rec)) = Some (rec_status rec)"
    "c_body (conn_finish (w_conn rec)) = pre @ (if body_allowed (rec_status rec) then rec_body rec else '''')"
  using assms by (cases rec; auto simp: conn_finish_def conn_write_header_def)+

subsection \<open>What the middleware does, branch by branch\<close>

lemma is_hex_encode [simp]: "is_hex (hex_encode s)"
proof -
  have "is_digit (hex_digit n) \<or> in_range (CHR ''a'') (CHR ''f'') (hex_digit n)" if "n < 16" for n
    using that by (auto simp: hex_digit_def in_range_def of_char_of)
  moreover have "byte c div 16 < 16" "byte c mod 16 < 16" for c :: char
    using nat_of_char_less_256 [of c] by linarith+
  ultimately show ?thesis by (auto simp: hex_encode_def is_hex_def list_all_iff)
qed

definition request_hash :: "(string \<Rightarrow> string) \<Rightarrow> string \<Rightarrow> string" where
  "request_hash sha256 body = hex_encode (sha256 body)"

text \<open>A request the middleware deduplicates: a well-formed key and a body that can be read.\<close>

definition keyed :: "(string \<Rightarrow> bool) \<Rightarrow> http_request \<Rightarrow> string \<Rightarrow> string \<Rightarrow> bool" where
  "keyed uuid_ok r key body \<longleftrightarrow>
     header_get HeaderIdempotencyKey (rq_header r) = key \<and> key \<noteq> '''' \<and> uuid_ok key \<and>
     rq_body r = Body body"

definition store_unavailable :: "writer \<Rightarrow> http_request \<Rightarrow> writer" where
  "store_unavailable w r =
     RespondWithError w 500 (simple_error ErrCodeInternalError ''Idempotency store unavailable''
       (header_get ''X-Request-Id'' (rq_header r)))"

definition replay_to :: "writer \<Rightarrow> http_request \<Rightarrow> idempotency_record option \<Rightarrow> string \<Rightarrow> writer" where
  "replay_to w r existing h =
     replayCachedResponse w existing h (header_get ''X-Request-Id'' (rq_header r))"

lemma middleware_keyed:
  "keyed uuid_ok r key body \<Longrightarrow> IdempotencyMiddleware uuid_ok sha256 st ttl next r w e =
     (case st_reserve st key (request_hash sha256 body) ttl e of
        (Inl err, e') \<Rightarrow> (Returned, r, store_unavailable w r, e')
      | (Inr (existing, created), e') \<Rightarrow>
          if created then run_recorded st ttl next key r w e'
          else (Returned, r, replay_to w r existing (request_hash sha256 body), e'))"
  by (cases r)
    (auto simp: keyed_def IdempotencyMiddleware_def Let_def request_hash_def store_unavailable_def
      replay_to_def split: prod.split sum.split)

text \<open>A handler that leaves the records of the store alone.\<close>

definition keeps_records ::
    "('e \<Rightarrow> bool) \<Rightarrow> ('e \<Rightarrow> string \<Rightarrow> idempotency_record option) \<Rightarrow> 'e handler \<Rightarrow> bool" where
  "keeps_records good recs next \<longleftrightarrow>
     (\<forall>r w e. good e \<longrightarrow>
        good (snd (snd (snd (next r w e)))) \<and> recs (snd (snd (snd (next r w e)))) = recs e)"

text \<open>The call of the handler, as the recorder saw it.\<close>

definition handler_call ::
    "'e handler \<Rightarrow> http_request \<Rightarrow> writer \<Rightarrow> 'e \<Rightarrow> outcome \<times> http_request \<times> writer \<times> 'e" where
  "handler_call next r w e = next r (newResponseRecorder w) e"

lemma interface_handlerD:
  "interface_handler next \<Longrightarrow> \<exists>acts. fst (snd (snd (next r w e))) = w_run acts w"
  by (simp add: interface_handler_def)

lemma call_recorded:
  assumes "interface_handler next" "coherent w" "c_status (w_conn w) = None"
    and "handler_call next r w e = (out, r', rec, e')"
  shows "recorded (c_body (w_conn w)) rec"
proof -
  obtain acts where "fst (snd (snd (handler_call next r w e))) = w_run acts (newResponseRecorder w)"
    using interface_handlerD [OF assms(1)] unfolding handler_call_def by blast
  with assms show ?thesis by (simp add: recorded_run recorded_new)
qed

context idempotency_store
begin

text \<open>A request for a key that has a record never reaches the handler.\<close>

lemma existing_record:
  assumes "inv e" "keyed uuid_ok r key body" "view e key = Some rec"
    and "IdempotencyMiddleware uuid_ok sha256 st ttl next r w e = (out, r', w', e')"
  shows "out = Returned \<and> r' = r \<and> inv e' \<and> view e' = view e \<and>
    w' = (case fst (st_reserve st key (request_hash sha256 body) ttl e) of
       Inl err \<Rightarrow> store_unavailable w r
     | Inr p \<Rightarrow> replay_to w r (Some rec) (request_hash sha256 body))"
proof -
  let ?h = "request_hash sha256 body"
  obtain res e1 where res: "st_reserve st key ?h ttl e = (res, e1)" by fastforce
  have h: "is_hex ?h" by (simp add: request_hash_def)
  from assms(1) h res show ?thesis
    by (rule reserve_cases)
      (use assms(3,4) res middleware_keyed [OF assms(2), of sha256 st ttl "next" w e] in auto)
qed

text \<open>The first request for a key reserves it and runs the handler, unless the store fails.\<close>

lemma first_request:
  assumes "inv e" "keyed uuid_ok r key body" "view e key = None"
  obtains (failed) e' where
      "IdempotencyMiddleware uuid_ok sha256 st ttl next r w e = (Returned, r, store_unavailable w r, e')"
      "inv e'" "view e' = view e \<or> (\<exists>rec. reserved_by key (request_hash sha256 body) rec \<and>
         view e' = (view e)(key \<mapsto> rec))"
    | (reserved) rec e1 where "inv e1" "reserved_by key (request_hash sha256 body) rec"
      "view e1 = (view e)(key \<mapsto> rec)"
      "IdempotencyMiddleware uuid_ok sha256 st ttl next r w e = run_recorded st ttl next key r w e1"
proof -
  let ?h = "request_hash sha256 body"
  obtain res e1 where res: "st_reserve st key ?h ttl e = (res, e1)" by fastforce
  have h: "is_hex ?h" by (simp add: request_hash_def)
  note m = middleware_keyed [OF assms(2), of sha256 st ttl "next" w e, unfolded res]
  from assms(1) h res show ?thesis
  proof (rule reserve_cases)
    fix err assume "res = Inl err" "inv e1" "view e1 = view e"
    with m failed show ?thesis by auto
  next
    fix err rec assume "res = Inl err" "inv e1" "reserved_by key ?h rec" "view e1 = (view e)(key \<mapsto> rec)"
    with m failed [of e1] show ?thesis by auto
  next
    fix rec assume "res = Inr (Some rec, True)" "inv e1" "reserved_by key ?h rec"
      "view e1 = (view e)(key \<mapsto> rec)"
    with m reserved [of e1 rec] show ?thesis by auto
  next
    fix rec assume "res = Inr (Some rec, False)" "view e key = Some rec"
    with assms(3) show ?thesis by simp
  qed
qed

text \<open>
  What a reserved run leaves of its record: the response, completed; nothing, after a panic or
  an error of 500 and more; or the reservation, if the last call of the store failed.
\<close>

lemma run_recorded_outcomes:
  assumes "inv e" "view e key = Some rec" "in_flight rec"
    and "keeps_records inv view next"
    and call: "handler_call next r w e = (out, r', wr, e1)"
    and headers: "storable (capturedHeaders wr)" "go_int (rec_status wr)"
    and run: "run_recorded st ttl next key r w e = (out', r'', w', e')"
  shows "out' = out" "r'' = r'" "inv e'"
    "(out = Returned \<and> shouldCacheResponse (rec_status wr) \<and>
       (\<exists>rec'. completed_with (rec_status wr) (capturedHeaders wr) (rec_body wr) rec rec' \<and>
          view e' = (view e)(key \<mapsto> rec'))) \<or>
     ((out = Returned \<longrightarrow> \<not> shouldCacheResponse (rec_status wr)) \<and> view e' = (view e)(key := None)) \<or>
     (view e' = view e \<and>
        ((\<exists>err. fst (st_complete st key (rec_status wr) (capturedHeaders wr) (rec_body wr) ttl e1) = Inl err) \<or>
         (\<exists>err. fst (st_release st key e1) = Inl err)))"
proof -
  from assms(1,4) call have e1: "inv e1" "view e1 = view e"
    unfolding keeps_records_def handler_call_def
    by (metis snd_conv)+
  have run': "run_recorded st ttl next key r w e = settle st ttl key (out, r', wr, e1)"
    unfolding run_recorded_def call [unfolded handler_call_def] ..
  have rel: "inv (snd (st_release st key e1)) \<and>
     (view (snd (st_release st key e1)) = (view e)(key := None) \<or>
      view (snd (st_release st key e1)) = view e \<and> (\<exists>err. fst (st_release st key e1) = Inl err))"
    using release_ok [OF e1(1), of key] release_error [OF e1(1), of key] e1(2) assms(2,3)
    by (cases "st_release st key e1"; cases "fst (st_release st key e1)") auto
  show "out' = out" "r'' = r'"
    using run run' by (auto simp: settle_def split: outcome.splits if_splits prod.splits sum.splits)
  show "inv e'"
    using run run' rel inv_complete [OF e1(1) headers, of key "rec_body wr" ttl]
    by (auto simp: settle_def split: outcome.splits if_splits prod.splits sum.splits)
  show "(out = Returned \<and> shouldCacheResponse (rec_status wr) \<and>
       (\<exists>rec'. completed_with (rec_status wr) (capturedHeaders wr) (rec_body wr) rec rec' \<and>
          view e' = (view e)(key \<mapsto> rec'))) \<or>
     ((out = Returned \<longrightarrow> \<not> shouldCacheResponse (rec_status wr)) \<and> view e' = (view e)(key := None)) \<or>
     (view e' = view e \<and>
        ((\<exists>err. fst (st_complete st key (rec_status wr) (capturedHeaders wr) (rec_body wr) ttl e1) = Inl err) \<or>
         (\<exists>err. fst (st_release st key e1) = Inl err)))"
  proof (cases "out = Returned \<and> shouldCacheResponse (rec_status wr)")
    case True
    obtain cr e2 where c: "st_complete st key (rec_status wr) (capturedHeaders wr) (rec_body wr) ttl e1 = (cr, e2)"
      by fastforce
    with True run run' have "e' = e2" by (auto simp: settle_def split: sum.splits)
    with complete_ok [OF e1(1) headers, of key "rec_body wr" ttl]
      complete_error [OF e1(1) headers, of key "rec_body wr" ttl] c True e1(2) assms(2)
    show ?thesis by (cases cr) auto
  next
    case False
    with run run' have "e' = snd (st_release st key e1)" by (auto simp: settle_def split: outcome.splits)
    with rel False show ?thesis by auto
  qed
qed

end

subsection \<open>Header maps as the server keeps them\<close>

definition canonical_header :: "header \<Rightarrow> bool" where
  "canonical_header h \<longleftrightarrow> distinct (map fst h) \<and> (\<forall>(k, vs)\<in>set h. canonical_key k = k)"

lemma set_put: "x \<in> set (put k v m) \<Longrightarrow> x = (k, v) \<or> x \<in> set m"
  by (induction m) (auto split: if_splits)

lemma canonical_header_set: "canonical_header h \<Longrightarrow> canonical_header (header_set k v h)"
  by (auto simp: canonical_header_def header_set_def distinct_keys_put dest: set_put)

lemma conn_write_headers [simp]:
  "c_header (conn_write_header code c) = c_header c" "c_header (conn_write bs c) = c_header c"
  by (auto simp: conn_write_header_def conn_write_def Let_def split: option.split)

lemma canonical_run:
  "coherent w \<Longrightarrow> canonical_header (w_header w) \<Longrightarrow>
     coherent (w_run acts w) \<and> canonical_header (w_header (w_run acts w))"
proof (induction acts arbitrary: w)
  case (Cons a acts)
  then have "coherent (w_act a w)" "canonical_header (w_header (w_act a w))"
    by (cases a; simp add: w_header_def canonical_header_set)+
  from Cons.IH [OF this] show ?case by (simp add: w_run_def)
qed (simp add: w_run_def)

lemma captured_keys:
  assumes "canonical_header (w_header w)"
  shows "distinct (map fst (capturedHeaders w))"
    "(k, v) \<in> set (capturedHeaders w) \<Longrightarrow> canonical_key k = k"
proof -
  let ?f = "\<lambda>(k, vs). k \<notin> set skipped_headers \<and> vs \<noteq> []"
  have "capturedHeaders w = map (\<lambda>(k, vs). (k, hd vs)) (filter ?f (w_header w))"
  proof -
    have "[(k, hd vs). (k, vs) \<leftarrow> h, k \<notin> set skipped_headers \<and> vs \<noteq> []] =
        map (\<lambda>(k, vs). (k, hd vs)) (filter ?f h)" for h :: header
      by (induction h) auto
    then show ?thesis by (simp add: capturedHeaders_def)
  qed
  moreover have "distinct (map fst (filter ?f (w_header w)))"
    using assms by (auto simp: canonical_header_def distinct_map_filter)
  ultimately show "distinct (map fst (capturedHeaders w))"
    by (simp add: comp_def case_prod_beta)
  show "(k, v) \<in> set (capturedHeaders w) \<Longrightarrow> canonical_key k = k"
    using assms by (auto simp: capturedHeaders_def canonical_header_def split: if_splits)
qed

subsection \<open>The header loop of a replay\<close>

lemma set_headers_conn [simp]:
  "coherent w \<Longrightarrow> coherent (set_headers hs w)"
  "c_status (w_conn (set_headers hs w)) = c_status (w_conn w)"
  "c_body (w_conn (set_headers hs w)) = c_body (w_conn w)"
  unfolding set_headers_def by (induction hs arbitrary: w) auto

lemma set_headers_lookup:
  assumes "distinct (map fst hs)" "\<forall>(k, v)\<in>set hs. canonical_key k = k"
  shows "map_of (c_header (w_conn (set_headers hs w))) k =
    (case map_of hs k of Some v \<Rightarrow> Some [v] | None \<Rightarrow> map_of (c_header (w_conn w)) k)"
  using assms
proof (induction hs arbitrary: w)
  case (Cons p hs)
  obtain a v where p: "p = (a, v)" by (cases p)
  with Cons.prems have "map_of hs a = None" by (auto simp: map_of_eq_None_iff)
  with Cons p show ?case
    by (auto simp: set_headers_def header_set_def split: option.split)
qed (simp add: set_headers_def)

text \<open>The response a record that is not in flight is replayed as.\<close>

lemma replay_completed:
  assumes "\<not> in_flight rec" "ir_hash rec = h" "coherent w" "c_status (w_conn w) = None"
  shows "c_status (conn_finish (w_conn (replay_to w r (Some rec) h))) =
      Some (if ir_status rec = 0 then 200 else ir_status rec)"
    "c_body (conn_finish (w_conn (replay_to w r (Some rec) h))) =
      c_body (w_conn w) @
      (if body_allowed (if ir_status rec = 0 then 200 else ir_status rec) then ir_body rec else '''')"
    "c_sent (conn_finish (w_conn (replay_to w r (Some rec) h))) =
      header_set idempotencyReplayHeader ''true'' (c_header (w_conn (set_headers (ir_headers rec) w)))"
  using assms
  by (auto simp: replay_to_def replayCachedResponse_def Let_def conn_finish_def conn_write_def
      conn_write_header_def)

subsection \<open>The response of the first request, and of a retry\<close>

text \<open>A writer nothing was sent on; what the client has received when the handler has returned.\<close>

definition fresh_writer :: "writer \<Rightarrow> bool" where
  "fresh_writer w \<longleftrightarrow> coherent w \<and> c_status (w_conn w) = None \<and> c_body (w_conn w) = '''' \<and>
     canonical_header (w_header w)"

definition response_status :: "writer \<Rightarrow> int option" where
  "response_status w = c_status (conn_finish (w_conn w))"

definition response_body :: "writer \<Rightarrow> string" where
  "response_body w = c_body (conn_finish (w_conn w))"

definition response_header :: "string \<Rightarrow> writer \<Rightarrow> string" where
  "response_header k w = header_get k (c_sent (conn_finish (w_conn w)))"

lemma response_set_header [simp]:
  "response_status (w_set_header k v w) = response_status w"
  "response_body (w_set_header k v w) = response_body w"
  by (auto simp: response_status_def response_body_def conn_finish_def conn_write_header_def split: option.split)

lemma response_inner:
  assumes "recorded '''' wr"
  shows "response_status (w_inner wr) = Some (rec_status wr)"
    "response_body (w_inner wr) = (if body_allowed (rec_status wr) then rec_body wr else '''')"
  using recorded_response [OF assms] by (simp_all add: response_status_def response_body_def)

lemma inner_set_header:
  "recorded pre wr \<Longrightarrow> w_inner (w_set_header k v wr) = w_set_header k v (w_inner wr)"
  by (cases wr) auto

text \<open>The first client is sent what the recorder holds, also when it could not be stored.\<close>

lemma run_recorded_response:
  assumes "handler_call next r w e = (Returned, r', wr, e1)" "recorded '''' wr"
    and "run_recorded st ttl next key r w e = (out, r'', w', e')"
  shows "response_status w' = Some (rec_status wr)"
    "response_body w' = (if body_allowed (rec_status wr) then rec_body wr else '''')"
  using assms(1,3) response_inner [OF assms(2)] inner_set_header [OF assms(2)]
  by (auto simp: run_recorded_def settle_def handler_call_def split: if_splits prod.splits sum.splits)

text \<open>What the theorems ask of the handler's response: final status codes, headers that can be kept.\<close>

definition storable_response :: "((string, string) gomap \<Rightarrow> bool) \<Rightarrow> writer \<Rightarrow> bool" where
  "storable_response storable wr \<longleftrightarrow>
     storable (capturedHeaders wr) \<and> 200 \<le> rec_status wr \<and> rec_status wr \<le> 999"

definition storable_handler ::
    "((string, string) gomap \<Rightarrow> bool) \<Rightarrow> 'e handler \<Rightarrow> http_request \<Rightarrow> writer \<Rightarrow> bool" where
  "storable_handler storable next r w \<longleftrightarrow>
     (\<forall>e. storable_response storable (fst (snd (snd (handler_call next r w e)))))"

lemma storable_handlerD:
  "storable_handler storable next r w \<Longrightarrow> handler_call next r w e = (out, r', wr, e') \<Longrightarrow>
     storable (capturedHeaders wr) \<and> 200 \<le> rec_status wr \<and> rec_status wr \<le> 999 \<and>
     go_int (rec_status wr)"
  unfolding storable_handler_def storable_response_def go_int_def
  by (drule spec [of _ e]) simp

context idempotency_store
begin

text \<open>A completed record after the first request holds the response the client was sent.\<close>

lemma first_response:
  assumes "inv e" "view e key = None" "keyed uuid_ok r key body" "fresh_writer w"
    and "interface_handler next" "keeps_records inv view next" "storable_handler storable next r w"
    and "IdempotencyMiddleware uuid_ok sha256 st ttl next r w e = (out, r', w', e')"
    and "view e' key = Some rec" "completed rec"
  shows "inv e'" "ir_hash rec = request_hash sha256 body" "ir_key rec = key"
    "response_status w' = Some (ir_status rec)" "200 \<le> ir_status rec" "ir_status rec < 500"
    "response_body w' = (if body_allowed (ir_status rec) then ir_body rec else '''')"
    "canonical_header (map (\<lambda>(k, v). (k, [v])) (ir_headers rec))"
proof -
  have *: "inv e' \<and> ir_hash rec = request_hash sha256 body \<and> ir_key rec = key \<and>
    response_status w' = Some (ir_status rec) \<and> 200 \<le> ir_status rec \<and> ir_status rec < 500 \<and>
    response_body w' = (if body_allowed (ir_status rec) then ir_body rec else '''') \<and>
    canonical_header (map (\<lambda>(k, v). (k, [v])) (ir_headers rec))"
  proof (rule first_request [OF assms(1,3,2), of sha256 ttl "next" w])
    fix e1
    assume "IdempotencyMiddleware uuid_ok sha256 st ttl next r w e = (Returned, r, store_unavailable w r, e1)"
      and "view e1 = view e \<or> (\<exists>rec. reserved_by key (request_hash sha256 body) rec \<and>
         view e1 = (view e)(key \<mapsto> rec))"
    with assms(2,8-10) show ?thesis by (auto simp: reserved_by_def)
  next
    fix rec0 e1
    assume e1: "inv e1" "reserved_by key (request_hash sha256 body) rec0" "view e1 = (view e)(key \<mapsto> rec0)"
      and m: "IdempotencyMiddleware uuid_ok sha256 st ttl next r w e = run_recorded st ttl next key r w e1"
    from m assms(8) have run: "run_recorded st ttl next key r w e1 = (out, r', w', e')" by simp
    obtain o1 r1 wr e2 where call: "handler_call next r w e1 = (o1, r1, wr, e2)"
      by (cases "handler_call next r w e1")
    note sh = storable_handlerD [OF assms(7) call]
    have rd: "recorded '''' wr"
      using call_recorded [OF assms(5) _ _ call] assms(4) by (simp add: fresh_writer_def)
    have v: "view e1 key = Some rec0" "in_flight rec0" using e1 by (auto simp: reserved_by_def)
    note out = run_recorded_outcomes [OF e1(1) v assms(6) call _ _ run]
    have "o1 = Returned \<and> shouldCacheResponse (rec_status wr) \<and>
        completed_with (rec_status wr) (capturedHeaders wr) (rec_body wr) rec0 rec"
      using out(4) sh assms(9,10) v by auto
    then have o: "o1 = Returned" "shouldCacheResponse (rec_status wr)"
      and cw: "completed_with (rec_status wr) (capturedHeaders wr) (rec_body wr) rec0 rec" by auto
    have "canonical_header (w_header wr)"
    proof -
      obtain acts where "wr = w_run acts (newResponseRecorder w)"
        using interface_handlerD [OF assms(5), of r "newResponseRecorder w" e1] call
        by (auto simp: handler_call_def)
      then show ?thesis using canonical_run [of "newResponseRecorder w" acts] assms(4)
        by (auto simp: fresh_writer_def newResponseRecorder_def w_header_def)
    qed
    then have ck: "(k, v) \<in> set (capturedHeaders wr) \<Longrightarrow> canonical_key k = k" for k v
      by (rule captured_keys(2))
    from cw have mo: "map_of (ir_headers rec) = map_of (capturedHeaders wr)"
      "distinct (map fst (ir_headers rec))" by (auto simp: completed_with_def)
    have "canonical_key k = k" if "(k, v) \<in> set (ir_headers rec)" for k v
      using that mo ck [of k v] map_of_SomeD [of "capturedHeaders wr" k v] by (metis map_of_is_SomeI)
    then have "canonical_header (map (\<lambda>(k, v). (k, [v])) (ir_headers rec))"
      using mo(2) by (auto simp: canonical_header_def comp_def case_prod_beta)
    with run_recorded_response [OF call [unfolded o(1)] rd run] cw o sh out(3) e1(2)
    show ?thesis
      by (auto simp: completed_with_def shouldCacheResponse_def reserved_by_def split: if_splits)
  qed
  then show "inv e'" "ir_hash rec = request_hash sha256 body" "ir_key rec = key"
    "response_status w' = Some (ir_status rec)" "200 \<le> ir_status rec" "ir_status rec < 500"
    "response_body w' = (if body_allowed (ir_status rec) then ir_body rec else '''')"
    "canonical_header (map (\<lambda>(k, v). (k, [v])) (ir_headers rec))"
    by blast+
qed

text \<open>A retry is answered with that response, and no handler runs.\<close>

lemma retry_response:
  assumes "inv e" "view e key = None" "keyed uuid_ok r key body" "fresh_writer w"
    and "interface_handler next" "keeps_records inv view next" "storable_handler storable next r w"
    and first: "IdempotencyMiddleware uuid_ok sha256 st ttl next r w e = (out, r', w', e')"
    and "view e' key = Some rec" "completed rec"
    and "inv e2" "view e2 key = view e' key" "keyed uuid_ok r2 key body" "fresh_writer w2"
    and again: "IdempotencyMiddleware uuid_ok sha256 st ttl next2 r2 w2 e2 = (out2, r2', w2', e2')"
  shows "out2 = Returned" "view e2' = view e2" "inv e2'"
    "case fst (st_reserve st key (request_hash sha256 body) ttl e2) of
       Inl err \<Rightarrow> w2' = store_unavailable w2 r2
     | Inr p \<Rightarrow> response_status w2' = response_status w' \<and> response_body w2' = response_body w' \<and>
         response_header idempotencyReplayHeader w2' = ''true''"
proof -
  note fr = first_response [OF assms(1-10)]
  from assms(9,12) have v: "view e2 key = Some rec" by simp
  from existing_record [OF assms(11,13) v again] fr(2)
  have ex: "out2 = Returned \<and> inv e2' \<and> view e2' = view e2 \<and>
    w2' = (case fst (st_reserve st key (request_hash sha256 body) ttl e2) of
       Inl err \<Rightarrow> store_unavailable w2 r2 | Inr p \<Rightarrow> replay_to w2 r2 (Some rec) (ir_hash rec))" by (simp only: simp_thms)
  then show "out2 = Returned" "view e2' = view e2" "inv e2'" by auto
  have "coherent w2" "c_status (w_conn w2) = None" "c_body (w_conn w2) = ''''"
    using assms(14) by (auto simp: fresh_writer_def)
  moreover have "\<not> in_flight rec" using assms(10) by simp
  ultimately show "case fst (st_reserve st key (request_hash sha256 body) ttl e2) of
       Inl err \<Rightarrow> w2' = store_unavailable w2 r2
     | Inr p \<Rightarrow> response_status w2' = response_status w' \<and> response_body w2' = response_body w' \<and>
         response_header idempotencyReplayHeader w2' = ''true''"
    using replay_completed [of rec "ir_hash rec" w2 r2] fr ex
    by (auto simp: response_status_def response_body_def response_header_def split: if_splits sum.split)
qed

text \<open>
  \<open>Complete\<close> asks only whether the key has a record. When the caller's reservation has expired and
  another request holds the key, the response is kept under that request's hash.
\<close>

lemma late_completion:
  assumes "inv e" "view e key = Some rec" "storable (capturedHeaders wr)" "go_int (rec_status wr)"
    and "shouldCacheResponse (rec_status wr)" "settle st ttl key (Returned, r, wr, e) = (out, r', w', e')"
    and "\<nexists>err. fst (st_complete st key (rec_status wr) (capturedHeaders wr) (rec_body wr) ttl e) = Inl err"
  obtains rec' where "inv e'" "view e' = (view e)(key \<mapsto> rec')"
    "completed_with (rec_status wr) (capturedHeaders wr) (rec_body wr) rec rec'"
proof -
  obtain u e2 where c: "st_complete st key (rec_status wr) (capturedHeaders wr) (rec_body wr) ttl e = (Inr u, e2)"
    using assms(7) by (cases "st_complete st key (rec_status wr) (capturedHeaders wr) (rec_body wr) ttl e"; cases "fst (st_complete st key (rec_status wr) (capturedHeaders wr) (rec_body wr) ttl e)") auto
  with assms(5,6) have "e' = e2" by (simp add: settle_def)
  with complete_ok [OF assms(1,3,4) c] assms(2) that show thesis by auto
qed

end

end
