(* ===== verification/Idempotency_Protocol.thy ===== *)
theory Idempotency_Protocol
  imports Idempotency_Middleware
begin

text \<open>
  Any number of clients that send requests with the same idempotency key at the same time.
  Each runs the middleware in three steps, the calls of the store and of the handler being
  the points where requests interleave: reserve the key (or be answered), run the handler,
  settle the record. \<open>client_runs_middleware\<close> shows that a client which is not interrupted
  does what \<open>IdempotencyMiddleware\<close> does.
\<close>

subsection \<open>A client\<close>

record 'e endpoint =
  ep_store :: "'e idem_store"
  ep_sha :: "string \<Rightarrow> string"
  ep_ttl :: duration
  ep_handler :: "'e handler"
  ep_key :: string

datatype phase =
    Waiting
  | Reserved
  | Ran outcome http_request writer
  | Answered http_request writer
  | Settled outcome http_request writer writer

record client =
  cl_request :: http_request
  cl_writer :: writer
  cl_body :: string

definition client_step :: "'e endpoint \<Rightarrow> client \<Rightarrow> phase \<Rightarrow> 'e \<Rightarrow> phase \<times> 'e" where
  "client_step ep cl p e =
     (case p of
        Waiting \<Rightarrow>
          (let h = request_hash (ep_sha ep) (cl_body cl) in
           case st_reserve (ep_store ep) (ep_key ep) h (ep_ttl ep) e of
             (Inl err, e') \<Rightarrow> (Answered (cl_request cl) (store_unavailable (cl_writer cl) (cl_request cl)), e')
           | (Inr (existing, created), e') \<Rightarrow>
               if created then (Reserved, e')
               else (Answered (cl_request cl) (replay_to (cl_writer cl) (cl_request cl) existing h), e'))
      | Reserved \<Rightarrow>
          (case handler_call (ep_handler ep) (cl_request cl) (cl_writer cl) e of
             (out, r', rec, e') \<Rightarrow> (Ran out r' rec, e'))
      | Ran out r' rec \<Rightarrow>
          (case settle (ep_store ep) (ep_ttl ep) (ep_key ep) (out, r', rec, e) of
             (out', r'', w', e') \<Rightarrow> (Settled out' r'' rec w', e'))
      | Answered r' w' \<Rightarrow> (Answered r' w', e)
      | Settled out r' rec w' \<Rightarrow> (Settled out r' rec w', e))"

definition client_run :: "'e endpoint \<Rightarrow> client \<Rightarrow> 'e \<Rightarrow> phase \<times> 'e" where
  "client_run ep cl e =
     (let (p1, e1) = client_step ep cl Waiting e; (p2, e2) = client_step ep cl p1 e1
      in client_step ep cl p2 e2)"

text \<open>What the client was sent, once it is through.\<close>

definition phase_result :: "phase \<Rightarrow> (outcome \<times> http_request \<times> writer) option" where
  "phase_result p =
     (case p of
        Settled out r' rec w' \<Rightarrow> Some (out, r', w')
      | Answered r' w' \<Rightarrow> Some (Returned, r', w')
      | _ \<Rightarrow> None)"

lemma client_runs_middleware:
  assumes "keyed uuid_ok (cl_request cl) (ep_key ep) (cl_body cl)"
    and "IdempotencyMiddleware uuid_ok (ep_sha ep) (ep_store ep) (ep_ttl ep) (ep_handler ep)
      (cl_request cl) (cl_writer cl) e = (out, r', w', e')"
  shows "map_prod phase_result id (client_run ep cl e) = (Some (out, r', w'), e')"
  using assms(2) unfolding middleware_keyed [OF assms(1)]
  by (auto simp: client_run_def client_step_def phase_result_def run_recorded_def handler_call_def Let_def
      split: prod.splits sum.splits if_splits)

subsection \<open>The system\<close>

type_synonym 'e system = "'e \<times> (nat \<Rightarrow> phase)"

inductive idem_step :: "'e endpoint \<Rightarrow> (nat \<Rightarrow> client) \<Rightarrow> 'e system \<Rightarrow> 'e system \<Rightarrow> bool"
  for ep cls where
  "client_step ep (cls i) (ps i) e = (p, e') \<Longrightarrow> idem_step ep cls (e, ps) (e', ps(i := p))"

inductive_cases idem_stepE: "idem_step ep cls s s'"

inductive idem_reachable :: "'e endpoint \<Rightarrow> (nat \<Rightarrow> client) \<Rightarrow> 'e \<Rightarrow> 'e system \<Rightarrow> bool"
  for ep cls e0 where
  start: "idem_reachable ep cls e0 (e0, \<lambda>i. Waiting)"
| step: "idem_reachable ep cls e0 s \<Longrightarrow> idem_step ep cls s s' \<Longrightarrow> idem_reachable ep cls e0 s'"

text \<open>A client that holds the key, and one whose handler gave a response worth keeping.\<close>

definition active :: "phase \<Rightarrow> bool" where
  "active p \<longleftrightarrow> (case p of Reserved \<Rightarrow> True | Ran out r rec \<Rightarrow> True | _ \<Rightarrow> False)"

definition succeeded :: "phase \<Rightarrow> bool" where
  "succeeded p \<longleftrightarrow>
     (case p of
        Settled out r rec w \<Rightarrow> out = Returned \<and> shouldCacheResponse (rec_status rec)
      | _ \<Rightarrow> False)"

lemma phase_simps [simp]:
  "\<not> active Waiting" "active Reserved" "active (Ran out r rec)" "\<not> active (Answered r w)"
  "\<not> active (Settled out r rec w)"
  "\<not> succeeded Waiting" "\<not> succeeded Reserved" "\<not> succeeded (Ran out r rec)" "\<not> succeeded (Answered r w)"
  "succeeded (Settled out r rec w) \<longleftrightarrow> out = Returned \<and> shouldCacheResponse (rec_status rec)"
  by (simp_all add: active_def succeeded_def)

subsection \<open>At most one success\<close>

text \<open>
  The invariant, of the record of the key and the phases: at most one client holds the key, then
  the record is its reservation; once a client has succeeded no one holds the key
  again, and the record stays.
\<close>

definition exclusive :: "idempotency_record option \<Rightarrow> (nat \<Rightarrow> phase) \<Rightarrow> bool" where
  "exclusive ro ps \<longleftrightarrow>
     (\<forall>i j. active (ps i) \<and> active (ps j) \<longrightarrow> i = j) \<and>
     (\<forall>i j. succeeded (ps i) \<and> succeeded (ps j) \<longrightarrow> i = j) \<and>
     (\<forall>i j. succeeded (ps i) \<longrightarrow> \<not> active (ps j)) \<and>
     (\<forall>i. active (ps i) \<longrightarrow> (\<exists>rec. ro = Some rec \<and> in_flight rec)) \<and>
     (\<forall>i. succeeded (ps i) \<longrightarrow> ro \<noteq> None)"

text \<open>The writers that a handler has run on have responses the store can keep.\<close>

definition storable_run :: "((string, string) gomap \<Rightarrow> bool) \<Rightarrow> phase \<Rightarrow> bool" where
  "storable_run storable p \<longleftrightarrow>
     (case p of Ran out r rec \<Rightarrow> storable_response storable rec | _ \<Rightarrow> True)"

lemma exclusive_start: "exclusive ro (\<lambda>i. Waiting)"
  by (simp add: exclusive_def)

lemma exclusive_answered:
  assumes "exclusive ro ps" "ps i = Waiting" "ro' = ro \<or> ro = None"
  shows "exclusive ro' (ps(i := Answered r w))"
proof -
  have "active ((ps(i := Answered r w)) j) \<longleftrightarrow> active (ps j)"
    "succeeded ((ps(i := Answered r w)) j) \<longleftrightarrow> succeeded (ps j)" for j
    using assms(2) by auto
  then have "exclusive ro' (ps(i := Answered r w)) \<longleftrightarrow> exclusive ro' ps"
    by (simp only: exclusive_def)
  moreover have "exclusive ro' ps" using assms(3)
  proof
    assume "ro = None"
    with assms(1) have "\<not> active (ps j)" "\<not> succeeded (ps j)" for j
      unfolding exclusive_def by auto
    then show ?thesis by (simp add: exclusive_def)
  qed (use assms(1) in simp)
  ultimately show ?thesis by simp
qed

lemma exclusive_reserved:
  assumes "exclusive None ps" "in_flight rec"
  shows "exclusive (Some rec) (ps(i := Reserved))"
proof -
  have "\<not> active (ps j)" "\<not> succeeded (ps j)" for j
    using assms(1) unfolding exclusive_def by auto
  with assms(2) show ?thesis unfolding exclusive_def by (auto split: if_splits)
qed

text \<open>Settling a client gives the key up: no other one holds it then.\<close>

lemma exclusive_active:
  assumes "exclusive ro ps" "active (ps i)"
  shows "\<exists>rec. ro = Some rec \<and> in_flight rec" "\<not> succeeded (ps j)" "j \<noteq> i \<Longrightarrow> \<not> active (ps j)"
proof -
  note d = assms(1) [unfolded exclusive_def]
  show "\<exists>rec. ro = Some rec \<and> in_flight rec"
    by (rule d [THEN conjunct2, THEN conjunct2, THEN conjunct2, THEN conjunct1, rule_format, OF assms(2)])
  show "\<not> succeeded (ps j)"
    using d [THEN conjunct2, THEN conjunct2, THEN conjunct1, rule_format, of j i] assms(2) by blast
  show "j \<noteq> i \<Longrightarrow> \<not> active (ps j)"
    using d [THEN conjunct1, rule_format, of j i] assms(2) by blast
qed

lemma exclusive_settled:
  assumes "exclusive ro ps" "active (ps i)"
    and "succeeded (Settled out r rec w) \<longrightarrow> ro' \<noteq> None"
  shows "exclusive ro' (ps(i := Settled out r rec w))"
proof -
  have "\<not> active (ps j)" if "j \<noteq> i" for j using exclusive_active(3) [OF assms(1,2) that] .
  moreover have "\<not> succeeded (ps j)" for j using exclusive_active(2) [OF assms(1,2)] .
  ultimately show ?thesis using assms(3) unfolding exclusive_def by (auto split: if_splits)
qed

lemma exclusive_ran:
  assumes "exclusive ro ps" "ps i = Reserved"
  shows "exclusive ro (ps(i := Ran out r rec))"
proof -
  have act: "active (ps i)" using assms(2) by simp
  have "\<not> active (ps j)" if "j \<noteq> i" for j using exclusive_active(3) [OF assms(1) act that] .
  moreover have "\<not> succeeded (ps j)" for j using exclusive_active(2) [OF assms(1) act] .
  moreover note exclusive_active(1) [OF assms(1) act]
  ultimately show ?thesis unfolding exclusive_def by (auto split: if_splits)
qed

lemma exclusive_unchanged: "exclusive ro ps \<Longrightarrow> exclusive ro (ps(i := ps i))"
  by simp

context idempotency_store
begin

lemma settle_effect:
  assumes e: "inv e" and v: "view e key = Some rec0" "in_flight rec0"
    and sr: "storable_response storable rec"
    and s: "settle st ttl key (out, r', rec, e) = (out', r'', w', e')"
  shows "inv e'" "out' = out"
    "succeeded (Settled out' r'' rec w') \<Longrightarrow> view e' key \<noteq> None"
    "view e' = (view e)(key := view e' key)"
proof -
  have h: "storable (capturedHeaders rec)" "go_int (rec_status rec)"
    using sr by (auto simp: storable_response_def go_int_def)
  have rel: "inv (snd (st_release st key e)) \<and>
      (view (snd (st_release st key e)) = (view e)(key := None) \<or> view (snd (st_release st key e)) = view e)"
    using release_ok [OF e, of key] release_error [OF e, of key] v
    by (cases "st_release st key e"; cases "fst (st_release st key e)") auto
  obtain cr e2 where c: "st_complete st key (rec_status rec) (capturedHeaders rec) (rec_body rec) ttl e = (cr, e2)"
    by fastforce
  have com: "inv e2 \<and> (view e2 = view e \<or> (\<exists>r. view e2 = (view e)(key \<mapsto> r)))"
    using complete_ok [OF e h, of key "rec_body rec" ttl] complete_error [OF e h, of key "rec_body rec" ttl] c v
    by (cases cr) auto
  have "out' = out \<and> inv e' \<and> (succeeded (Settled out' r'' rec w') \<longrightarrow> view e' key \<noteq> None) \<and>
      view e' = (view e)(key := view e' key)"
  proof (cases "out = Returned \<and> shouldCacheResponse (rec_status rec)")
    case True
    with s c have "e' = e2" "out' = out" by (auto simp: settle_def split: sum.splits)
    with com v show ?thesis by (auto simp: fun_eq_iff)
  next
    case False
    with s have "e' = snd (st_release st key e)" "out' = out" by (auto simp: settle_def split: outcome.splits)
    with rel False show ?thesis by (auto simp: fun_eq_iff)
  qed
  then show "inv e'" "out' = out" "succeeded (Settled out' r'' rec w') \<Longrightarrow> view e' key \<noteq> None"
    "view e' = (view e)(key := view e' key)" by blast+
qed

text \<open>One step of one client.\<close>

lemma idem_step_invariant:
  assumes "inv e" "exclusive (view e key) ps" "\<forall>i. storable_run storable (ps i)"
    and "keeps_records inv view nxt"
    and "\<forall>i. storable_handler storable nxt (cl_request (cls i)) (cl_writer (cls i))"
    and step: "idem_step \<lparr>ep_store = st, ep_sha = sha256, ep_ttl = ttl, ep_handler = nxt, ep_key = key\<rparr> cls
      (e, ps) (e', ps')"
  shows "inv e' \<and> exclusive (view e' key) ps' \<and> (\<forall>i. storable_run storable (ps' i))"
proof -
  let ?ep = "\<lparr>ep_store = st, ep_sha = sha256, ep_ttl = ttl, ep_handler = nxt, ep_key = key\<rparr>"
  from step obtain i p where cs: "client_step ?ep (cls i) (ps i) e = (p, e')" and ps': "ps' = ps(i := p)"
    by (auto elim: idem_stepE)
  have *: "inv e' \<and> exclusive (view e' key) (ps(i := p)) \<and> storable_run storable p"
  proof (cases "ps i")
    case Waiting
    let ?h = "request_hash sha256 (cl_body (cls i))"
    obtain res e1 where res: "st_reserve st key ?h ttl e = (res, e1)" by fastforce
    have h: "is_hex ?h" by (simp add: request_hash_def)
    note cs' = cs [unfolded client_step_def Waiting, simplified, unfolded res Let_def, simplified]
    from assms(1) h res show ?thesis
    proof (rule reserve_cases)
      fix r assume r: "res = Inr (Some r, True)" "inv e1" "view e key = None"
        "reserved_by key ?h r" "view e1 = (view e)(key \<mapsto> r)"
      with cs' have "p = Reserved" "e' = e1" by auto
      with r assms(2) show ?thesis
        by (auto simp: reserved_by_def storable_run_def intro: exclusive_reserved)
    next
      fix r assume r: "res = Inr (Some r, False)" "inv e1" "view e key = Some r" "view e1 = view e"
      with cs' have "\<exists>r w. p = Answered r w" "e' = e1" by auto
      with r assms(2) Waiting show ?thesis
        by (auto simp: storable_run_def intro: exclusive_answered)
    next
      fix err assume r: "res = Inl err" "inv e1" "view e1 = view e"
      with cs' have "\<exists>r w. p = Answered r w" "e' = e1" by auto
      with r assms(2) Waiting show ?thesis
        by (auto simp: storable_run_def intro: exclusive_answered)
    next
      fix err r assume r: "res = Inl err" "inv e1" "view e key = None" "reserved_by key ?h r"
        "view e1 = (view e)(key \<mapsto> r)"
      with cs' have "\<exists>r w. p = Answered r w" "e' = e1" by auto
      with r assms(2) Waiting show ?thesis
        by (auto simp: storable_run_def intro: exclusive_answered [of None])
    qed
  next
    case Reserved
    obtain out r' rec e1 where call:
      "handler_call nxt (cl_request (cls i)) (cl_writer (cls i)) e = (out, r', rec, e1)"
      by (cases "handler_call nxt (cl_request (cls i)) (cl_writer (cls i)) e")
    with cs Reserved have p: "p = Ran out r' rec" "e' = e1" by (auto simp: client_step_def)
    have "inv e1 \<and> view e1 = view e"
      using assms(1,4) call unfolding keeps_records_def handler_call_def by (metis snd_conv)
    moreover have "storable_response storable rec"
      using assms(5) call unfolding storable_handler_def by (metis fst_conv snd_conv)
    ultimately show ?thesis
      using p assms(2) Reserved by (auto simp: storable_run_def intro: exclusive_ran)
  next
    case (Ran out r' rec)
    obtain out' r'' w' e1 where s: "settle st ttl key (out, r', rec, e) = (out', r'', w', e1)"
      by (cases "settle st ttl key (out, r', rec, e)")
    with cs Ran have p: "p = Settled out' r'' rec w'" "e' = e1" by (auto simp: client_step_def)
    have act: "active (ps i)" using Ran by simp
    from exclusive_active(1) [OF assms(2) act] obtain rec0 where v: "view e key = Some rec0" "in_flight rec0"
      by blast
    have "storable_response storable rec"
      using assms(3) [rule_format, of i] Ran by (simp add: storable_run_def)
    from settle_effect [OF assms(1) v this s] have "inv e1"
      "succeeded (Settled out' r'' rec w') \<longrightarrow> view e1 key \<noteq> None" by auto
    with exclusive_settled [OF assms(2) act] p show ?thesis by (simp add: storable_run_def)
  next
    case (Answered r' w')
    with cs have "p = ps i" "e' = e" by (auto simp: client_step_def)
    with assms(1-3) show ?thesis by simp
  next
    case (Settled out r' rec w')
    with cs have "p = ps i" "e' = e" by (auto simp: client_step_def)
    with assms(1-3) show ?thesis by simp
  qed
  with assms(3) show ?thesis unfolding ps' by simp
qed

theorem reachable_exclusive:
  assumes "idem_reachable \<lparr>ep_store = st, ep_sha = sha256, ep_ttl = ttl, ep_handler = nxt, ep_key = key\<rparr>
      cls e0 s"
    and "inv e0" "keeps_records inv view nxt"
    and "\<forall>i. storable_handler storable nxt (cl_request (cls i)) (cl_writer (cls i))"
  shows "inv (fst s) \<and> exclusive (view (fst s) key) (snd s) \<and> (\<forall>i. storable_run storable (snd s i))"
  using assms(1)
proof induction
  case start
  show ?case using assms(2) by (simp add: exclusive_start storable_run_def)
next
  case (step s s')
  then show ?case
    using idem_step_invariant [of "fst s" key "snd s" nxt cls sha256 ttl "fst s'" "snd s'"] assms(3,4)
    by simp
qed

end

end
