(* ===== verification/Idempotency_Properties.thy ===== *)
theory Idempotency_Properties
  imports Redis_Contract Idempotency_Protocol
begin

text \<open>
  The properties of the idempotency layer, stated over any store that keeps the contract of the
  port, and the refinement that gives them to the Redis store. A store that keeps the records in
  a map, and a small handler, serve to apply the statements to concrete input.
\<close>

subsection \<open>A store in a map\<close>

record idem_world = sim +
  iw_records :: "(string, idempotency_record) gomap"

definition map_reserve ::
    "string \<Rightarrow> string \<Rightarrow> duration \<Rightarrow> 'm idem_world_scheme \<Rightarrow>
     (goerr + idempotency_record option \<times> bool) \<times> 'm idem_world_scheme" where
  "map_reserve k h ttl s =
     (case map_of (iw_records s) k of
        Some r \<Rightarrow> (Inr (Some r, False), s)
      | None \<Rightarrow>
          (let r = \<lparr>ir_key = k, ir_state = IdempotencyStateInFlight, ir_hash = h, ir_status = 0,
                    ir_headers = [], ir_body = '''', ir_created = sim_time s,
                    ir_expires = sim_time s + ttl\<rparr>
           in (Inr (Some r, True), s\<lparr>iw_records := put k r (iw_records s)\<rparr>)))"

definition map_complete ::
    "string \<Rightarrow> int \<Rightarrow> (string, string) gomap \<Rightarrow> string \<Rightarrow> duration \<Rightarrow> 'm idem_world_scheme \<Rightarrow>
     (goerr + unit) \<times> 'm idem_world_scheme" where
  "map_complete k status hs body ttl s =
     (case map_of (iw_records s) k of
        None \<Rightarrow> (Inr (), s)
      | Some r \<Rightarrow>
          (Inr (), s\<lparr>iw_records := put k (r\<lparr>ir_state := IdempotencyStateCompleted, ir_status := status,
             ir_headers := hs, ir_body := body, ir_expires := sim_time s + ttl\<rparr>) (iw_records s)\<rparr>))"

definition map_release :: "string \<Rightarrow> 'm idem_world_scheme \<Rightarrow> (goerr + unit) \<times> 'm idem_world_scheme" where
  "map_release k s =
     (case map_of (iw_records s) k of
        None \<Rightarrow> (Inr (), s)
      | Some r \<Rightarrow>
          (Inr (), if in_flight r then s\<lparr>iw_records := AList.delete k (iw_records s)\<rparr> else s))"

definition map_store :: "('m idem_world_scheme) idem_store" where
  "map_store = \<lparr>st_reserve = map_reserve, st_complete = map_complete, st_release = map_release\<rparr>"

definition map_view :: "'m idem_world_scheme \<Rightarrow> string \<Rightarrow> idempotency_record option" where
  "map_view s = map_of (iw_records s)"

definition distinct_headers :: "(string, string) gomap \<Rightarrow> bool" where
  "distinct_headers hs \<longleftrightarrow> distinct (map fst hs)"

lemma map_completed_with:
  "distinct_headers hs \<Longrightarrow> completed_with status hs body r
     (r\<lparr>ir_state := IdempotencyStateCompleted, ir_status := status, ir_headers := hs,
        ir_body := body, ir_expires := x\<rparr>)"
  by (simp add: completed_with_def distinct_headers_def)

interpretation map_store: idempotency_store map_store map_view "\<lambda>s. True" distinct_headers
  by unfold_locales
    (auto simp: map_store_def map_reserve_def map_complete_def map_release_def map_view_def
      reserved_by_def delete_conv Let_def
      split: option.splits if_splits intro: map_completed_with, (metis map_completed_with)?)

definition empty_world :: idem_world where
  "empty_world = \<lparr>sim_time = 0, sim_ids = 0, sim_added = [], sim_points = [], sim_log = [],
     iw_records = []\<rparr>"

text \<open>A handler that answers 202 and leaves the world alone, a request with a key, a fresh writer.\<close>

definition accept_handler :: "'e handler" where
  "accept_handler r w e = (Returned, r, send_json w 202 (Some (JStr ''ok'')), e)"

text \<open>A handler that panics before it has written anything.\<close>

definition panic_handler :: "'e handler" where
  "panic_handler r w e = (Panicked ''boom'', r, w, e)"

definition keyed_request :: http_request where
  "keyed_request = \<lparr>rq_method = ''POST'', rq_path = ''/v1/provision'',
     rq_header = [(HeaderIdempotencyKey, [''k1''])], rq_body = Body ''{}'', rq_pattern = ''''\<rparr>"

definition new_writer :: writer where
  "new_writer = Conn new_conn"

lemma accept_interface: "interface_handler accept_handler"
  unfolding interface_handler_def accept_handler_def fst_conv snd_conv
  by (intro allI exI) (rule send_json_run)

lemma accept_keeps: "keeps_records good recs accept_handler"
  by (simp add: keeps_records_def accept_handler_def)

lemma new_writer_fresh: "fresh_writer new_writer"
  by (simp add: fresh_writer_def new_writer_def new_conn_def canonical_header_def w_header_def)

lemma accept_call:
  "handler_call accept_handler r new_writer e =
     (Returned, r, ResponseRecorder (send_json new_writer 202 (Some (JStr ''ok''))) 202
        (encode_line (JStr ''ok'')) True, e)"
  by (simp add: handler_call_def accept_handler_def newResponseRecorder_def send_json_def Let_def)

lemma canonical_key_simps [simp]:
  "canonical_key ''Content-Type'' = ''Content-Type''"
  "canonical_key ''X-Idempotency-Key'' = ''X-Idempotency-Key''"
  "canonical_key ''X-Idempotent-Cache'' = ''X-Idempotent-Cache''"
  "canonical_key ''X-Request-Id'' = ''X-Request-Id''"
  by code_simp+

lemma accept_captured:
  "capturedHeaders (ResponseRecorder (send_json new_writer 202 (Some j)) st b wrote) =
     [(''Content-Type'', ''application/json'')]"
  by (simp add: capturedHeaders_def w_header_def send_json_def Let_def new_writer_def new_conn_def
      conn_write_def conn_write_header_def header_set_def skipped_headers_def)

lemma accept_storable: "storable_handler distinct_headers accept_handler r new_writer"
  by (simp add: storable_handler_def storable_response_def accept_call accept_captured
      distinct_headers_def)

lemma keyed_request_keyed: "keyed (\<lambda>k. True) keyed_request ''k1'' ''{}''"
  by (simp add: keyed_def keyed_request_def HeaderIdempotencyKey_def header_get_def)

subsection \<open>Retries\<close>

lemma fresh_writer_json:
  assumes "fresh_writer v" "body_allowed code"
  shows "response_status (send_json v code (Some j)) = Some code"
proof -
  have "coherent v" "c_status (w_conn v) = None" using assms(1) by (auto simp: fresh_writer_def)
  from send_json_fresh [OF this assms(2)] show ?thesis by (simp add: response_status_def conn_finish_def)
qed

lemma store_unavailable_status: "fresh_writer w \<Longrightarrow> response_status (store_unavailable w r) = Some 500"
  by (simp add: store_unavailable_def RespondWithError_def fresh_writer_json body_allowed_def)

text \<open>C1: A retry of a request whose response was recorded is answered, without any handler and
  without a change of the records, with the status and the body the first client was sent, marked
  as a replay, whenever the store answers its \<open>Reserve\<close>, and with 500 when that fails.\<close>

theorem retry_same_response:
  assumes "idempotency_store st recs good storable"
    and "good e" "recs e key = None" "keyed uuid_ok r key body" "fresh_writer w"
    and "interface_handler nxt" "keeps_records good recs nxt" "storable_handler storable nxt r w"
    and "IdempotencyMiddleware uuid_ok sha256 st ttl nxt r w e = (out, r', w', e')"
    and "recs e' key = Some rec" "completed rec"
    and "good e2" "recs e2 key = recs e' key" "keyed uuid_ok r2 key body" "fresh_writer w2"
    and "IdempotencyMiddleware uuid_ok sha256 st ttl nxt2 r2 w2 e2 = (out2, r2', w2', e2')"
  shows "out2 = Returned \<and> recs e2' = recs e2 \<and>
    (case fst (st_reserve st key (request_hash sha256 body) ttl e2) of
       Inl err \<Rightarrow> response_status w2' = Some 500
     | Inr p \<Rightarrow> response_status w2' = response_status w' \<and> response_body w2' = response_body w' \<and>
         response_header idempotencyReplayHeader w2' = ''true'')"
  using idempotency_store.retry_response [OF assms] store_unavailable_status [OF assms(15)]
  by (auto split: sum.splits)

text \<open>The call of the middleware on the map store, step by step.\<close>

definition first_record :: "string \<Rightarrow> duration \<Rightarrow> idempotency_record" where
  "first_record h ttl =
     \<lparr>ir_key = ''k1'', ir_state = IdempotencyStateInFlight, ir_hash = h, ir_status = 0,
      ir_headers = [], ir_body = '''', ir_created = 0, ir_expires = ttl\<rparr>"

definition done_record :: "string \<Rightarrow> duration \<Rightarrow> idempotency_record" where
  "done_record h ttl = (first_record h ttl)\<lparr>ir_state := IdempotencyStateCompleted, ir_status := 202,
     ir_headers := [(''Content-Type'', ''application/json'')],
     ir_body := encode_line (JStr ''ok'')\<rparr>"

definition accepted_writer :: writer where
  "accepted_writer = send_json new_writer 202 (Some (JStr ''ok''))"

lemma reserve_first:
  "map_reserve ''k1'' h ttl empty_world =
     (Inr (Some (first_record h ttl), True), empty_world\<lparr>iw_records := [(''k1'', first_record h ttl)]\<rparr>)"
  by (simp add: map_reserve_def empty_world_def first_record_def Let_def)

lemma complete_first:
  "map_complete ''k1'' 202 [(''Content-Type'', ''application/json'')] (encode_line (JStr ''ok'')) ttl
     (empty_world\<lparr>iw_records := [(''k1'', first_record h ttl)]\<rparr>) =
   (Inr (), empty_world\<lparr>iw_records := [(''k1'', done_record h ttl)]\<rparr>)"
  by (simp add: map_complete_def empty_world_def first_record_def done_record_def)

lemma accept_first:
  "IdempotencyMiddleware (\<lambda>k. True) sha256 map_store ttl accept_handler keyed_request new_writer empty_world =
     (Returned, keyed_request, accepted_writer,
      empty_world\<lparr>iw_records := [(''k1'', done_record (request_hash sha256 ''{}'') ttl)]\<rparr>)"
  unfolding middleware_keyed [OF keyed_request_keyed]
  by (simp add: map_store_def reserve_first complete_first run_recorded_def
      accept_call [unfolded handler_call_def] settle_def shouldCacheResponse_def
      accept_captured accepted_writer_def)

theorem retry_same_response_witness:
  "\<exists>w2'. IdempotencyMiddleware (\<lambda>k. True) id map_store hour panic_handler keyed_request new_writer
      (empty_world\<lparr>iw_records := [(''k1'', done_record (request_hash id ''{}'') hour)]\<rparr>) =
      (Returned, keyed_request, w2',
       empty_world\<lparr>iw_records := [(''k1'', done_record (request_hash id ''{}'') hour)]\<rparr>) \<and>
    response_status w2' = Some 202 \<and> response_body w2' = encode_line (JStr ''ok'') \<and>
    response_header idempotencyReplayHeader w2' = ''true''"
proof -
  let ?e = "empty_world\<lparr>iw_records := [(''k1'', done_record (request_hash id ''{}'') hour)]\<rparr>"
  have v: "map_view ?e ''k1'' = Some (done_record (request_hash id ''{}'') hour)"
    "completed (done_record (request_hash id ''{}'') hour)" "map_view empty_world ''k1'' = None"
    by (simp_all add: map_view_def done_record_def empty_world_def)
  have again: "IdempotencyMiddleware (\<lambda>k. True) id map_store hour panic_handler keyed_request new_writer ?e =
      (Returned, keyed_request,
       replay_to new_writer keyed_request (Some (done_record (request_hash id ''{}'') hour)) (request_hash id ''{}''), ?e)"
    unfolding middleware_keyed [OF keyed_request_keyed]
    by (simp add: map_store_def map_reserve_def)
  have answers: "fst (st_reserve map_store ''k1'' (request_hash id ''{}'') hour ?e) =
      Inr (Some (done_record (request_hash id ''{}'') hour), False)"
    by (simp add: map_store_def map_reserve_def)
  have sent: "response_status accepted_writer = Some 202" "response_body accepted_writer = encode_line (JStr ''ok'')"
    by (simp_all add: accepted_writer_def response_status_def response_body_def send_json_def Let_def new_writer_def
        new_conn_def conn_write_def conn_write_header_def conn_finish_def body_allowed_def)
  show ?thesis
    using retry_same_response [OF map_store.idempotency_store_axioms TrueI v(3) keyed_request_keyed
        new_writer_fresh accept_interface accept_keeps accept_storable accept_first v(1,2)
        TrueI refl keyed_request_keyed new_writer_fresh again]
      again answers sent by auto
qed

subsection \<open>One execution among concurrent requests\<close>

text \<open>C2: However the requests with one key interleave, and whatever the store answers, at most one
  of them runs the handler to a response that is kept; while one holds the key no
  other does, and none holds it after a success.\<close>

theorem at_most_one_success:
  assumes "idempotency_store st recs good storable"
    and "idem_reachable \<lparr>ep_store = st, ep_sha = sha256, ep_ttl = ttl, ep_handler = nxt, ep_key = key\<rparr>
      cls e0 (e, ps)"
    and "good e0" "keeps_records good recs nxt"
    and "\<forall>i. storable_handler storable nxt (cl_request (cls i)) (cl_writer (cls i))"
  shows "(succeeded (ps i) \<and> succeeded (ps j) \<longrightarrow> i = j) \<and> (active (ps i) \<and> active (ps j) \<longrightarrow> i = j) \<and>
    (succeeded (ps i) \<longrightarrow> \<not> active (ps j) \<and> recs e key \<noteq> None)"
  using idempotency_store.reachable_exclusive [OF assms(1,2,3,4,5)]
  unfolding exclusive_def by auto

definition map_endpoint :: "idem_world endpoint" where
  "map_endpoint = \<lparr>ep_store = map_store, ep_sha = id, ep_ttl = hour, ep_handler = accept_handler,
     ep_key = ''k1''\<rparr>"

definition same_client :: client where
  "same_client = \<lparr>cl_request = keyed_request, cl_writer = new_writer, cl_body = ''{}''\<rparr>"

text \<open>One client reserves the key, a second one is turned away, the first runs and settles.\<close>

lemma two_clients_reachable:
  "\<exists>e ps. idem_reachable map_endpoint (\<lambda>i. same_client) empty_world (e, ps) \<and>
     succeeded (ps 0) \<and> (\<exists>r w. ps 1 = Answered r w)"
proof -
  let ?h = "request_hash id ''{}''"
  let ?r = "first_record ?h hour"
  let ?e1 = "empty_world\<lparr>iw_records := [(''k1'', ?r)]\<rparr>"
  let ?e2 = "empty_world\<lparr>iw_records := [(''k1'', done_record ?h hour)]\<rparr>"
  let ?rec = "ResponseRecorder (send_json new_writer 202 (Some (JStr ''ok''))) 202
      (encode_line (JStr ''ok'')) True"
  let ?turned = "Answered keyed_request (replay_to new_writer keyed_request (Some ?r) ?h)"
  let ?ps = "(\<lambda>i::nat. Waiting)(0 := Reserved, 1 := ?turned, 0 := Ran Returned keyed_request ?rec,
      0 := Settled Returned keyed_request ?rec accepted_writer)"
  note defs = map_endpoint_def same_client_def client_step_def map_store_def
  have 1: "client_step map_endpoint same_client Waiting empty_world = (Reserved, ?e1)"
    by (simp add: defs reserve_first)
  have 2: "client_step map_endpoint same_client Waiting ?e1 = (?turned, ?e1)"
    by (simp add: defs map_reserve_def first_record_def)
  have 3: "client_step map_endpoint same_client Reserved ?e1 = (Ran Returned keyed_request ?rec, ?e1)"
    by (simp add: defs accept_call)
  have 4: "client_step map_endpoint same_client (Ran Returned keyed_request ?rec) ?e1 =
      (Settled Returned keyed_request ?rec accepted_writer, ?e2)"
    by (simp add: defs settle_def shouldCacheResponse_def complete_first accept_captured
        accepted_writer_def)
  have "idem_reachable map_endpoint (\<lambda>i. same_client) empty_world (empty_world, \<lambda>i. Waiting)"
    by (rule start)
  then have "idem_reachable map_endpoint (\<lambda>i. same_client) empty_world (?e1, (\<lambda>i. Waiting)(0 := Reserved))"
    by (rule step) (auto intro: idem_step.intros simp: 1)
  then have "idem_reachable map_endpoint (\<lambda>i. same_client) empty_world
      (?e1, (\<lambda>i. Waiting)(0 := Reserved, 1 := ?turned))"
    by (rule step) (rule idem_step.intros, simp add: 2)
  then have "idem_reachable map_endpoint (\<lambda>i. same_client) empty_world
      (?e1, (\<lambda>i. Waiting)(0 := Reserved, 1 := ?turned, 0 := Ran Returned keyed_request ?rec))"
    by (rule step) (rule idem_step.intros, simp add: 3)
  then have "idem_reachable map_endpoint (\<lambda>i. same_client) empty_world (?e2, ?ps)"
    by (rule step) (rule idem_step.intros, simp add: 4)
  moreover have "succeeded (?ps 0) \<and> (\<exists>r w. ?ps 1 = Answered r w)"
    by (simp add: shouldCacheResponse_def)
  ultimately show ?thesis by blast
qed

theorem at_most_one_success_witness:
  "\<exists>e ps. idem_reachable map_endpoint (\<lambda>i. same_client) empty_world (e, ps) \<and> succeeded (ps 0) \<and>
     \<not> succeeded (ps 1) \<and> \<not> active (ps 1) \<and> map_view e ''k1'' \<noteq> None"
proof -
  obtain e ps where r: "idem_reachable map_endpoint (\<lambda>i. same_client) empty_world (e, ps)" "succeeded (ps 0)"
    using two_clients_reachable by blast
  note m = at_most_one_success [OF map_store.idempotency_store_axioms r(1) [unfolded map_endpoint_def]
      TrueI accept_keeps]
  have s: "\<forall>i. storable_handler distinct_headers accept_handler (cl_request same_client) (cl_writer same_client)"
    by (simp add: same_client_def accept_storable)
  from m [OF s, of 0 1] r show ?thesis by auto
qed

subsection \<open>One client alone\<close>

text \<open>A client that is not interrupted does what the middleware does as one call: the steps of
  the protocol, run one after the other, give the middleware's outcome, request, writer and state.\<close>

lemma steps_are_the_middleware:
  assumes "keyed uuid_ok (cl_request cl) (ep_key ep) (cl_body cl)"
  shows "map_prod phase_result id (client_run ep cl e) =
    (case IdempotencyMiddleware uuid_ok (ep_sha ep) (ep_store ep) (ep_ttl ep) (ep_handler ep)
        (cl_request cl) (cl_writer cl) e of
      (out, r', w', e') \<Rightarrow> (Some (out, r', w'), e'))"
  using client_runs_middleware [OF assms] by (simp split: prod.split)

subsection \<open>What becomes of a reservation\<close>

text \<open>C6: After the handler of a reserved key has run, the record is completed with what the
  recorder holds if the handler returned a status below 500, and gone if it panicked or returned
  500 and more, so that a retry runs again; the reservation stays only when the last call of the
  store failed.\<close>

theorem reservation_is_settled:
  assumes "idempotency_store st recs good storable"
    and "good e" "recs e key = Some rec" "in_flight rec" "keeps_records good recs nxt"
    and "handler_call nxt r w e = (out, r', wr, e1)"
    and "storable (capturedHeaders wr)" "go_int (rec_status wr)"
    and "run_recorded st ttl nxt key r w e = (out', r'', w', e')"
  shows "out' = out \<and> good e' \<and>
    ((out = Returned \<and> shouldCacheResponse (rec_status wr) \<and>
       (\<exists>rec'. completed_with (rec_status wr) (capturedHeaders wr) (rec_body wr) rec rec' \<and>
          recs e' = (recs e)(key \<mapsto> rec'))) \<or>
     ((out = Returned \<longrightarrow> \<not> shouldCacheResponse (rec_status wr)) \<and> recs e' = (recs e)(key := None)) \<or>
     (recs e' = recs e \<and>
        ((\<exists>err. fst (st_complete st key (rec_status wr) (capturedHeaders wr) (rec_body wr) ttl e1) = Inl err) \<or>
         (\<exists>err. fst (st_release st key e1) = Inl err))))"
  using idempotency_store.run_recorded_outcomes [OF assms] by blast

theorem reservation_is_settled_witness:
  "\<exists>w' e'. run_recorded map_store hour panic_handler ''k1'' keyed_request new_writer
      (empty_world\<lparr>iw_records := [(''k1'', first_record ''00'' hour)]\<rparr>) = (Panicked ''boom'', keyed_request, w', e') \<and>
    map_view e' ''k1'' = None"
proof -
  let ?e = "empty_world\<lparr>iw_records := [(''k1'', first_record ''00'' hour)]\<rparr>"
  have v: "map_view ?e ''k1'' = Some (first_record ''00'' hour)" "in_flight (first_record ''00'' hour)"
    by (simp_all add: map_view_def first_record_def)
  have k: "keeps_records (\<lambda>s. True) map_view panic_handler"
    by (simp add: keeps_records_def panic_handler_def)
  have call: "handler_call panic_handler keyed_request new_writer ?e =
      (Panicked ''boom'', keyed_request, newResponseRecorder new_writer, ?e)"
    by (simp add: handler_call_def panic_handler_def)
  have h: "distinct_headers (capturedHeaders (newResponseRecorder new_writer))"
    "go_int (rec_status (newResponseRecorder new_writer))"
    by (simp_all add: distinct_headers_def capturedHeaders_def newResponseRecorder_def new_writer_def
        new_conn_def w_header_def go_int_def)
  obtain w' e' where run: "run_recorded map_store hour panic_handler ''k1'' keyed_request new_writer ?e =
      (Panicked ''boom'', keyed_request, w', e')"
    by (simp add: run_recorded_def settle_def panic_handler_def)
  have ok: "\<nexists>err. fst (st_release map_store ''k1'' ?e) = Inl err"
    by (simp add: map_store_def map_release_def)
  have "map_view e' ''k1'' = None"
    using reservation_is_settled [OF map_store.idempotency_store_axioms TrueI v k call h run] ok
    by (auto simp: map_store_def map_complete_def)
  with run show ?thesis by blast
qed

subsection \<open>Conflicts\<close>

lemma replay_status:
  assumes "fresh_writer w"
  shows "response_status (replay_to w r (Some rec) h) =
    (if ir_hash rec \<noteq> h then Some 422 else if in_flight rec then Some 409
     else Some (if ir_status rec = 0 then 200 else ir_status rec))"
proof (cases "ir_hash rec = h \<and> \<not> in_flight rec")
  case True
  have "coherent w" "c_status (w_conn w) = None" using assms by (auto simp: fresh_writer_def)
  with True replay_completed(1) [of rec h w r] show ?thesis by (simp add: response_status_def)
next
  case False
  have "fresh_writer (w_set_header ''Retry-After'' ''1'' w)"
    using assms canonical_header_set by (auto simp: fresh_writer_def w_header_def)
  with assms False show ?thesis
    by (auto simp: replay_to_def replayCachedResponse_def RespondWithError_def fresh_writer_json body_allowed_def)
qed

text \<open>C10: A request for a key that has a record is answered without a handler. When the store's
  \<open>Reserve\<close> fails that is 500; else it is 422 when the body is another one, 409 with
  \<open>Retry-After: 1\<close> while the first request is being processed, and the recorded status after it.\<close>

theorem conflicting_requests:
  assumes "idempotency_store st recs good storable"
    and "good e" "keyed uuid_ok r key body" "recs e key = Some rec" "fresh_writer w"
    and "IdempotencyMiddleware uuid_ok sha256 st ttl nxt r w e = (out, r', w', e')"
  shows "out = Returned \<and> recs e' = recs e \<and>
    (case fst (st_reserve st key (request_hash sha256 body) ttl e) of
       Inl err \<Rightarrow> response_status w' = Some 500
     | Inr p \<Rightarrow>
         if ir_hash rec \<noteq> request_hash sha256 body then response_status w' = Some 422
         else if in_flight rec then response_status w' = Some 409 \<and> response_header ''Retry-After'' w' = ''1''
         else response_status w' = Some (if ir_status rec = 0 then 200 else ir_status rec))"
proof -
  have w: "coherent w" "c_status (w_conn w) = None" using assms(5) by (auto simp: fresh_writer_def)
  have sent: "c_sent (conn_finish (w_conn (send_json v 409 (Some j)))) =
      header_set ''Content-Type'' ''application/json'' (c_header (w_conn v))"
    if "coherent v" "c_status (w_conn v) = None" for v j
    using send_json_fresh [of v 409 j] that by (simp add: conn_finish_def body_allowed_def)
  have retry: "response_header ''Retry-After'' (replay_to w r (Some rec) h) = ''1''"
    if "ir_hash rec = h" "in_flight rec" for h
  proof -
    have "canonical_key ''Content-Type'' \<noteq> canonical_key ''Retry-After''" by code_simp
    with that w show ?thesis
      by (simp add: replay_to_def replayCachedResponse_def RespondWithError_def response_header_def sent
          header_get_set)
  qed
  show ?thesis
    using idempotency_store.existing_record [OF assms(1-4,6)] retry replay_status [OF assms(5), of r rec]
      store_unavailable_status [OF assms(5), of r]
    by (auto split: sum.split)
qed

theorem conflicting_requests_witness:
  "\<exists>w' e'. IdempotencyMiddleware (\<lambda>k. True) id map_store hour accept_handler keyed_request new_writer
      (empty_world\<lparr>iw_records := [(''k1'', first_record ''other'' hour)]\<rparr>) =
      (Returned, keyed_request, w', e') \<and> response_status w' = Some 422"
proof -
  let ?e = "empty_world\<lparr>iw_records := [(''k1'', first_record ''other'' hour)]\<rparr>"
  have v: "map_view ?e ''k1'' = Some (first_record ''other'' hour)" by (simp add: map_view_def)
  have run: "IdempotencyMiddleware (\<lambda>k. True) id map_store hour accept_handler keyed_request new_writer ?e =
      (Returned, keyed_request,
       replay_to new_writer keyed_request (Some (first_record ''other'' hour)) (request_hash id ''{}''), ?e)"
    unfolding middleware_keyed [OF keyed_request_keyed]
    by (simp add: map_store_def map_reserve_def)
  have h: "request_hash id ''{}'' = ''7b7d''" by code_simp
  have "fst (st_reserve map_store ''k1'' (request_hash id ''{}'') hour ?e) = Inr (Some (first_record ''other'' hour), False)"
    by (simp add: map_store_def map_reserve_def)
  with conflicting_requests [OF map_store.idempotency_store_axioms TrueI keyed_request_keyed v
      new_writer_fresh run] h run
  show ?thesis by (auto simp: first_record_def)
qed

subsection \<open>A failed completion\<close>

text \<open>C11: The header \<open>X-Idempotent-Cache\<close>, set when the response could not be stored, does not
  reach a client whose response the handler has begun to write: status, headers and body sent are
  those of the handler.\<close>

theorem store_failed_header_not_sent:
  assumes "coherent wr" "c_status (w_conn wr) = Some code"
    and "out = Returned" "shouldCacheResponse (rec_status wr)"
    and "settle st ttl key (out, r', wr, e) = (out', r'', w', e')"
  shows "c_sent (w_conn w') = c_sent (w_conn wr) \<and> c_status (w_conn w') = Some code \<and>
    c_body (w_conn w') = c_body (w_conn wr)"
proof -
  have "w_conn (w_inner v) = w_conn v" for v by (cases v) auto
  with assms show ?thesis
    by (auto simp: settle_def split: sum.splits prod.splits)
qed

text \<open>A store whose \<open>Complete\<close> fails.\<close>

definition failing_store :: "unit idem_store" where
  "failing_store = \<lparr>st_reserve = (\<lambda>k h ttl e. (Inl (Opaque ''down''), e)),
     st_complete = (\<lambda>k s hs b ttl e. (Inl (Opaque ''down''), e)),
     st_release = (\<lambda>k e. (Inl (Opaque ''down''), e))\<rparr>"

theorem store_failed_header_not_sent_witness:
  "\<exists>w'. settle failing_store hour ''k1''
      (Returned, keyed_request, ResponseRecorder accepted_writer 202 (encode_line (JStr ''ok'')) True, ()) =
      (Returned, keyed_request, w', ()) \<and>
    c_sent (w_conn w') = c_sent (w_conn accepted_writer) \<and>
    w_header w' \<noteq> w_header accepted_writer"
proof -
  let ?wr = "ResponseRecorder accepted_writer 202 (encode_line (JStr ''ok'')) True"
  let ?w = "w_set_header idempotencyCacheHeader ''store-failed'' accepted_writer"
  have run: "settle failing_store hour ''k1'' (Returned, keyed_request, ?wr, ()) = (Returned, keyed_request, ?w, ())"
    by (simp add: settle_def failing_store_def shouldCacheResponse_def)
  have s: "c_status (w_conn accepted_writer) = Some 202"
    by (simp add: accepted_writer_def send_json_def Let_def new_writer_def new_conn_def
        conn_write_def conn_write_header_def)
  have c: "coherent ?wr" using s by (simp add: accepted_writer_def new_writer_def)
  have d: "w_header ?w \<noteq> w_header accepted_writer"
    by (simp add: w_header_def accepted_writer_def send_json_def Let_def new_writer_def new_conn_def
        conn_write_def conn_write_header_def header_set_def idempotencyCacheHeader_def)
  show ?thesis
    using store_failed_header_not_sent [OF c _ refl _ run] s run d
    by (auto simp: shouldCacheResponse_def)
qed

subsection \<open>The Redis store\<close>

context redis
begin

lemma refines_port: "idempotency_store (redis_store rc cmd clk) view inv unmarked_headers"
  by (rule idempotency_store_axioms)

end

text \<open>C7: Over Redis as documented and a stretch without expiry, the Redis store is an idempotency
  store: \<open>Reserve\<close>, \<open>Complete\<close> and \<open>Release\<close> change the records, read off the database through
  the JSON envelopes, as the port promises, and keep every record readable.\<close>

theorem redis_store_refines_port:
  assumes "redis rc cmd db"
  shows "idempotency_store (redis_store rc cmd clk) (\<lambda>s. record_at (db s)) (\<lambda>s. records_ok (db s))
    unmarked_headers"
  by (rule redis.refines_port [OF assms])

theorem redis_store_refines_port_witness:
  "idempotency_store mem_store (\<lambda>s :: mem_world. record_at (map_of (mem_db s)))
     (\<lambda>s. records_ok (map_of (mem_db s))) unmarked_headers"
  unfolding mem_store_def by (rule redis_store_refines_port [OF mem.redis_axioms])

text \<open>C8: The text a record is kept as is read back as the same record, with its header map in key
  order, for every envelope the store writes: an ASCII state, a hexadecimal hash, a status in the
  range of Go's \<open>int\<close>, headers in UTF-8 and time stamps in the years 0 to 9999.\<close>

theorem envelope_roundtrip:
  assumes "is_ascii (env_state env)" "is_hex (env_hash env)" "go_int (env_status env)"
    and "utf8_map (env_headers env)" "marshal_envelope env = Inr raw"
  shows "unmarshal_envelope raw = Inr (env\<lparr>env_headers := sort_keys (env_headers env)\<rparr>)"
  using unmarshal_marshal [of env raw] assms
  by (simp add: wf_envelope_def sorted_envelope_def)

definition sample_envelope :: record_envelope where
  "sample_envelope = (reservation_envelope ''00ff'' 0 second)"

lemma sample_marshals: "\<exists>raw. marshal_envelope sample_envelope = Inr raw"
proof -
  have "format_rfc3339 0 \<noteq> None" "format_rfc3339 second \<noteq> None" by code_simp+
  then show ?thesis
    by (auto simp: sample_envelope_def marshal_envelope_def reservation_envelope_def)
qed

theorem envelope_roundtrip_witness:
  "\<exists>raw. marshal_envelope sample_envelope = Inr raw \<and> unmarshal_envelope raw = Inr sample_envelope"
proof -
  obtain raw where m: "marshal_envelope sample_envelope = Inr raw" using sample_marshals ..
  have "is_ascii (env_state sample_envelope)" "is_hex (env_hash sample_envelope)"
    "go_int (env_status sample_envelope)" "utf8_map (env_headers sample_envelope)"
    by (simp_all add: sample_envelope_def reservation_envelope_def IdempotencyStateInFlight_def is_hex_def
        go_int_def utf8_map_def in_range_def)
  from envelope_roundtrip [OF this m] m show ?thesis
    by (auto simp: sample_envelope_def reservation_envelope_def)
qed

text \<open>C9: The release script deletes a record of the store exactly when the record is in flight, or
  one of its captured headers carries the text it searches for: a key or a value that is
  \<open>IN_FLIGHT\<close>, or ends in \<open>IN_FLIGHT\<close> behind a quote. Such a header makes it delete a
  completed record too.\<close>

theorem release_deletes_iff:
  assumes "wf_envelope env" "marshal_envelope env = Inr raw"
    and "env_state env \<in> {IdempotencyStateInFlight, IdempotencyStateCompleted}"
    and "c_get cmd key s = Some raw"
  shows "release_script cmd key s =
    (if env_state env = IdempotencyStateInFlight \<or>
        (\<exists>(k, v)\<in>set (env_headers env). \<exists>x\<in>{k, v}.
           x = ''IN_FLIGHT'' \<or> (\<exists>z. x = z @ [CHR 0x22] @ ''IN_FLIGHT''))
     then (Inr 1, c_del cmd key s) else (Inr 0, s))"
proof -
  have m: "masks x \<longleftrightarrow> x = ''IN_FLIGHT'' \<or> (\<exists>z. x = z @ [CHR 0x22] @ ''IN_FLIGHT'')" for x
    by (simp add: masks_cases)
  have "contains in_flight_marker raw \<longleftrightarrow>
      env_state env = IdempotencyStateInFlight \<or> (\<exists>(k, v)\<in>set (env_headers env). masks k \<or> masks v)"
    using marker_in_envelope [OF assms(1,2)] assms(3) by auto
  then show ?thesis
    unfolding release_script_def assms(4) by (simp add: m split_beta)
qed

text \<open>A completed record with a header \<open>X-State: IN_FLIGHT\<close>.\<close>

definition marked_envelope :: record_envelope where
  "marked_envelope = \<lparr>env_state = IdempotencyStateCompleted, env_hash = ''00ff'', env_status = 202,
     env_headers = [(''X-State'', ''IN_FLIGHT'')], env_body = ''ok'', env_created = 0,
     env_expires = second\<rparr>"

theorem release_deletes_iff_witness:
  "\<exists>raw. marshal_envelope marked_envelope = Inr raw \<and>
     release_script mem_commands ''k''
       \<lparr>sim_time = 0, sim_ids = 0, sim_added = [], sim_points = [], sim_log = [], mem_db = [(''k'', raw)]\<rparr> =
     (Inr 1, \<lparr>sim_time = 0, sim_ids = 0, sim_added = [], sim_points = [], sim_log = [], mem_db = []\<rparr>)"
proof -
  have "format_rfc3339 0 \<noteq> None" "format_rfc3339 second \<noteq> None" by code_simp+
  then obtain raw where m: "marshal_envelope marked_envelope = Inr raw"
    by (auto simp: marked_envelope_def marshal_envelope_def)
  have wf: "wf_envelope marked_envelope"
    by (simp add: wf_envelope_def marked_envelope_def IdempotencyStateCompleted_def is_hex_def
        go_int_def utf8_map_def in_range_def valid_utf8_ascii is_ascii_def is_ascii_byte_def)
  have s: "env_state marked_envelope \<in> {IdempotencyStateInFlight, IdempotencyStateCompleted}"
    by (simp add: marked_envelope_def)
  let ?s = "\<lparr>sim_time = 0, sim_ids = 0, sim_added = [], sim_points = [], sim_log = [], mem_db = [(''k'', raw)]\<rparr>"
  have g: "c_get mem_commands ''k'' ?s = Some raw" by (simp add: mem_commands_def)
  from release_deletes_iff [OF wf m s g] m show ?thesis
    by (simp add: marked_envelope_def mem_commands_def)
qed

text \<open>C12: \<open>Complete\<close> does not look at who holds the key. When a slow request's reservation has expired and
  a request with another body has reserved the key since, the completion of the slow one turns that
  reservation into its own response: a retry with the other body is then answered, as a replay, with
  the response to a body it never sent, although its own handler may still be running, and a retry
  of the slow request itself is refused with 422.\<close>

theorem late_completion_answers_another:
  assumes "redis rc cmd db" "records_ok (db s)" "record_at (db s) key = Some rec"
    and "reserved_by key (request_hash sha256 other) rec" "request_hash sha256 own \<noteq> request_hash sha256 other"
    and "keyed uuid_ok r key own" "unmarked_headers (capturedHeaders wr)" "200 \<le> rec_status wr" "rec_status wr < 500"
    and "settle (redis_store rc cmd clk) ttl key (Returned, r, wr, s) = (out, r', w', s')"
    and "fst (redis_complete rc cmd (clk s) key (rec_status wr) (capturedHeaders wr) (rec_body wr) ttl s) = Inr ()"
    and "keyed uuid_ok r2 key body" "fresh_writer w2"
    and "IdempotencyMiddleware uuid_ok sha256 (redis_store rc cmd clk) ttl nxt r2 w2 s' = (out2, r2', w2', s2)"
    and "fst (redis_reserve rc (clk s') key (request_hash sha256 body) ttl s') = Inr p"
  shows "(body = other \<longrightarrow> response_status w2' = Some (rec_status wr) \<and>
      response_body w2' = (if body_allowed (rec_status wr) then rec_body wr else '''') \<and>
      response_header idempotencyReplayHeader w2' = ''true'') \<and>
    (body = own \<longrightarrow> response_status w2' = Some 422)"
proof -
  let ?st = "redis_store rc cmd clk"
  note store = redis.refines_port [OF assms(1), of clk]
  have stored: "\<nexists>err. fst (st_complete ?st key (rec_status wr) (capturedHeaders wr) (rec_body wr) ttl s) = Inl err"
    using assms(11) by (simp add: redis_store_def)
  have status: "go_int (rec_status wr)" "shouldCacheResponse (rec_status wr)"
    using assms(8,9) by (auto simp: go_int_def shouldCacheResponse_def)
  obtain rec' where rec': "records_ok (db s')" "record_at (db s') = (record_at (db s))(key \<mapsto> rec')"
    "completed_with (rec_status wr) (capturedHeaders wr) (rec_body wr) rec rec'"
    using idempotency_store.late_completion [OF store assms(2,3,7) status assms(10) stored] by metis
  have at: "record_at (db s') key = Some rec'" using rec'(2) by simp
  have kept: "ir_hash rec' = request_hash sha256 other" "\<not> in_flight rec'" "ir_status rec' = rec_status wr"
    "ir_body rec' = rec_body wr"
    using rec'(3) assms(4) by (auto simp: completed_with_def reserved_by_def)
  have w2: "coherent w2" "c_status (w_conn w2) = None" "c_body (w_conn w2) = ''''"
    using assms(13) by (auto simp: fresh_writer_def)
  have "w2' = replay_to w2 r2 (Some rec') (request_hash sha256 body)"
    using idempotency_store.existing_record [OF store rec'(1) assms(12) at assms(14)] assms(15)
    by (simp add: redis_store_def)
  then show ?thesis
    using replay_completed [OF kept(2,1) w2(1,2), of r2] replay_status [OF assms(13), of r2 rec'] kept w2(3) assms(5,8)
    by (auto simp: response_status_def response_body_def response_header_def)
qed

text \<open>The key \<open>k1\<close> is reserved for the body \<open>{}\<close> when the response to the body \<open>[]\<close> is completed.\<close>

definition held_envelope :: record_envelope where
  "held_envelope = reservation_envelope (request_hash id ''{}'') 0 second"

definition held_world :: "string \<Rightarrow> mem_world" where
  "held_world raw = \<lparr>sim_time = 0, sim_ids = 0, sim_added = [], sim_points = [], sim_log = [],
     mem_db = [(keyPrefix @ ''k1'', raw)]\<rparr>"

abbreviation slow_response :: writer where
  "slow_response \<equiv> ResponseRecorder accepted_writer 202 (encode_line (JStr ''ok'')) True"

theorem late_completion_answers_another_witness:
  "\<exists>raw s' w2' s2. marshal_envelope held_envelope = Inr raw \<and>
     settle mem_store second ''k1'' (Returned, keyed_request\<lparr>rq_body := Body ''[]''\<rparr>, slow_response, held_world raw) =
       (Returned, keyed_request\<lparr>rq_body := Body ''[]''\<rparr>, accepted_writer, s') \<and>
     IdempotencyMiddleware (\<lambda>k. True) id mem_store second panic_handler keyed_request new_writer s' =
       (Returned, keyed_request, w2', s2) \<and>
     response_status w2' = Some 202 \<and> response_body w2' = encode_line (JStr ''ok'') \<and>
     response_header idempotencyReplayHeader w2' = ''true''"
proof -
  let ?own = "keyed_request\<lparr>rq_body := Body ''[]''\<rparr>" and ?key = "keyPrefix @ ''k1''"
  let ?h = "request_hash id ''{}''" and ?hs = "[(''Content-Type'', ''application/json'')]" and ?b = "encode_line (JStr ''ok'')"
  have times: "format_rfc3339 0 \<noteq> None" "format_rfc3339 second \<noteq> None" by code_simp+
  then obtain raw where m: "marshal_envelope held_envelope = Inr raw"
    by (auto simp: held_envelope_def marshal_envelope_def reservation_envelope_def)
  let ?s = "held_world raw" and ?rec = "record_of_envelope ''k1'' held_envelope"
  have hash: "is_hex ?h" "request_hash id ''[]'' \<noteq> ?h" by (simp_all add: request_hash_def) code_simp
  have st: "stored_envelope held_envelope raw"
    using stored_reservation [of ?h 0 second raw] m hash(1) by (simp add: held_envelope_def)
  have ok: "records_ok (map_of (mem_db ?s))" using st by (auto simp: records_ok_def held_world_def)
  have same: "sorted_envelope held_envelope = held_envelope"
    by (simp add: sorted_envelope_def held_envelope_def reservation_envelope_def)
  have at: "record_at (map_of (mem_db ?s)) ''k1'' = Some ?rec"
    using stored_unmarshal [OF st] by (simp add: record_at_def held_world_def same)
  have held: "reserved_by ''k1'' ?h ?rec"
    by (simp add: reserved_by_def record_of_envelope_def held_envelope_def reservation_envelope_def)
  have captured: "capturedHeaders slow_response = ?hs"
    by (simp add: accepted_writer_def accept_captured)
  have utf8: "valid_utf8 ''Content-Type''" "valid_utf8 ''application/json''"
    by (simp_all add: valid_utf8_ascii is_ascii_def is_ascii_byte_def)
  have un: "unmarked_headers (capturedHeaders slow_response)"
    unfolding captured using utf8 by (simp add: unmarked_headers_def utf8_map_def masks_cases)
  have get: "redis_get mem_client ''k1'' ?s = (Inr ?rec, ?s)"
    using stored_unmarshal [OF st] by (simp add: redis_get_def mem_client_def held_world_def same)
  obtain raw' where m': "marshal_envelope (completion_envelope ?rec 202 ?hs ?b 0 second) = Inr raw'"
    using times by (auto simp: marshal_envelope_def completion_envelope_def record_of_envelope_def held_envelope_def
        reservation_envelope_def)
  have px: "read_int (itoa (milliseconds second)) = Some 1000"
    by (simp add: milliseconds_def second_def millisecond_def read_itoa go_int_def)
  have ev: "r_eval mem_client f x = f x" for f :: "mem_world \<Rightarrow> (goerr + int) \<times> mem_world" and x
    by (simp add: mem_client_def)
  let ?s' = "held_world raw'"
  have scr: "complete_script mem_commands ?key raw' (itoa (milliseconds second)) ?s = (Inr 1, ?s')"
    by (simp add: complete_script_def mem_commands_def px held_world_def)
  have complete: "redis_complete mem_client mem_commands (sim_time ?s) ''k1'' 202 ?hs ?b second ?s = (Inr (), ?s')"
    using get m' scr by (simp add: redis_complete_def ev held_world_def)
  have run: "settle mem_store second ''k1'' (Returned, ?own, slow_response, ?s) = (Returned, ?own, accepted_writer, ?s')"
    unfolding settle_def using complete captured by (simp add: shouldCacheResponse_def mem_store_def redis_store_def)
  have own: "keyed (\<lambda>k. True) ?own ''k1'' ''[]''"
    using keyed_request_keyed by (simp add: keyed_def)
  obtain out2 r2' w2' s2 where again: "IdempotencyMiddleware (\<lambda>k. True) id mem_store second panic_handler keyed_request
      new_writer ?s' = (out2, r2', w2', s2)" by (metis surj_pair)
  have st': "stored_envelope (completion_envelope ?rec 202 ?hs ?b 0 second) raw'"
    using stored_completion [OF st un [unfolded captured], of 202 "''k1''"] m' by (simp add: same go_int_def)
  have "r_setnx mem_client ?key v second ?s' = (Inr False, ?s')" "r_get mem_client ?key ?s' = (Inr (Some raw'), ?s')" for v
    by (simp_all add: mem_client_def held_world_def)
  then obtain ex where res: "redis_reserve mem_client (sim_time ?s') ''k1'' ?h second ?s' = (Inr (Some ex, False), ?s')"
    using m stored_unmarshal [OF st'] by (simp add: redis_reserve_def redis_get_def held_envelope_def held_world_def)
  have first: "200 \<le> rec_status slow_response" "rec_status slow_response < 500"
    "fst (redis_complete mem_client mem_commands (sim_time ?s) ''k1'' (rec_status slow_response)
       (capturedHeaders slow_response) (rec_body slow_response) second ?s) = Inr ()"
    using complete unfolding captured by simp_all
  have "out2 = Returned \<and> r2' = keyed_request"
    using again by (simp add: middleware_keyed [OF keyed_request_keyed] mem_store_def redis_store_def res)
  moreover have "response_status w2' = Some 202 \<and> response_body w2' = ?b \<and>
      response_header idempotencyReplayHeader w2' = ''true''"
    using late_completion_answers_another [OF mem.redis_axioms ok at held hash(2) own un first(1,2) run [unfolded mem_store_def] first(3)
        keyed_request_keyed new_writer_fresh again [unfolded mem_store_def]] res
    by (simp add: body_allowed_def)
  ultimately show ?thesis using m run again by blast
qed

end
