(* ===== verification/Idempotency_Expiry.thy ===== *)
theory Idempotency_Expiry
  imports Idempotency_Properties
begin

text \<open>
  The protocol when records expire while requests run. The store drops a record when its time to
  live is over, whoever holds the key, so a second request can reserve a key that the first still
  works under, complete the other's record or release it. What remains of the exclusion is a
  bound: each expiry lets at most one more request through.
\<close>

subsection \<open>Runs with expiries\<close>

text \<open>The run so far had \<open>n\<close> expiries; \<open>expire\<close> is what the store may do at one.\<close>

inductive idem_expiring ::
    "'e endpoint \<Rightarrow> (nat \<Rightarrow> client) \<Rightarrow> ('e \<Rightarrow> 'e \<Rightarrow> bool) \<Rightarrow> 'e \<Rightarrow> nat \<Rightarrow> 'e system \<Rightarrow> bool"
  for ep cls expire e0 where
  fresh: "idem_expiring ep cls expire e0 0 (e0, \<lambda>i. Waiting)"
| client: "idem_expiring ep cls expire e0 n s \<Longrightarrow> idem_step ep cls s s' \<Longrightarrow> idem_expiring ep cls expire e0 n s'"
| expiry: "idem_expiring ep cls expire e0 n (e, ps) \<Longrightarrow> expire e e' \<Longrightarrow> idem_expiring ep cls expire e0 (Suc n) (e', ps)"

lemma expiring_step:
  "idem_expiring ep cls expire e0 n (e, ps) \<Longrightarrow> client_step ep (cls i) (ps i) e = (p, e') \<Longrightarrow>
     idem_expiring ep cls expire e0 n (e', ps(i := p))"
  by (rule client, assumption, rule idem_step.intros)

lemma reachable_no_expiry: "idem_reachable ep cls e0 s \<Longrightarrow> idem_expiring ep cls expire e0 0 s"
  by (induction rule: idem_reachable.induct) (auto intro: fresh client)

text \<open>The clients that hold the key or have had a response kept.\<close>

definition claims :: "(nat \<Rightarrow> phase) \<Rightarrow> nat set" where
  "claims ps = {i. active (ps i) \<or> succeeded (ps i)}"

lemma claims_update:
  "claims (ps(i := p)) = (if active p \<or> succeeded p then insert i (claims ps) else claims ps - {i})"
  by (auto simp: claims_def)

text \<open>One claim for each expiry, and one more while there is a record.\<close>

definition claims_bounded :: "nat \<Rightarrow> idempotency_record option \<Rightarrow> (nat \<Rightarrow> phase) \<Rightarrow> bool" where
  "claims_bounded n ro ps \<longleftrightarrow>
     finite (claims ps) \<and> card (claims ps) \<le> n + (case ro of Some r \<Rightarrow> 1 | None \<Rightarrow> 0)"

lemma claims_fresh: "claims_bounded n ro (\<lambda>i. Waiting)"
  by (simp add: claims_bounded_def claims_def)

lemma claims_expiry: "claims_bounded n ro ps \<Longrightarrow> claims_bounded (Suc n) None ps"
  by (auto simp: claims_bounded_def split: option.splits)

lemma claims_record: "claims_bounded n ro ps \<Longrightarrow> (ro \<noteq> None \<Longrightarrow> ro' \<noteq> None) \<Longrightarrow> claims_bounded n ro' ps"
  by (auto simp: claims_bounded_def split: option.splits)

lemma claims_same: "claims_bounded n ro ps \<Longrightarrow> i \<in> claims ps \<Longrightarrow> active p \<or> succeeded p \<Longrightarrow> claims_bounded n ro (ps(i := p))"
  by (simp add: claims_bounded_def claims_update insert_absorb)

lemma claims_none: "claims_bounded n ro ps \<Longrightarrow> i \<notin> claims ps \<Longrightarrow> \<not> active p \<Longrightarrow> \<not> succeeded p \<Longrightarrow> claims_bounded n ro (ps(i := p))"
  by (simp add: claims_bounded_def claims_update)

lemma claims_new: "claims_bounded n None ps \<Longrightarrow> claims_bounded n (Some r) (ps(i := Reserved))"
  by (simp add: claims_bounded_def claims_update card_insert_if)

lemma claims_given_up:
  assumes "claims_bounded n ro ps" "i \<in> claims ps" "\<not> active p" "\<not> succeeded p"
  shows "claims_bounded n ro' (ps(i := p))"
proof -
  have "card (claims ps - {i}) = card (claims ps) - 1" using assms(1,2) by (simp add: claims_bounded_def)
  then show ?thesis using assms by (auto simp: claims_bounded_def claims_update split: option.splits)
qed

subsection \<open>The steps\<close>

context idempotency_store
begin

text \<open>Settling whatever record there is: completing keeps one that is there.\<close>

lemma settle_any_record:
  assumes e: "inv e" and sr: "storable_response storable rec"
    and s: "settle st ttl key (out, r', rec, e) = (out', r'', w', e')"
  shows "inv e'" "succeeded (Settled out' r'' rec w') \<Longrightarrow> view e key \<noteq> None \<Longrightarrow> view e' key \<noteq> None"
proof -
  have h: "storable (capturedHeaders rec)" "go_int (rec_status rec)"
    using sr by (auto simp: storable_response_def go_int_def)
  have released: "inv (snd (st_release st key e))"
    using release_ok [OF e, of key] release_error [OF e, of key]
    by (cases "st_release st key e"; cases "fst (st_release st key e)") auto
  obtain cr e2 where c: "st_complete st key (rec_status rec) (capturedHeaders rec) (rec_body rec) ttl e = (cr, e2)"
    by fastforce
  have completed: "inv e2 \<and> (view e key \<noteq> None \<longrightarrow> view e2 key \<noteq> None)"
    using complete_ok [OF e h, of key "rec_body rec" ttl] complete_error [OF e h, of key "rec_body rec" ttl] c
    by (cases cr) (auto split: option.splits)
  have "inv e' \<and> (succeeded (Settled out' r'' rec w') \<longrightarrow> view e key \<noteq> None \<longrightarrow> view e' key \<noteq> None)"
  proof (cases "out = Returned \<and> shouldCacheResponse (rec_status rec)")
    case True
    with s c have "e' = e2" by (auto simp: settle_def split: sum.splits)
    with completed show ?thesis by simp
  next
    case False
    with s have "e' = snd (st_release st key e)" "out' = out" by (auto simp: settle_def split: outcome.splits)
    with released False show ?thesis by auto
  qed
  then show "inv e'" "succeeded (Settled out' r'' rec w') \<Longrightarrow> view e key \<noteq> None \<Longrightarrow> view e' key \<noteq> None" by blast+
qed

lemma expiring_step_invariant:
  assumes "inv e" "claims_bounded n (view e key) ps" "\<forall>i. storable_run storable (ps i)"
    and "keeps_records inv view nxt"
    and "\<forall>i. storable_handler storable nxt (cl_request (cls i)) (cl_writer (cls i))"
    and step: "idem_step \<lparr>ep_store = st, ep_sha = sha256, ep_ttl = ttl, ep_handler = nxt, ep_key = key\<rparr> cls
      (e, ps) (e', ps')"
  shows "inv e' \<and> claims_bounded n (view e' key) ps' \<and> (\<forall>i. storable_run storable (ps' i))"
proof -
  let ?ep = "\<lparr>ep_store = st, ep_sha = sha256, ep_ttl = ttl, ep_handler = nxt, ep_key = key\<rparr>"
  from step obtain i p where cs: "client_step ?ep (cls i) (ps i) e = (p, e')" and ps': "ps' = ps(i := p)"
    by (auto elim: idem_stepE)
  have *: "inv e' \<and> claims_bounded n (view e' key) (ps(i := p)) \<and> storable_run storable p"
  proof (cases "ps i")
    case Waiting
    let ?h = "request_hash sha256 (cl_body (cls i))"
    have i: "i \<notin> claims ps" using Waiting by (simp add: claims_def)
    have turned: "inv e' \<and> claims_bounded n (view e' key) (ps(i := Answered r w)) \<and> storable_run storable (Answered r w)"
      if "inv e'" "view e key \<noteq> None \<Longrightarrow> view e' key \<noteq> None" for r w
      using that claims_none [OF claims_record [OF assms(2)] i, of "view e' key" "Answered r w"] by (simp add: storable_run_def)
    obtain res e1 where res: "st_reserve st key ?h ttl e = (res, e1)" by fastforce
    have h: "is_hex ?h" by (simp add: request_hash_def)
    note cs' = cs [unfolded client_step_def Waiting, simplified, unfolded res Let_def, simplified]
    from assms(1) h res show ?thesis
    proof (rule reserve_cases)
      fix r assume r: "res = Inr (Some r, True)" "inv e1" "view e key = None" "view e1 = (view e)(key \<mapsto> r)"
      with cs' have "p = Reserved" "e' = e1" by auto
      with r assms(2) show ?thesis by (simp add: storable_run_def claims_new)
    qed (use cs' turned in auto)
  next
    case Reserved
    obtain out r' rec e1 where call:
      "handler_call nxt (cl_request (cls i)) (cl_writer (cls i)) e = (out, r', rec, e1)"
      by (cases "handler_call nxt (cl_request (cls i)) (cl_writer (cls i)) e")
    with cs Reserved have p: "p = Ran out r' rec" "e' = e1" by (auto simp: client_step_def)
    have "inv e1 \<and> view e1 = view e"
      using assms(1,4) call unfolding keeps_records_def handler_call_def by (metis snd_conv)
    moreover have "storable_response storable rec"
      using assms(5) call unfolding storable_handler_def by (metis fst_conv snd_conv)
    moreover have "i \<in> claims ps" using Reserved by (simp add: claims_def)
    ultimately show ?thesis using p assms(2) by (simp add: storable_run_def claims_same)
  next
    case (Ran out r' rec)
    obtain out' r'' w' e1 where s: "settle st ttl key (out, r', rec, e) = (out', r'', w', e1)"
      by (cases "settle st ttl key (out, r', rec, e)")
    with cs Ran have p: "p = Settled out' r'' rec w'" "e' = e1" by (auto simp: client_step_def)
    have i: "i \<in> claims ps" using Ran by (simp add: claims_def)
    have "storable_response storable rec"
      using assms(3) [rule_format, of i] Ran by (simp add: storable_run_def)
    note settled = settle_any_record [OF assms(1) this s]
    have "claims_bounded n (view e' key) (ps(i := p))"
    proof (cases "succeeded p")
      case True
      with settled(2) p have "view e key \<noteq> None \<Longrightarrow> view e' key \<noteq> None" by blast
      then show ?thesis using claims_same [OF claims_record [OF assms(2)] i] True by blast
    next
      case False
      with p claims_given_up [OF assms(2) i] show ?thesis by simp
    qed
    with settled(1) p show ?thesis by (simp add: storable_run_def)
  next
    case (Answered r' w')
    with cs have "p = ps i" "e' = e" by (auto simp: client_step_def)
    with assms(1-3) show ?thesis by simp
  next
    case (Settled out r' rec w')
    with cs have "p = ps i" "e' = e" by (auto simp: client_step_def)
    with assms(1-3) show ?thesis by simp
  qed
  with assms(3) show ?thesis unfolding ps' by simp
qed

lemma expiring_claims_bounded:
  assumes "idem_expiring \<lparr>ep_store = st, ep_sha = sha256, ep_ttl = ttl, ep_handler = nxt, ep_key = key\<rparr>
      cls expire e0 n s"
    and "inv e0" "keeps_records inv view nxt"
    and "\<forall>i. storable_handler storable nxt (cl_request (cls i)) (cl_writer (cls i))"
    and expire: "\<And>e e'. inv e \<Longrightarrow> expire e e' \<Longrightarrow> inv e' \<and> view e' key = None"
  shows "inv (fst s) \<and> claims_bounded n (view (fst s) key) (snd s) \<and> (\<forall>i. storable_run storable (snd s i))"
  using assms(1)
proof induction
  case fresh
  show ?case using assms(2) by (simp add: claims_fresh storable_run_def)
next
  case (client n s s')
  then show ?case
    using expiring_step_invariant [of "fst s" n key "snd s" nxt cls sha256 ttl "fst s'" "snd s'"] assms(3,4)
    by simp
next
  case (expiry n e ps e')
  then show ?case using expire [of e e'] by (auto dest: claims_expiry)
qed

end

subsection \<open>How many requests get through\<close>

text \<open>C3: However the requests with one key interleave, whatever the store answers, and however often it
  drops the key's record at the end of its time to live: the requests that hold the key and those
  that ran the handler to a response that was kept are together at most one more than the
  expiries. Without an expiry that is one.\<close>

theorem successes_bounded_by_expiries:
  assumes "idempotency_store st recs good storable"
    and "idem_expiring \<lparr>ep_store = st, ep_sha = sha256, ep_ttl = ttl, ep_handler = nxt, ep_key = key\<rparr>
      cls expire e0 n (e, ps)"
    and "good e0" "keeps_records good recs nxt"
    and "\<forall>i. storable_handler storable nxt (cl_request (cls i)) (cl_writer (cls i))"
    and "\<And>e e'. good e \<Longrightarrow> expire e e' \<Longrightarrow> good e' \<and> recs e' key = None"
  shows "finite {i. active (ps i) \<or> succeeded (ps i)} \<and> card {i. active (ps i) \<or> succeeded (ps i)} \<le> Suc n"
proof -
  have "claims_bounded n (recs e key) ps"
    using idempotency_store.expiring_claims_bounded [OF assms(1-5)] assms(6) by fastforce
  then show ?thesis unfolding claims_bounded_def claims_def by (auto split: option.splits)
qed

text \<open>A request, the expiry of its record, and the request again: two responses are kept.\<close>

definition forget :: "idem_world \<Rightarrow> idem_world \<Rightarrow> bool" where
  "forget e e' \<longleftrightarrow> e' = e\<lparr>iw_records := []\<rparr>"

definition kept_world :: idem_world where
  "kept_world = empty_world\<lparr>iw_records := [(''k1'', done_record (request_hash id ''{}'') hour)]\<rparr>"

lemma forget_kept: "forget kept_world empty_world"
  by (simp add: forget_def kept_world_def empty_world_def)

lemma alone_through:
  assumes run: "idem_expiring map_endpoint (\<lambda>i. same_client) forget empty_world n (empty_world, ps)" and i: "ps i = Waiting"
  shows "\<exists>p. idem_expiring map_endpoint (\<lambda>i. same_client) forget empty_world n (kept_world, ps(i := p)) \<and> succeeded p"
proof -
  let ?e1 = "empty_world\<lparr>iw_records := [(''k1'', first_record (request_hash id ''{}'') hour)]\<rparr>"
  let ?rec = "ResponseRecorder (send_json new_writer 202 (Some (JStr ''ok''))) 202
      (encode_line (JStr ''ok'')) True"
  let ?p = "Settled Returned keyed_request ?rec accepted_writer"
  note defs = map_endpoint_def same_client_def client_step_def map_store_def

  have "client_step map_endpoint same_client Waiting empty_world = (Reserved, ?e1)"
    by (simp add: defs reserve_first)
  then have "idem_expiring map_endpoint (\<lambda>i. same_client) forget empty_world n (?e1, ps(i := Reserved))"
    using expiring_step [OF run, of i] i by simp
  moreover have "client_step map_endpoint same_client Reserved ?e1 = (Ran Returned keyed_request ?rec, ?e1)"
    by (simp add: defs accept_call)
  ultimately have "idem_expiring map_endpoint (\<lambda>i. same_client) forget empty_world n (?e1, ps(i := Ran Returned keyed_request ?rec))"
    using expiring_step [where ps = "ps(i := Reserved)" and i = i and cls = "\<lambda>i. same_client"] by simp
  moreover have "client_step map_endpoint same_client (Ran Returned keyed_request ?rec) ?e1 = (?p, kept_world)"
    by (simp add: defs settle_def shouldCacheResponse_def complete_first accept_captured
        accepted_writer_def kept_world_def)
  ultimately have "idem_expiring map_endpoint (\<lambda>i. same_client) forget empty_world n (kept_world, ps(i := ?p))"
    using expiring_step [where ps = "ps(i := Ran Returned keyed_request ?rec)" and i = i and cls = "\<lambda>i. same_client"] by simp
  then show ?thesis by (intro exI [of _ ?p] conjI) (simp_all add: shouldCacheResponse_def)
qed

theorem successes_bounded_by_expiries_witness:
  "\<exists>e ps. idem_expiring map_endpoint (\<lambda>i. same_client) forget empty_world 1 (e, ps) \<and>
     succeeded (ps 0) \<and> succeeded (ps 1) \<and> {i. active (ps i) \<or> succeeded (ps i)} = {0, 1}"
proof -
  obtain p where p: "idem_expiring map_endpoint (\<lambda>i. same_client) forget empty_world 0 (kept_world, (\<lambda>i. Waiting)(0 := p))" "succeeded p"
    using alone_through [OF fresh, of 0] by blast
  from expiry [OF p(1) forget_kept]
  obtain q where q: "idem_expiring map_endpoint (\<lambda>i. same_client) forget empty_world (Suc 0) (kept_world, (\<lambda>i. Waiting)(0 := p, 1 := q))" "succeeded q"
    using alone_through [of "Suc 0" "(\<lambda>i. Waiting)(0 := p)" 1] by auto
  obtain ps where ps: "idem_expiring map_endpoint (\<lambda>i. same_client) forget empty_world (Suc 0) (kept_world, ps)"
    "succeeded (ps 0)" "succeeded (ps 1)"
    by (rule that [OF q(1)]) (simp_all add: p(2) q(2))
  let ?claims = "{i. active (ps i) \<or> succeeded (ps i)}"
  have s: "\<forall>i. storable_handler distinct_headers accept_handler (cl_request same_client) (cl_writer same_client)"
    by (simp add: same_client_def accept_storable)
  have "finite ?claims \<and> card ?claims \<le> Suc (Suc 0)"
    by (rule successes_bounded_by_expiries [OF map_store.idempotency_store_axioms ps(1) [unfolded map_endpoint_def]
        TrueI accept_keeps s]) (simp add: forget_def map_view_def)
  moreover have "{0, 1} \<subseteq> ?claims" using ps(2,3) by simp
  moreover have "card {0::nat, 1} = Suc (Suc 0)" by simp
  ultimately have "?claims = {0, 1}" by (metis card_seteq)
  with ps show ?thesis by (intro exI [of _ kept_world] exI [of _ ps]) simp
qed

end
