(* ===== verification/Api_Logger.thy ===== *)
theory Api_Logger
  imports Go_Runtime
begin

text \<open>
  \<open>services/api/internal/logger/logger.go\<close> (and its copy in the provisioner): the logger
  interface over logrus. A logger holds the fields its entry carries; a line merges the
  fields of the call into them. The level threshold and the formatting are logrus's, behind
  \<open>rt_emit\<close>; \<open>WithContext\<close> attaches the trace context, which the model does not carry.
\<close>

datatype logger = LogrusLogger attrs | NopLogger

definition F :: "string \<Rightarrow> attr_value \<Rightarrow> string \<times> attr_value" where
  "F k v = (k, v)"

text \<open>\<open>withFields\<close>: the call's fields become a map (a later duplicate wins), merged into the entry.\<close>

fun field_map :: "(string \<times> attr_value) list \<Rightarrow> attrs \<Rightarrow> attrs" where
  "field_map [] m = m"
| "field_map ((k, v) # fs) m = field_map fs (put k v m)"

definition with_call_fields :: "(string \<times> attr_value) list \<Rightarrow> attrs \<Rightarrow> attrs" where
  "with_call_fields fs entry = (if fs = [] then entry else field_map (field_map fs []) entry)"

definition log_at ::
    "'e runtime \<Rightarrow> log_level \<Rightarrow> logger \<Rightarrow> string \<Rightarrow> (string \<times> attr_value) list \<Rightarrow> 'e \<Rightarrow> 'e" where
  "log_at rt lv lg msg fs e =
     (case lg of
        LogrusLogger entry \<Rightarrow> rt_emit rt lv msg (with_call_fields fs entry) e
      | NopLogger \<Rightarrow> e)"

abbreviation "log_debug rt \<equiv> log_at rt DebugLevel"
abbreviation "log_info rt \<equiv> log_at rt InfoLevel"
abbreviation "log_warn rt \<equiv> log_at rt WarnLevel"
abbreviation "log_error rt \<equiv> log_at rt ErrorLevel"
abbreviation "log_fatal rt \<equiv> log_at rt FatalLevel"

definition WithField :: "string \<Rightarrow> attr_value \<Rightarrow> logger \<Rightarrow> logger" where
  "WithField k v lg =
     (case lg of LogrusLogger entry \<Rightarrow> LogrusLogger (put k v entry) | NopLogger \<Rightarrow> NopLogger)"

definition WithFields :: "attrs \<Rightarrow> logger \<Rightarrow> logger" where
  "WithFields fs lg =
     (case lg of LogrusLogger entry \<Rightarrow> LogrusLogger (field_map fs entry) | NopLogger \<Rightarrow> NopLogger)"

text \<open>logrus keeps an error under the key \<open>error\<close>.\<close>

definition WithError :: "goerr \<Rightarrow> logger \<Rightarrow> logger" where
  "WithError err lg = WithField ''error'' (AErr err) lg"

text \<open>\<open>DefaultConfig\<close> and the choices \<open>New\<close> makes from a configuration.\<close>

record logger_config =
  lc_level :: string
  lc_format :: string
  lc_time_format :: string

definition DefaultConfig :: logger_config where
  "DefaultConfig = \<lparr>lc_level = ''info'', lc_format = ''json'',
     lc_time_format = ''2006-01-02T15:04:05.000Z07:00''\<rparr>"

datatype formatter = TextFormatter string | JSONFormatter string

text \<open>\<open>parse_level\<close> is \<open>logrus.ParseLevel\<close>.\<close>

definition logger_level :: "(string \<Rightarrow> log_level option) \<Rightarrow> logger_config \<Rightarrow> log_level" where
  "logger_level parse_level cfg =
     (case parse_level (lc_level cfg) of Some lv \<Rightarrow> lv | None \<Rightarrow> InfoLevel)"

definition logger_formatter :: "logger_config \<Rightarrow> formatter" where
  "logger_formatter cfg =
     (if lc_format cfg = ''text'' then TextFormatter (lc_time_format cfg)
      else JSONFormatter (lc_time_format cfg))"

definition new_logger :: "logger_config \<Rightarrow> logger" where
  "new_logger cfg = LogrusLogger []"

subsection \<open>What a line carries\<close>

lemma map_of_field_map: "map_of (field_map fs m) = map_of m ++ map_of (rev fs)"
  by (induction fs m rule: field_map.induct) (auto simp: map_add_def fun_eq_iff split: option.splits)

text \<open>A field of the call hides one of the entry; the last duplicate of the call counts.\<close>

lemma with_call_fields_lookup:
  "map_of (with_call_fields fs entry) k =
     (case map_of (rev fs) k of Some v \<Rightarrow> Some v | None \<Rightarrow> map_of entry k)"
proof -
  have "distinct (map fst (field_map fs []))"
  proof -
    have "distinct (map fst m) \<Longrightarrow> distinct (map fst (field_map fs m))" for m
      by (induction fs m rule: field_map.induct) (auto intro: distinct_keys_put)
    then show ?thesis by simp
  qed
  then have "map_of (rev (field_map fs [])) = map_of (rev fs)"
    by (subst map_of_inject_set [THEN iffD2, of "rev (field_map fs [])" "field_map fs []"])
      (simp_all add: map_of_field_map rev_map [symmetric])
  then show ?thesis
    by (simp add: with_call_fields_def map_of_field_map map_add_def split: option.split)
qed

lemma log_at_nop [simp]: "log_at rt lv NopLogger msg fs e = e"
  by (simp add: log_at_def)

lemma with_field_nop [simp]: "WithField k v NopLogger = NopLogger" "WithError err NopLogger = NopLogger"
  by (simp_all add: WithField_def WithError_def)

context runtime_laws
begin

lemma log_at_total [simp]: "total (log_at rt lv lg msg fs e) = total e"
  by (cases lg) (simp_all add: log_at_def runtime_simps)

lemma log_at_points [simp]: "points (log_at rt lv lg msg fs e) = points e"
  by (cases lg) (simp_all add: log_at_def runtime_simps)

text \<open>One line per call, none from the no-op logger.\<close>

lemma log_at_entries:
  "entries (log_at rt lv lg msg fs e) = entries e @
     (case lg of LogrusLogger entry \<Rightarrow> [(lv, msg, with_call_fields fs entry)] | NopLogger \<Rightarrow> [])"
  by (cases lg) (simp_all add: log_at_def runtime_simps)

end

end
