(* ===== verification/Json_Text.thy ===== *)
theory Json_Text
  imports Go_Json
begin

text \<open>
  What the decoder takes from a body is text: every string of a parsed value is well-formed UTF-8,
  whatever bytes the body has, since the parser replaces what is not. So a struct that was decoded
  is marshalled and decoded again to itself.
\<close>

subsection \<open>Well-formed pieces\<close>

lemma valid_utf8_ascii_cons: "byte c < 0x80 \<Longrightarrow> valid_utf8 (c # s) = valid_utf8 s"
  by (simp add: valid_utf8.simps(2))

lemma multi_len_append: "0 < multi_len s \<Longrightarrow> multi_len (s @ t) = multi_len s"
  using multi_len_local [of s "drop (multi_len s) s @ t"] by (simp flip: append_assoc)

lemma valid_utf8_append: "valid_utf8 s \<Longrightarrow> valid_utf8 t \<Longrightarrow> valid_utf8 (s @ t)"
proof (induction s rule: valid_utf8.induct)
  case (2 c s)
  show ?case
  proof (cases "byte c < 0x80")
    case True
    with 2 show ?thesis by (simp add: valid_utf8_ascii_cons)
  next
    case False
    with "2.prems" have m: "0 < multi_len (c # s)" "valid_utf8 (drop (multi_len (c # s)) (c # s))"
      by (auto simp: valid_utf8.simps(2) split: if_splits)
    have l: "multi_len (c # s @ t) = multi_len (c # s)" using multi_len_append [OF m(1)] by simp
    have "valid_utf8 (drop (multi_len (c # s)) (c # s) @ t)"
      by (rule "2.IH"(2)) (use False m "2.prems"(2) in auto)
    moreover have "drop (multi_len (c # s)) (c # s @ t) = drop (multi_len (c # s)) (c # s) @ t"
      using drop_append [of "multi_len (c # s)" "c # s" t] multi_len_le [of "c # s"] by (simp del: drop_append)
    ultimately have "valid_utf8 (drop (multi_len (c # s @ t)) (c # s @ t))"
      unfolding l by (simp only:)
    then show ?thesis using False m(1) l by (simp add: valid_utf8.simps(2))
  qed
qed simp

lemma valid_utf8_multi:
  assumes "0 < multi_len s" "0x80 \<le> byte (hd s)"
  shows "valid_utf8 (take (multi_len s) s)"
proof -
  let ?m = "take (multi_len s) s"
  have m: "multi_len ?m = multi_len s" using multi_len_local [OF assms(1), of "[]"] by simp
  obtain c s' where s: "s = c # s'" using assms(1) by (cases s) auto
  then obtain r where r: "?m = c # r" using assms(1) by (cases "multi_len s") auto
  have "drop (multi_len s) ?m = []" by simp
  then have "drop (multi_len (c # r)) (c # r) = []" unfolding m [unfolded r] unfolding r .
  then show ?thesis using assms m r s by (simp add: valid_utf8.simps(2))
qed

lemma valid_utf8_replacement [simp]: "valid_utf8 replacement"
  by code_simp

lemma byte_char_of: "n < 256 \<Longrightarrow> byte (char_of n) = n"
  by (simp add: of_char_of take_bit_eq_mod)

lemma middle_part: "(r::nat) div k mod 64 = r div k - 64 * (r div (k * 64))"
  by (metis div_mult2_eq minus_mult_div_eq_mod)

lemma valid_utf8_two:
  fixes a b :: nat
  assumes "2 \<le> a" "a < 32" "b < 64"
  shows "valid_utf8 [char_of (0xC0 + a), char_of (0x80 + b)]"
proof -
  have "byte (char_of (0xC0 + a)) = 0xC0 + a" "byte (char_of (0x80 + b)) = 0x80 + b"
    using assms by (simp_all add: byte_char_of)
  moreover have "multi_len [char_of (0xC0 + a), char_of (0x80 + b)] = 2"
    using calculation assms by (simp add: cont_def)
  ultimately show ?thesis by (simp add: valid_utf8.simps(2))
qed

lemma valid_utf8_three:
  fixes a b c :: nat
  assumes "a < 16" "b < 64" "c < 64" "a = 0 \<Longrightarrow> 32 \<le> b" "a = 13 \<Longrightarrow> b < 32"
  shows "valid_utf8 [char_of (0xE0 + a), char_of (0x80 + b), char_of (0x80 + c)]"
proof -
  have "byte (char_of (0xE0 + a)) = 0xE0 + a" "byte (char_of (0x80 + b)) = 0x80 + b" "byte (char_of (0x80 + c)) = 0x80 + c"
    using assms by (simp_all add: byte_char_of)
  moreover have "multi_len [char_of (0xE0 + a), char_of (0x80 + b), char_of (0x80 + c)] = 3"
    using calculation assms by (auto simp: cont_def not_le)
  ultimately show ?thesis by (simp add: valid_utf8.simps(2))
qed

lemma valid_utf8_four:
  fixes a b c d :: nat
  assumes "a \<le> 4" "b < 64" "c < 64" "d < 64" "a = 0 \<Longrightarrow> 16 \<le> b" "a = 4 \<Longrightarrow> b < 16"
  shows "valid_utf8 [char_of (0xF0 + a), char_of (0x80 + b), char_of (0x80 + c), char_of (0x80 + d)]"
proof -
  have "byte (char_of (0xF0 + a)) = 0xF0 + a" "byte (char_of (0x80 + b)) = 0x80 + b"
    "byte (char_of (0x80 + c)) = 0x80 + c" "byte (char_of (0x80 + d)) = 0x80 + d"
    using assms by (simp_all add: byte_char_of)
  moreover have "multi_len [char_of (0xF0 + a), char_of (0x80 + b), char_of (0x80 + c), char_of (0x80 + d)] = 4"
    using calculation assms by (auto simp: cont_def not_le)
  ultimately show ?thesis by (simp add: valid_utf8.simps(2))
qed

lemma valid_utf8_encode_rune [simp]: "valid_utf8 (encode_rune r)"
proof -
  consider "r < 0x80" | "0x80 \<le> r" "r < 0x800" | "0x800 \<le> r" "0xD800 \<le> r \<and> r \<le> 0xDFFF \<or> 0x10FFFF < r"
    | "0x800 \<le> r" "r < 0xD800 \<or> 0xDFFF < r" "r < 0x10000" | "0x10000 \<le> r" "r \<le> 0x10FFFF" by linarith
  then show ?thesis
  proof cases
    case 1
    then show ?thesis by (simp add: encode_rune_def valid_utf8.simps(2) byte_char_of)
  next
    case 2
    then have "2 \<le> r div 64" "r div 64 < 32" by auto
    moreover have "encode_rune r = [char_of (0xC0 + r div 64), char_of (0x80 + r mod 64)]"
      using 2 by (simp add: encode_rune_def)
    ultimately show ?thesis using valid_utf8_two [of "r div 64" "r mod 64"] by simp
  next
    case 3
    then show ?thesis by (auto simp: encode_rune_def)
  next
    case 4
    have d: "r div 64 mod 64 < 64" "r mod 64 < 64" by simp_all
    have a: "r div 4096 < 16" using 4 by auto
    have lo: "r div 4096 = 0 \<Longrightarrow> 32 \<le> r div 64 mod 64"
    proof -
      assume "r div 4096 = 0"
      with 4 have "r < 4096" "32 \<le> r div 64" by auto
      then show ?thesis by auto
    qed
    have hi: "r div 4096 = 13 \<Longrightarrow> r div 64 mod 64 < 32"
    proof -
      assume "r div 4096 = 13"
      with 4 have "r < 0xD800" "0xD000 \<le> r" by auto
      then show ?thesis using \<open>r div 4096 = 13\<close> middle_part [of r 64] by simp
    qed
    have "\<not> r < 0x80" "\<not> r < 0x800" "\<not> (0xD800 \<le> r \<and> r \<le> 0xDFFF \<or> 0x10FFFF < r)" using 4 by linarith+
    then have "encode_rune r = [char_of (0xE0 + r div 4096), char_of (0x80 + r div 64 mod 64), char_of (0x80 + r mod 64)]"
      using 4 by (simp only: encode_rune_def if_False if_True)
    with valid_utf8_three [OF a d lo hi] show ?thesis by simp
  next
    case 5
    have d: "r div 4096 mod 64 < 64" "r div 64 mod 64 < 64" "r mod 64 < 64" by simp_all
    have a: "r div 262144 \<le> 4" using 5 by auto
    have lo: "r div 262144 = 0 \<Longrightarrow> 16 \<le> r div 4096 mod 64"
    proof -
      assume "r div 262144 = 0"
      with 5 have "r div 4096 < 64" "16 \<le> r div 4096" by auto
      then show ?thesis by auto
    qed
    have hi: "r div 262144 = 4 \<Longrightarrow> r div 4096 mod 64 < 16"
    proof -
      assume "r div 262144 = 4"
      with 5 have "r div 4096 < 272" by auto
      then show ?thesis using \<open>r div 262144 = 4\<close> middle_part [of r 4096] by simp
    qed
    have "\<not> r < 0x80" "\<not> r < 0x800" "\<not> (0xD800 \<le> r \<and> r \<le> 0xDFFF \<or> 0x10FFFF < r)" "\<not> r < 0x10000" using 5 by linarith+
    then have "encode_rune r = [char_of (0xF0 + r div 262144), char_of (0x80 + r div 4096 mod 64),
         char_of (0x80 + r div 64 mod 64), char_of (0x80 + r mod 64)]"
      by (simp only: encode_rune_def if_False)
    with valid_utf8_four [OF a d lo hi] show ?thesis by simp
  qed
qed

lemma rune_escape_utf8: "rune_escape s = Some (u, t) \<Longrightarrow> valid_utf8 u"
  by (auto simp: rune_escape_def split: option.splits if_splits list.splits)

lemma simple_escape_ascii: "simple_escape e = Some x \<Longrightarrow> byte x < 0x80"
  by (auto simp: simple_escape_def split: if_splits)

lemma parse_str_utf8: "parse_str s = Some (u, t) \<Longrightarrow> valid_utf8 u"
proof (induction s arbitrary: u t rule: parse_str.induct)
  case (2 c s)
  show ?case
  proof (cases "c = CHR 0x22 \<or> byte c < 0x20")
    case True
    with "2.prems" show ?thesis by (auto simp: parse_str.simps(2) split: if_splits)
  next
    case plain: False
    show ?thesis
    proof (cases "c = CHR 0x5C")
      case True
      with "2.prems" show ?thesis
        using "2.IH"(1,2) plain
        by (auto simp: parse_str.simps(2) valid_utf8_ascii_cons simple_escape_ascii valid_utf8_append rune_escape_utf8
            split: list.splits if_splits option.splits)
    next
      case False
      with "2.prems" plain show ?thesis
        using "2.IH"(3-5) valid_utf8_multi [of "c # s"]
        by (auto simp: parse_str.simps(2) valid_utf8_ascii_cons valid_utf8_append split: if_splits)
    qed
  qed
qed simp

subsection \<open>Parsed values\<close>

fun json_text :: "json \<Rightarrow> bool" where
  "json_text (JStr s) \<longleftrightarrow> valid_utf8 s"
| "json_text (JArr js) \<longleftrightarrow> (\<forall>j\<in>set js. json_text j)"
| "json_text (JObj ms) \<longleftrightarrow> (\<forall>(k, j)\<in>set ms. valid_utf8 k \<and> json_text j)"
| "json_text _ \<longleftrightarrow> True"

lemma literal_text:
  "(if P then Some (JNull, x) else if Q then Some (JBool True, y) else if R then Some (JBool False, z)
     else map_option (\<lambda>(u, t). (JNum u, t)) m) = Some (j, t) \<Longrightarrow> json_text j"
  by (auto split: if_splits)

lemma parse_text:
  "parse_value n s = Some (j, t) \<Longrightarrow> json_text j"
  "parse_elems n s = Some (js, t) \<Longrightarrow> \<forall>j\<in>set js. json_text j"
  "parse_members n s = Some (ms, t) \<Longrightarrow> \<forall>(k, j)\<in>set ms. valid_utf8 k \<and> json_text j"
proof (induction n s and n s and n s arbitrary: j t and js t and ms t
    rule: parse_value_parse_elems_parse_members.induct)
  case (2 n s)
  from "2.prems" obtain c r where cr: "skip_ws s = c # r" by (cases "skip_ws s") simp_all
  note p = "2.prems" [unfolded parse_value.simps cr list.case]
  consider "c = CHR 0x22" | "c = CHR ''{''" | "c = CHR ''[''" | "c \<notin> {CHR 0x22, CHR ''{'', CHR ''[''}" by blast
  then show ?case
  proof cases
    case 1
    with p show ?thesis by (auto dest: parse_str_utf8)
  next
    case 2
    with p obtain d t' where "skip_ws r = d # t'" by (cases "skip_ws r") simp_all
    with p 2 "2.IH"(1) [OF cr] show ?thesis by (auto split: if_splits)
  next
    case 3
    with p obtain d t' where "skip_ws r = d # t'" by (cases "skip_ws r") simp_all
    with p 3 "2.IH"(2) [OF cr] show ?thesis by (auto split: if_splits)
  next
    case 4
    then have c: "c \<noteq> CHR 0x22" "c \<noteq> CHR ''{''" "c \<noteq> CHR ''[''" by blast+
    show ?thesis by (rule literal_text) (rule p [unfolded if_not_P [OF c(1)] if_not_P [OF c(2)] if_not_P [OF c(3)]])
  qed
next
  case (4 n s)
  from "4.prems" obtain j1 t1 c r where v: "parse_value n s = Some (j1, t1)" and cr: "skip_ws t1 = c # r"
    by (auto split: list.splits option.splits)
  have "json_text j1" by (rule "4.IH"(1) [OF v])
  moreover note p = "4.prems" [unfolded parse_elems.simps v option.case prod.case cr list.case]
  ultimately show ?case using "4.IH"(2) [OF v refl cr] by (auto split: if_splits)
next
  case (6 n s)
  from "6.prems" obtain c r where cr: "skip_ws s = c # r" by (cases "skip_ws s") simp_all
  note p = "6.prems" [unfolded parse_members.simps cr list.case]
  then have c: "\<not> c \<noteq> CHR 0x22" by (auto split: if_splits)
  note p = p [unfolded if_not_P [OF c]]
  then obtain k t1 where k: "parse_str r = Some (k, t1)" by (auto split: option.splits)
  note p = p [unfolded k option.case prod.case]
  then obtain d t2 where d: "skip_ws t1 = d # t2" by (auto split: list.splits)
  note p = p [unfolded d list.case]
  then have colon: "\<not> d \<noteq> CHR '':''" by (auto split: if_splits)
  note p = p [unfolded if_not_P [OF colon]]
  then obtain j1 t3 where v: "parse_value n t2 = Some (j1, t3)" by (auto split: option.splits)
  note p = p [unfolded v option.case prod.case]
  then obtain e t4 where e: "skip_ws t3 = e # t4" by (auto split: list.splits)
  note p = p [unfolded e list.case]
  have "json_text j1" by (rule "6.IH"(1) [OF cr c k refl d colon v])
  then show ?case using p parse_str_utf8 [OF k] "6.IH"(2) [OF cr c k refl d colon v refl e] by (auto split: if_splits)
qed simp_all

lemma decode_first_text: "decode_first s = Some j \<Longrightarrow> json_text j"
  by (auto simp: decode_first_def split: option.splits if_splits dest: parse_text(1))

subsection \<open>Decoded structs\<close>

text \<open>A property of structs that storing text keeps holds of everything decoded from the zero value.\<close>

lemma decode_fields_keep:
  assumes "\<And>f j r r'. store f j r = Some r' \<Longrightarrow> json_text j \<Longrightarrow> ok r \<Longrightarrow> ok r'"
    and "decode_fields fields store ms r = Some r'" "\<forall>(k, j)\<in>set ms. valid_utf8 k \<and> json_text j" "ok r"
  shows "ok r'"
  using assms(2-4)
proof (induction ms arbitrary: r)
  case (Cons m ms)
  then show ?case by (cases m) (auto split: option.splits dest: assms(1))
qed simp

lemma decode_struct_keeps:
  assumes "\<And>f j r r'. store f j r = Some r' \<Longrightarrow> json_text j \<Longrightarrow> ok r \<Longrightarrow> ok r'"
    and "decode_struct fields store j r = Some r'" "json_text j" "ok r"
  shows "ok r'"
  using assms(2-4) decode_fields_keep [of store ok, OF assms(1)]
  by (auto simp: decode_struct_def split: json.splits)

end
