(* ===== verification/Api_Domain.thy ===== *)
theory Api_Domain
  imports Api_Responses Api_Logger Json_Text
begin

text \<open>
  The domain model of the API and the services on it: \<open>domain/model/auth.go\<close> and \<open>resource.go\<close>
  (the structs with their JSON names and their \<open>validate\<close> tags), the ports
  \<open>AuthProvider\<close> and \<open>ResourcePublisher\<close> as records of operations, and
  \<open>application/service\<close>.
\<close>

subsection \<open>Requests and resources\<close>

record sign_up_request =
  su_email :: string
  su_password :: string

record sign_in_request =
  si_email :: string
  si_password :: string

record confirm_request =
  cs_email :: string
  cs_code :: string

record auth_response =
  ar_access :: string
  ar_refresh :: string
  ar_id :: string
  ar_expires :: int
  ar_type :: string

record resource =
  rs_id :: string
  rs_type :: string
  rs_provider :: string
  rs_spec :: string
  rs_status :: string
  rs_by :: string

subsection \<open>Their JSON\<close>

definition auth_response_json :: "auth_response \<Rightarrow> json" where
  "auth_response_json a =
     JObj ([(''access_token'', JStr (ar_access a))] @
           omit_empty ''refresh_token'' (ar_refresh a) @ omit_empty ''id_token'' (ar_id a) @
           [(''expires_in'', JNum (itoa (ar_expires a))), (''token_type'', JStr (ar_type a))])"

definition resource_json :: "resource \<Rightarrow> json" where
  "resource_json r =
     JObj [(''id'', JStr (rs_id r)), (''resource_type'', JStr (rs_type r)),
           (''cloud_provider'', JStr (rs_provider r)), (''specification'', JStr (rs_spec r)),
           (''status'', JStr (rs_status r)), (''requested_by'', JStr (rs_by r))]"

definition marshal_resource :: "resource \<Rightarrow> goerr + string" where
  "marshal_resource r = Inr (print_json (resource_json r))"

definition email_tags :: "(string \<times> string) list" where
  "email_tags = [(''required'', ''''), (''email'', ''''), (''max'', ''254'')]"

definition sign_up_type :: "sign_up_request struct_type" where
  "sign_up_type =
     \<lparr>sty_zero = \<lparr>su_email = '''', su_password = ''''\<rparr>,
      sty_names = [''email'', ''password''],
      sty_store = (\<lambda>f j r.
        if f = ''email'' then store_string (\<lambda>s r. r\<lparr>su_email := s\<rparr>) j r
        else store_string (\<lambda>s r. r\<lparr>su_password := s\<rparr>) j r),
      sty_fields = (\<lambda>r.
        [(''Email'', email_tags, su_email r),
         (''Password'', [(''required'', ''''), (''min'', ''8''), (''max'', ''128'')], su_password r)])\<rparr>"

definition sign_in_type :: "sign_in_request struct_type" where
  "sign_in_type =
     \<lparr>sty_zero = \<lparr>si_email = '''', si_password = ''''\<rparr>,
      sty_names = [''email'', ''password''],
      sty_store = (\<lambda>f j r.
        if f = ''email'' then store_string (\<lambda>s r. r\<lparr>si_email := s\<rparr>) j r
        else store_string (\<lambda>s r. r\<lparr>si_password := s\<rparr>) j r),
      sty_fields = (\<lambda>r.
        [(''Email'', email_tags, si_email r),
         (''Password'', [(''required'', ''''), (''min'', ''1''), (''max'', ''128'')], si_password r)])\<rparr>"

definition confirm_type :: "confirm_request struct_type" where
  "confirm_type =
     \<lparr>sty_zero = \<lparr>cs_email = '''', cs_code = ''''\<rparr>,
      sty_names = [''email'', ''confirmation_code''],
      sty_store = (\<lambda>f j r.
        if f = ''email'' then store_string (\<lambda>s r. r\<lparr>cs_email := s\<rparr>) j r
        else store_string (\<lambda>s r. r\<lparr>cs_code := s\<rparr>) j r),
      sty_fields = (\<lambda>r.
        [(''Email'', email_tags, cs_email r),
         (''ConfirmationCode'',
          [(''required'', ''''), (''min'', ''6''), (''max'', ''10''), (''alphanum'', '''')], cs_code r)])\<rparr>"

definition resource_fields :: "string list" where
  "resource_fields =
     [''id'', ''resource_type'', ''cloud_provider'', ''specification'', ''status'', ''requested_by'']"

definition store_resource_field :: "string \<Rightarrow> json \<Rightarrow> resource \<Rightarrow> resource option" where
  "store_resource_field f j r =
     (if f = ''id'' then store_string (\<lambda>s r. r\<lparr>rs_id := s\<rparr>) j r
      else if f = ''resource_type'' then store_string (\<lambda>s r. r\<lparr>rs_type := s\<rparr>) j r
      else if f = ''cloud_provider'' then store_string (\<lambda>s r. r\<lparr>rs_provider := s\<rparr>) j r
      else if f = ''specification'' then store_string (\<lambda>s r. r\<lparr>rs_spec := s\<rparr>) j r
      else if f = ''status'' then store_string (\<lambda>s r. r\<lparr>rs_status := s\<rparr>) j r
      else store_string (\<lambda>s r. r\<lparr>rs_by := s\<rparr>) j r)"

definition resource_tags :: "resource \<Rightarrow> struct_fields" where
  "resource_tags r =
     [(''ID'', [(''required'', ''''), (''min'', ''1''), (''max'', ''100'')], rs_id r),
      (''ResourceType'', [(''required'', ''''), (''oneof'', ''VM RDS S3 Lambda VPC ELB'')], rs_type r),
      (''CloudProvider'', [(''required'', ''''), (''oneof'', ''AWS Azure GCP'')], rs_provider r),
      (''Specification'', [(''required'', ''''), (''min'', ''1''), (''max'', ''1000'')], rs_spec r),
      (''Status'', [(''required'', ''''), (''oneof'', ''pending in_progress completed failed'')], rs_status r),
      (''RequestedBy'', [(''required'', ''''), (''min'', ''1''), (''max'', ''100'')], rs_by r)]"

definition empty_resource :: resource where
  "empty_resource = \<lparr>rs_id = '''', rs_type = '''', rs_provider = '''', rs_spec = '''',
     rs_status = '''', rs_by = ''''\<rparr>"

definition resource_struct :: "resource struct_type" where
  "resource_struct =
     \<lparr>sty_zero = empty_resource, sty_names = resource_fields, sty_store = store_resource_field,
      sty_fields = resource_tags\<rparr>"

subsection \<open>Ports\<close>

text \<open>\<open>SignIn\<close> gives a pointer, nil being \<open>None\<close>.\<close>

record 'e auth_provider =
  ap_sign_up :: "string \<Rightarrow> string \<Rightarrow> 'e \<Rightarrow> (goerr + unit) \<times> 'e"
  ap_sign_in :: "string \<Rightarrow> string \<Rightarrow> 'e \<Rightarrow> (goerr + auth_response option) \<times> 'e"
  ap_confirm :: "string \<Rightarrow> string \<Rightarrow> 'e \<Rightarrow> (goerr + unit) \<times> 'e"

type_synonym 'e publisher = "resource \<Rightarrow> 'e \<Rightarrow> (goerr + unit) \<times> 'e"

record 'e auth_service =
  as_sign_up :: "sign_up_request \<Rightarrow> 'e \<Rightarrow> (goerr + unit) \<times> 'e"
  as_sign_in :: "sign_in_request \<Rightarrow> 'e \<Rightarrow> (goerr + auth_response option) \<times> 'e"
  as_confirm :: "confirm_request \<Rightarrow> 'e \<Rightarrow> (goerr + unit) \<times> 'e"

type_synonym 'e resource_service = "resource \<Rightarrow> 'e \<Rightarrow> (goerr + unit) \<times> 'e"

subsection \<open>Services\<close>

definition NewAuthService :: "'e auth_provider \<Rightarrow> 'e auth_service" where
  "NewAuthService p =
     \<lparr>as_sign_up = (\<lambda>req. ap_sign_up p (su_email req) (su_password req)),
      as_sign_in = (\<lambda>req. ap_sign_in p (si_email req) (si_password req)),
      as_confirm = (\<lambda>req. ap_confirm p (cs_email req) (cs_code req))\<rparr>"

text \<open>A nil logger becomes the no-op logger.\<close>

definition service_logger :: "logger option \<Rightarrow> logger" where
  "service_logger lg = (case lg of None \<Rightarrow> NopLogger | Some l \<Rightarrow> l)"

definition SendProvisioningRequest ::
    "'e runtime \<Rightarrow> logger \<Rightarrow> 'e publisher \<Rightarrow> 'e resource_service" where
  "SendProvisioningRequest rt lg publish r e =
     (let body = (case marshal_resource r of Inr b \<Rightarrow> b | Inl err \<Rightarrow> '''');
          e1 = log_info rt lg ''publishing provisioning request''
                 [F ''resource_id'' (AStr (rs_id r)), F ''resource_type'' (AStr (rs_type r)),
                  F ''body'' (AStr body)] e
      in publish r e1)"

definition NewResourceService ::
    "'e runtime \<Rightarrow> 'e publisher \<Rightarrow> logger option \<Rightarrow> 'e resource_service" where
  "NewResourceService rt publish lg = SendProvisioningRequest rt (service_logger lg) publish"

subsection \<open>A resource through its JSON\<close>

definition utf8_resource :: "resource \<Rightarrow> bool" where
  "utf8_resource r \<longleftrightarrow> valid_utf8 (rs_id r) \<and> valid_utf8 (rs_type r) \<and> valid_utf8 (rs_provider r) \<and>
     valid_utf8 (rs_spec r) \<and> valid_utf8 (rs_status r) \<and> valid_utf8 (rs_by r)"

lemma ascii_keys [simp]:
  "valid_utf8 ''id''" "valid_utf8 ''resource_type''" "valid_utf8 ''cloud_provider''"
  "valid_utf8 ''specification''" "valid_utf8 ''status''" "valid_utf8 ''requested_by''"
  by (simp_all add: valid_utf8_ascii is_ascii_def is_ascii_byte_def)

lemma wf_resource_json: "utf8_resource r \<Longrightarrow> wf_json (resource_json r)"
  by (simp add: resource_json_def utf8_resource_def)

lemma depth_resource_json: "json_depth (resource_json r) \<le> maxNestingDepth"
  by (simp add: resource_json_def maxNestingDepth_def)

text \<open>Whatever bytes a request has, the resource decoded from it is text.\<close>

lemma decoded_resource_utf8:
  assumes "decode_body resource_struct b = Some r" shows "utf8_resource r"
proof -
  obtain bs j where j: "decode_first bs = Some j" "decode_struct resource_fields store_resource_field j empty_resource = Some r"
    using assms by (auto simp: decode_body_def resource_struct_def split: body.splits option.splits)
  show ?thesis
    by (rule decode_struct_keeps [OF _ j(2) decode_first_text [OF j(1)]])
      (auto simp: utf8_resource_def store_resource_field_def store_string_def empty_resource_def
        split: json.splits if_splits)
qed

lemma decode_resource_json:
  "decode_struct resource_fields store_resource_field (resource_json r) empty_resource = Some r"
  by (cases r)
    (simp add: decode_struct_def resource_json_def resource_fields_def store_resource_field_def
      store_string_def empty_resource_def)

lemma decode_marshalled:
  assumes "utf8_resource r" "marshal_resource r = Inr b" "delim t"
  shows "decode_body resource_struct (Body (b @ t)) = Some r"
  using decode_print_json [OF wf_resource_json [OF assms(1)] depth_resource_json assms(3)] assms(2) decode_resource_json [of r]
  by (simp add: decode_body_def marshal_resource_def resource_struct_def)

end
