(* ===== verification/Text_Map_Carriers.thy ===== *)
theory Text_Map_Carriers
  imports Idp_Prelude
begin

text \<open>
  The carriers through which the OpenTelemetry propagator writes trace context onto a queue
  message in the API (\<open>adapters/outbound/kafka\<close>, \<open>adapters/outbound/sqs\<close>) and reads it
  from one in the provisioner (\<open>internal/consumer/propagation.go\<close>). A Kafka message has a list
  of headers, an SQS message a map of attributes whose text may be nil. The propagator itself is
  a parameter: \<open>Inject\<close> sets a list of pairs, \<open>Extract\<close> gets a list of keys.
\<close>

subsection \<open>The interface\<close>

locale text_map_carrier =
  fixes get :: "'c \<Rightarrow> string \<Rightarrow> string"
    and set_key :: "string \<Rightarrow> string \<Rightarrow> 'c \<Rightarrow> 'c"
    and keys :: "'c \<Rightarrow> string list"
    and ok :: "'c \<Rightarrow> bool"
  assumes get_set: "ok c \<Longrightarrow> get (set_key k v c) k' = (if k' = k then v else get c k')"
    and keys_set: "ok c \<Longrightarrow> set (keys (set_key k v c)) = insert k (set (keys c))"
    and ok_set: "ok c \<Longrightarrow> ok (set_key k v c)"
    and get_absent: "ok c \<Longrightarrow> k \<notin> set (keys c) \<Longrightarrow> get c k = ''''"
    and keys_distinct: "ok c \<Longrightarrow> distinct (keys c)"
begin

text \<open>\<open>Inject\<close> writes its pairs one after the other.\<close>

definition inject :: "(string \<times> string) list \<Rightarrow> 'c \<Rightarrow> 'c" where
  "inject ps c = fold (\<lambda>(k, v). set_key k v) ps c"

lemma ok_inject: "ok c \<Longrightarrow> ok (inject ps c)"
  unfolding inject_def by (induction ps arbitrary: c) (auto simp: ok_set)

lemma get_inject:
  "ok c \<Longrightarrow> get (inject ps c) k = (case map_of (rev ps) k of Some v \<Rightarrow> v | None \<Rightarrow> get c k)"
proof (induction ps arbitrary: c)
  case (Cons p ps)
  then show ?case
    by (cases p) (auto simp: inject_def ok_set get_set map_add_def split: option.split)
qed (simp add: inject_def)

lemma keys_inject: "ok c \<Longrightarrow> set (keys (inject ps c)) = fst ` set ps \<union> set (keys c)"
proof (induction ps arbitrary: c)
  case (Cons p ps)
  then show ?case by (cases p) (auto simp: inject_def ok_set keys_set)
qed (simp add: inject_def)

end

subsection \<open>Kafka message headers\<close>

record kafka_header =
  kh_key :: string
  kh_value :: string

fun kafka_get :: "kafka_header list \<Rightarrow> string \<Rightarrow> string" where
  "kafka_get [] key = ''''"
| "kafka_get (h # hs) key = (if kh_key h = key then kh_value h else kafka_get hs key)"

fun kafka_set :: "string \<Rightarrow> string \<Rightarrow> kafka_header list \<Rightarrow> kafka_header list" where
  "kafka_set key v [] = [\<lparr>kh_key = key, kh_value = v\<rparr>]"
| "kafka_set key v (h # hs) =
     (if kh_key h = key then h\<lparr>kh_value := v\<rparr> # hs else h # kafka_set key v hs)"

definition kafka_keys :: "kafka_header list \<Rightarrow> string list" where
  "kafka_keys hs = map kh_key hs"

lemma kafka_keys_set: "set (kafka_keys (kafka_set k v hs)) = insert k (set (kafka_keys hs))"
  by (induction hs) (auto simp: kafka_keys_def)

lemma kafka_get_set: "kafka_get (kafka_set k v hs) k' = (if k' = k then v else kafka_get hs k')"
  by (induction hs) auto

lemma kafka_distinct_set: "distinct (kafka_keys hs) \<Longrightarrow> distinct (kafka_keys (kafka_set k v hs))"
proof (induction hs)
  case (Cons h hs)
  then show ?case using kafka_keys_set [of k v hs] by (auto simp: kafka_keys_def)
qed (simp add: kafka_keys_def)

lemma kafka_get_absent: "k \<notin> set (kafka_keys hs) \<Longrightarrow> kafka_get hs k = ''''"
  by (induction hs) (auto simp: kafka_keys_def)

interpretation kafka_carrier: text_map_carrier kafka_get kafka_set kafka_keys "\<lambda>hs. distinct (kafka_keys hs)"
  by unfold_locales (simp_all add: kafka_get_set kafka_keys_set kafka_distinct_set kafka_get_absent)

subsection \<open>SQS message attributes\<close>

record sqs_attribute =
  at_type :: string
  at_string :: "string option"

type_synonym sqs_attributes = "(string, sqs_attribute) gomap"

definition sqs_get :: "sqs_attributes \<Rightarrow> string \<Rightarrow> string" where
  "sqs_get c key =
     (case map_of c key of
        Some a \<Rightarrow> (case at_string a of Some s \<Rightarrow> s | None \<Rightarrow> '''')
      | None \<Rightarrow> '''')"

definition sqs_set :: "string \<Rightarrow> string \<Rightarrow> sqs_attributes \<Rightarrow> sqs_attributes" where
  "sqs_set key v c = put key \<lparr>at_type = ''String'', at_string = Some v\<rparr> c"

definition sqs_keys :: "sqs_attributes \<Rightarrow> string list" where
  "sqs_keys c = map fst c"

interpretation sqs_carrier: text_map_carrier sqs_get sqs_set sqs_keys "\<lambda>c. distinct (sqs_keys c)"
proof unfold_locales
  fix c :: sqs_attributes and k k' v
  show "sqs_get (sqs_set k v c) k' = (if k' = k then v else sqs_get c k')"
    by (simp add: sqs_get_def sqs_set_def)
  show "set (sqs_keys (sqs_set k v c)) = insert k (set (sqs_keys c))"
    by (simp add: sqs_keys_def sqs_set_def)
  show "distinct (sqs_keys c) \<Longrightarrow> distinct (sqs_keys (sqs_set k v c))"
    by (auto simp: sqs_keys_def sqs_set_def)
  show "k \<notin> set (sqs_keys c) \<Longrightarrow> sqs_get c k = ''''"
    using map_of_eq_None_iff [of c k] by (simp add: sqs_keys_def sqs_get_def)
qed

text \<open>\<open>Inject\<close> on each of them, for the publishers.\<close>

definition kafka_inject :: "(string \<times> string) list \<Rightarrow> kafka_header list \<Rightarrow> kafka_header list" where
  "kafka_inject ps hs = fold (\<lambda>(k, v). kafka_set k v) ps hs"

definition sqs_inject :: "(string \<times> string) list \<Rightarrow> sqs_attributes \<Rightarrow> sqs_attributes" where
  "sqs_inject ps c = fold (\<lambda>(k, v). sqs_set k v) ps c"

lemma kafka_inject_eq: "kafka_inject = kafka_carrier.inject"
  by (simp add: fun_eq_iff kafka_inject_def kafka_carrier.inject_def)

lemma sqs_inject_eq: "sqs_inject = sqs_carrier.inject"
  by (simp add: fun_eq_iff sqs_inject_def sqs_carrier.inject_def)

subsection \<open>The provisioner's carriers\<close>

text \<open>
  \<open>propagation.go\<close> has its own, read-only carriers: \<open>Get\<close> and \<open>Keys\<close> as above, \<open>Set\<close> does
  nothing. \<open>Extract\<close> gets the propagator's fields; an absent one is the empty text.
\<close>

fun recv_kafka_get :: "kafka_header list \<Rightarrow> string \<Rightarrow> string" where
  "recv_kafka_get [] key = ''''"
| "recv_kafka_get (h # hs) key = (if kh_key h = key then kh_value h else recv_kafka_get hs key)"

fun recv_kafka_keys :: "kafka_header list \<Rightarrow> string list" where
  "recv_kafka_keys [] = []"
| "recv_kafka_keys (h # hs) = kh_key h # recv_kafka_keys hs"

definition recv_kafka_set :: "string \<Rightarrow> string \<Rightarrow> kafka_header list \<Rightarrow> kafka_header list" where
  "recv_kafka_set key v hs = hs"

definition recv_sqs_get :: "sqs_attributes \<Rightarrow> string \<Rightarrow> string" where
  "recv_sqs_get c key =
     (case map_of c key of
        None \<Rightarrow> ''''
      | Some a \<Rightarrow> (case at_string a of None \<Rightarrow> '''' | Some s \<Rightarrow> s))"

definition recv_sqs_keys :: "sqs_attributes \<Rightarrow> string list" where
  "recv_sqs_keys c = map fst c"

definition recv_sqs_set :: "string \<Rightarrow> string \<Rightarrow> sqs_attributes \<Rightarrow> sqs_attributes" where
  "recv_sqs_set key v c = c"

text \<open>What an extractor is given of a carrier: its \<open>Get\<close> and its \<open>Keys\<close>; it derives a context.\<close>

type_synonym 'c extractor = "(string \<Rightarrow> string) \<Rightarrow> string list \<Rightarrow> 'c \<Rightarrow> 'c"

definition extractKafka :: "'c extractor \<Rightarrow> 'c \<Rightarrow> kafka_header list \<Rightarrow> 'c" where
  "extractKafka extract ctx headers = extract (recv_kafka_get headers) (recv_kafka_keys headers) ctx"

definition extractSQS :: "'c extractor \<Rightarrow> 'c \<Rightarrow> sqs_attributes \<Rightarrow> 'c" where
  "extractSQS extract ctx attrs = extract (recv_sqs_get attrs) (recv_sqs_keys attrs) ctx"

lemma recv_kafka_eq: "recv_kafka_get hs k = kafka_get hs k" "recv_kafka_keys hs = kafka_keys hs"
  by (induction hs) (simp_all add: kafka_keys_def)

lemma recv_sqs_eq: "recv_sqs_get c k = sqs_get c k" "recv_sqs_keys c = sqs_keys c"
  by (simp_all add: recv_sqs_get_def sqs_get_def recv_sqs_keys_def sqs_keys_def split: option.split)

definition injected :: "(string \<times> string) list \<Rightarrow> string \<Rightarrow> string" where
  "injected ps k = (case map_of (rev ps) k of Some v \<Rightarrow> v | None \<Rightarrow> '''')"

lemma recv_kafka_injected: "recv_kafka_get (kafka_inject ps []) = injected ps"
  using kafka_carrier.get_inject [of "[]" ps]
  by (simp add: fun_eq_iff recv_kafka_eq kafka_inject_eq kafka_keys_def injected_def split: option.split)

lemma recv_sqs_injected: "recv_sqs_get (sqs_inject ps []) = injected ps"
  using sqs_carrier.get_inject [of "[]" ps]
  by (simp add: fun_eq_iff recv_sqs_eq sqs_inject_eq sqs_keys_def sqs_get_def injected_def split: option.split)

lemma injected_keys:
  "set (recv_kafka_keys (kafka_inject ps [])) = fst ` set ps" "distinct (recv_kafka_keys (kafka_inject ps []))"
  "set (recv_sqs_keys (sqs_inject ps [])) = fst ` set ps" "distinct (recv_sqs_keys (sqs_inject ps []))"
  using kafka_carrier.keys_inject [of "[]" ps] kafka_carrier.ok_inject [of "[]" ps]
    sqs_carrier.keys_inject [of "[]" ps] sqs_carrier.ok_inject [of "[]" ps]
  by (simp_all add: recv_kafka_eq recv_sqs_eq kafka_inject_eq sqs_inject_eq kafka_keys_def sqs_keys_def)

subsection \<open>Properties\<close>

text \<open>C17: The trace context the API's publisher writes onto a message arrives: over Kafka headers as
  over SQS attributes, the propagator in the provisioner is given exactly the pairs the
  propagator in the API has set, each key once, with the text set last.\<close>

theorem trace_context_arrives:
  "\<exists>ks ks'. set ks = fst ` set ps \<and> set ks' = fst ` set ps \<and> distinct ks \<and> distinct ks' \<and>
     extractKafka extract ctx (kafka_inject ps []) = extract (injected ps) ks ctx \<and>
     extractSQS extract ctx (sqs_inject ps []) = extract (injected ps) ks' ctx"
  using injected_keys [of ps]
  by (auto simp: extractKafka_def extractSQS_def recv_kafka_injected recv_sqs_injected)

end
