(* ===== verification/Api_Adapters.thy ===== *)
theory Api_Adapters
  imports Api_Domain Text_Map_Carriers
begin

text \<open>
  The outbound adapters of the API: \<open>adapters/outbound/cognito/auth_provider.go\<close>,
  \<open>adapters/outbound/kafka/resource_publisher.go\<close> and \<open>adapters/outbound/sqs\<close>. The AWS and
  Kafka clients are parameters; \<open>trace\<close> is what the propagator injects for the current context.
\<close>

subsection \<open>Cognito\<close>

record sign_up_input =
  sui_client :: string
  sui_username :: string
  sui_password :: string
  sui_attributes :: "(string \<times> string) list"

record initiate_auth_input =
  ia_flow :: string
  ia_client :: string
  ia_parameters :: "(string, string) gomap"

record auth_result =
  aur_access :: "string option"
  aur_refresh :: "string option"
  aur_id :: "string option"
  aur_expires :: int
  aur_type :: "string option"

record confirm_input =
  ci_client :: string
  ci_username :: string
  ci_code :: string

record 'e cognito_client =
  cc_sign_up :: "sign_up_input \<Rightarrow> 'e \<Rightarrow> (goerr + unit) \<times> 'e"
  cc_initiate_auth :: "initiate_auth_input \<Rightarrow> 'e \<Rightarrow> (goerr + auth_result option) \<times> 'e"
  cc_confirm :: "confirm_input \<Rightarrow> 'e \<Rightarrow> (goerr + unit) \<times> 'e"

text \<open>\<open>aws.ToString\<close>: a nil pointer is the empty string.\<close>

definition to_string :: "string option \<Rightarrow> string" where
  "to_string p = (case p of Some s \<Rightarrow> s | None \<Rightarrow> '''')"

definition failed_with :: "string \<Rightarrow> string \<Rightarrow> goerr \<Rightarrow> goerr" where
  "failed_with code msg cause = DomainErr (new_domain_error code msg (Some cause))"

definition cognito_sign_up ::
    "'e cognito_client \<Rightarrow> string \<Rightarrow> string \<Rightarrow> string \<Rightarrow> 'e \<Rightarrow> (goerr + unit) \<times> 'e" where
  "cognito_sign_up cc clientID email password e =
     (case cc_sign_up cc \<lparr>sui_client = clientID, sui_username = email, sui_password = password,
          sui_attributes = [(''email'', email)]\<rparr> e of
        (Inl err, e') \<Rightarrow> (Inl (failed_with ErrCodeUserAlreadyExists ''failed to register user'' err), e')
      | (Inr u, e') \<Rightarrow> (Inr (), e'))"

definition cognito_sign_in ::
    "'e cognito_client \<Rightarrow> string \<Rightarrow> string \<Rightarrow> string \<Rightarrow> 'e \<Rightarrow> (goerr + auth_response option) \<times> 'e" where
  "cognito_sign_in cc clientID email password e =
     (case cc_initiate_auth cc \<lparr>ia_flow = ''USER_PASSWORD_AUTH'', ia_client = clientID,
          ia_parameters = [(''USERNAME'', email), (''PASSWORD'', password)]\<rparr> e of
        (Inl err, e') \<Rightarrow> (Inl (failed_with ErrCodeInvalidCredentials ''authentication failed'' err), e')
      | (Inr None, e') \<Rightarrow>
          (Inl (failed_with ErrCodeAuthFailed ''authentication failed: no result returned''
             (Sentinel ErrUnauthorized)), e')
      | (Inr (Some res), e') \<Rightarrow>
          (Inr (Some \<lparr>ar_access = to_string (aur_access res), ar_refresh = to_string (aur_refresh res),
             ar_id = to_string (aur_id res), ar_expires = aur_expires res,
             ar_type = to_string (aur_type res)\<rparr>), e'))"

definition cognito_confirm ::
    "'e cognito_client \<Rightarrow> string \<Rightarrow> string \<Rightarrow> string \<Rightarrow> 'e \<Rightarrow> (goerr + unit) \<times> 'e" where
  "cognito_confirm cc clientID email code e =
     (case cc_confirm cc \<lparr>ci_client = clientID, ci_username = email, ci_code = code\<rparr> e of
        (Inl err, e') \<Rightarrow>
          (Inl (failed_with ErrCodeInvalidConfirmationCode ''failed to confirm user registration'' err), e')
      | (Inr u, e') \<Rightarrow> (Inr (), e'))"

definition NewCognitoAuthProvider :: "'e cognito_client \<Rightarrow> string \<Rightarrow> 'e auth_provider" where
  "NewCognitoAuthProvider cc clientID =
     \<lparr>ap_sign_up = cognito_sign_up cc clientID, ap_sign_in = cognito_sign_in cc clientID,
      ap_confirm = cognito_confirm cc clientID\<rparr>"

subsection \<open>Publishing to Kafka\<close>

record kafka_message =
  km_key :: string
  km_value :: string
  km_headers :: "kafka_header list"

record kafka_writer_config =
  kw_brokers :: "string list"
  kw_topic :: string
  kw_balancer :: string
  kw_auto_create :: bool

type_synonym 'e kafka_writer = "kafka_message \<Rightarrow> 'e \<Rightarrow> (goerr + unit) \<times> 'e"

definition kafka_publisher_config :: "string list \<Rightarrow> string \<Rightarrow> kafka_writer_config" where
  "kafka_publisher_config brokers topic =
     \<lparr>kw_brokers = brokers, kw_topic = topic, kw_balancer = ''hash'', kw_auto_create = True\<rparr>"

definition kafka_publish ::
    "'e kafka_writer \<Rightarrow> ('e \<Rightarrow> (string \<times> string) list) \<Rightarrow> 'e publisher" where
  "kafka_publish kwriter trace r e =
     (case marshal_resource r of
        Inl err \<Rightarrow> (Inl (failed_with ErrCodeQueueError ''failed to serialize resource for publishing'' err), e)
      | Inr body \<Rightarrow>
          (case kwriter \<lparr>km_key = rs_id r, km_value = body, km_headers = kafka_inject (trace e) []\<rparr> e of
             (Inl err, e') \<Rightarrow>
               (Inl (failed_with ErrCodeQueueError
                  (''failed to publish resource '' @ rs_id r @ '' to kafka'') err), e')
           | (Inr u, e') \<Rightarrow> (Inr (), e')))"

definition kafka_close :: "('e \<Rightarrow> (goerr + unit) \<times> 'e) \<Rightarrow> 'e \<Rightarrow> (goerr + unit) \<times> 'e" where
  "kafka_close close e = close e"

subsection \<open>Publishing to SQS\<close>

record sqs_message_input =
  sm_body :: string
  sm_queue :: string
  sm_attributes :: "sqs_attributes option"

type_synonym 'e sqs_sender = "sqs_message_input \<Rightarrow> 'e \<Rightarrow> (goerr + unit) \<times> 'e"

definition sqs_publish ::
    "'e sqs_sender \<Rightarrow> string \<Rightarrow> ('e \<Rightarrow> (string \<times> string) list) \<Rightarrow> 'e publisher" where
  "sqs_publish send queueURL trace r e =
     (case marshal_resource r of
        Inl err \<Rightarrow> (Inl (failed_with ErrCodeQueueError ''failed to serialize resource for publishing'' err), e)
      | Inr body \<Rightarrow>
          (let attrs = sqs_inject (trace e) [];
               input = \<lparr>sm_body = body, sm_queue = queueURL,
                        sm_attributes = (if attrs \<noteq> [] then Some attrs else None)\<rparr>
           in case send input e of
                (Inl err, e') \<Rightarrow>
                  (Inl (failed_with ErrCodeQueueError
                     (''failed to publish resource '' @ rs_id r @ '' to queue'') err), e')
              | (Inr u, e') \<Rightarrow> (Inr (), e')))"

subsection \<open>Properties\<close>

text \<open>What a publisher hands to its queue is a message whose text decodes to the resource that
  was to be published, with the resource id as Kafka key; it fails exactly when the queue's
  client does, with a \<open>QUEUE_ERROR\<close> that is whatever the client's error is.\<close>

theorem publishers_send_the_resource:
  assumes "utf8_resource r"
  shows "\<exists>km sm. decode_body resource_struct (Body (km_value km)) = Some r \<and> km_key km = rs_id r \<and>
    decode_body resource_struct (Body (sm_body sm)) = Some r \<and> sm_queue sm = q \<and>
    kafka_publish kwriter trace r e = (case kwriter km e of
       (Inl err, e') \<Rightarrow> (Inl (failed_with ErrCodeQueueError (''failed to publish resource '' @ rs_id r @ '' to kafka'') err), e')
     | (Inr u, e') \<Rightarrow> (Inr (), e')) \<and>
    sqs_publish send q trace r e = (case send sm e of
       (Inl err, e') \<Rightarrow> (Inl (failed_with ErrCodeQueueError (''failed to publish resource '' @ rs_id r @ '' to queue'') err), e')
     | (Inr u, e') \<Rightarrow> (Inr (), e'))"
proof -
  let ?b = "print_json (resource_json r)"
  let ?km = "\<lparr>km_key = rs_id r, km_value = ?b, km_headers = kafka_inject (trace e) []\<rparr>"
  let ?attrs = "sqs_inject (trace e) []"
  let ?sm = "\<lparr>sm_body = ?b, sm_queue = q, sm_attributes = (if ?attrs \<noteq> [] then Some ?attrs else None)\<rparr>"
  have "decode_body resource_struct (Body ?b) = Some r"
    using decode_marshalled [OF assms, of ?b "[]"] by (simp add: marshal_resource_def)
  then show ?thesis
    by (intro exI [of _ ?km] exI [of _ ?sm])
      (simp add: kafka_publish_def sqs_publish_def marshal_resource_def Let_def)
qed

definition sample_resource :: resource where
  "sample_resource = \<lparr>rs_id = ''vm-001'', rs_type = ''VM'', rs_provider = ''AWS'',
     rs_spec = ''t2.micro'', rs_status = ''pending'', rs_by = ''rafael''\<rparr>"

lemma sample_resource_utf8: "utf8_resource sample_resource"
  by (simp add: utf8_resource_def sample_resource_def valid_utf8_ascii is_ascii_def is_ascii_byte_def)

theorem publishers_send_the_resource_witness:
  "\<exists>km. decode_body resource_struct (Body (km_value km)) = Some sample_resource \<and>
     kafka_publish (\<lambda>m ms. (Inr (), ms @ [m])) (\<lambda>e. []) sample_resource [] = (Inr (), [km])"
  using publishers_send_the_resource [OF sample_resource_utf8, of "''url''" "\<lambda>m ms. (Inr (), ms @ [m])"
      "\<lambda>e. []" "[]" "\<lambda>m ms. (Inr (), ms)"]
  by auto

text \<open>Cognito's failures come back as domain errors that are whatever the client's error is
  (the missing result is \<open>unauthorized\<close>), and a returned token set is passed on field by field.\<close>

theorem cognito_errors:
  "(case cc_initiate_auth cc \<lparr>ia_flow = ''USER_PASSWORD_AUTH'', ia_client = cid,
        ia_parameters = [(''USERNAME'', email), (''PASSWORD'', pw)]\<rparr> e of
      (Inl err, e') \<Rightarrow> \<exists>x. cognito_sign_in cc cid email pw e = (Inl x, e') \<and> (\<forall>t. errors_is x t \<longleftrightarrow> errors_is err t)
    | (Inr None, e') \<Rightarrow> \<exists>x. cognito_sign_in cc cid email pw e = (Inl x, e') \<and> (\<forall>t. errors_is x t \<longleftrightarrow> t = ErrUnauthorized)
    | (Inr (Some res), e') \<Rightarrow> \<exists>a. cognito_sign_in cc cid email pw e = (Inr (Some a), e') \<and>
        ar_access a = to_string (aur_access res) \<and> ar_expires a = aur_expires res)"
  by (auto simp: cognito_sign_in_def failed_with_def new_domain_error_def split: prod.split sum.split option.split)

end
