(* ===== verification/Api_Middleware.thy ===== *)
theory Api_Middleware
  imports Api_Responses Api_Logger
begin

text \<open>
  \<open>adapters/inbound/http/middleware.go\<close> and \<open>metrics_middleware.go\<close>: the layers the router
  puts around every route. A layer is a function of handlers; the clock, UUIDs, instruments
  and the log come from the runtime. The text of \<open>debug.Stack\<close> is a parameter.
\<close>

type_synonym 'e middleware = "'e handler \<Rightarrow> 'e handler"

subsection \<open>Methods and patterns\<close>

definition known_methods :: "string list" where
  "known_methods = [''GET'', ''HEAD'', ''POST'', ''PUT'', ''PATCH'', ''DELETE'', ''CONNECT'',
     ''OPTIONS'', ''TRACE'']"

definition normalizeMethod :: "string \<Rightarrow> string" where
  "normalizeMethod m = (if m \<in> set known_methods then m else ''_OTHER'')"

definition patternPath :: "string \<Rightarrow> string" where
  "patternPath pattern =
     (if CHR '' '' \<in> set pattern then drop 1 (dropWhile (\<lambda>c. c \<noteq> CHR '' '') pattern) else pattern)"

definition metricsPath :: string where "metricsPath = ''/metrics''"
definition healthPath :: string where "healthPath = ''/v1/health''"

subsection \<open>Instrumentation\<close>

definition active_requests :: string where
  "active_requests = ''http.server.active_requests''"

definition request_duration :: string where
  "request_duration = ''http.server.request.duration''"

definition method_attrs :: "http_request \<Rightarrow> attrs" where
  "method_attrs r = [(''http.request.method'', AStr (normalizeMethod (rq_method r)))]"

text \<open>
  \<open>created\<close> is whether the meter could create the instrument. The decrement is deferred, so
  it also runs when a panic passes; it uses the attributes computed on entry.
\<close>

definition ActiveRequestsMiddleware :: "'e runtime \<Rightarrow> bool \<Rightarrow> 'e middleware" where
  "ActiveRequestsMiddleware rt created next =
     (if \<not> created then next
      else (\<lambda>r w e.
        if rq_path r = metricsPath then next r w e
        else
          (case next r w (rt_add rt active_requests 1 (method_attrs r) e) of
             (out, r', w', e') \<Rightarrow> (out, r', w', rt_add rt active_requests (- 1) (method_attrs r) e'))))"

definition duration_attrs :: "http_request \<Rightarrow> int \<Rightarrow> attrs" where
  "duration_attrs r status =
     method_attrs r @ [(''http.response.status_code'', AInt status)] @
     (if patternPath (rq_pattern r) \<noteq> ''''
      then [(''http.route'', AStr (patternPath (rq_pattern r)))] else [])"

definition newStatusRecorder :: "writer \<Rightarrow> writer" where
  "newStatusRecorder w = StatusRecorder w 200"

text \<open>Not deferred: a panic that passes leaves no point.\<close>

definition RequestDurationMiddleware :: "'e runtime \<Rightarrow> bool \<Rightarrow> 'e middleware" where
  "RequestDurationMiddleware rt created next =
     (if \<not> created then next
      else (\<lambda>r w e.
        if rq_path r = metricsPath then next r w e
        else
          (let (start, e1) = rt_now rt e in
           case next r (newStatusRecorder w) e1 of
             (Panicked v, r', rec, e2) \<Rightarrow> (Panicked v, r', w_inner rec, e2)
           | (Returned, r', rec, e2) \<Rightarrow>
               (let (now, e3) = rt_now rt e2
                in (Returned, r', w_inner rec,
                    rt_record rt request_duration (now - start) (duration_attrs r' (rec_status rec)) e3)))))"

subsection \<open>Logging and recovery\<close>

definition route_of :: "http_request \<Rightarrow> string" where
  "route_of r = (let route = patternPath (rq_pattern r) in if route = '''' then rq_path r else route)"

definition microseconds :: "duration \<Rightarrow> int" where
  "microseconds d = sgn d * (\<bar>d\<bar> div 1000)"

definition request_line :: "http_request \<Rightarrow> int \<Rightarrow> duration \<Rightarrow> (string \<times> attr_value) list" where
  "request_line r status d =
     [F ''method'' (AStr (rq_method r)), F ''route'' (AStr (route_of r)), F ''status'' (AInt status),
      F ''duration_ms'' (AMicros (microseconds d)),
      F ''request_id'' (AStr (header_get ''X-Request-Id'' (rq_header r)))]"

definition RequestLoggingMiddleware :: "'e runtime \<Rightarrow> logger \<Rightarrow> 'e middleware" where
  "RequestLoggingMiddleware rt lg next r w e =
     (if rq_path r = metricsPath \<or> rq_path r = healthPath then next r w e
      else
        (let (start, e1) = rt_now rt e in
         case next r (newStatusRecorder w) e1 of
           (Panicked v, r', rec, e2) \<Rightarrow> (Panicked v, r', w_inner rec, e2)
         | (Returned, r', rec, e2) \<Rightarrow>
             (let (now, e3) = rt_now rt e2
              in (Returned, r', w_inner rec,
                  log_info rt lg ''http request'' (request_line r' (rec_status rec) (now - start)) e3))))"

definition panic_line :: "string \<Rightarrow> string \<Rightarrow> http_request \<Rightarrow> (string \<times> attr_value) list" where
  "panic_line stack v r =
     [F ''error'' (AStr v), F ''method'' (AStr (rq_method r)), F ''path'' (AStr (rq_path r)),
      F ''request_id'' (AStr (header_get ''X-Request-Id'' (rq_header r))), F ''stack'' (AStr stack)]"

definition RecoveryMiddleware :: "'e runtime \<Rightarrow> string \<Rightarrow> logger \<Rightarrow> 'e middleware" where
  "RecoveryMiddleware rt stack lg next r w e =
     (case next r w e of
        (Returned, r', w', e') \<Rightarrow> (Returned, r', w', e')
      | (Panicked v, r', w', e') \<Rightarrow>
          (Returned, r',
           RespondWithError w' 500 (simple_error ErrCodeInternalError ''An unexpected error occurred''
             (header_get ''X-Request-Id'' (rq_header r'))),
           log_error rt lg ''http request panic recovered'' (panic_line stack v r') e'))"

subsection \<open>Headers\<close>

definition set_request_header :: "string \<Rightarrow> string \<Rightarrow> http_request \<Rightarrow> http_request" where
  "set_request_header k v r = r\<lparr>rq_header := header_set k v (rq_header r)\<rparr>"

definition format_nano :: "gotime \<Rightarrow> string" where
  "format_nano t = (case format_rfc3339 t of Some s \<Rightarrow> s | None \<Rightarrow> '''')"

definition RequestContextMiddleware :: "'e runtime \<Rightarrow> 'e middleware" where
  "RequestContextMiddleware rt next r w e =
     (let (now, e1) = rt_now rt e
      in next (set_request_header ''X-Request-Start'' (format_nano now) r) w e1)"

definition request_id_for :: "'e runtime \<Rightarrow> http_request \<Rightarrow> 'e \<Rightarrow> string \<times> 'e" where
  "request_id_for rt r e =
     (let id = header_get ''X-Request-Id'' (rq_header r);
          id' = (if id = '''' then header_get ''X-Amzn-Trace-Id'' (rq_header r) else id)
      in if id' = '''' then rt_uuid rt e else (id', e))"

definition standard_headers :: "string \<Rightarrow> string \<Rightarrow> (string \<times> string) list" where
  "standard_headers requestID stamp =
     [(''X-Request-Id'', requestID),
      (''X-Content-Type-Options'', ''nosniff''),
      (''X-Frame-Options'', ''DENY''),
      (''X-XSS-Protection'', ''1; mode=block''),
      (''Cache-Control'', ''no-store, no-cache, must-revalidate''),
      (''Pragma'', ''no-cache''),
      (''X-API-Version'', drop 1 APIVersionPrefix),
      (''X-Response-Time'', stamp)]"

definition set_all :: "(string \<times> string) list \<Rightarrow> writer \<Rightarrow> writer" where
  "set_all hs w = fold (\<lambda>(k, v). w_set_header k v) hs w"

definition StandardHeadersMiddleware :: "'e runtime \<Rightarrow> 'e middleware" where
  "StandardHeadersMiddleware rt next r w e =
     (let (requestID, e1) = request_id_for rt r e;
          r1 = set_request_header ''X-Request-Id'' requestID r;
          (now, e2) = rt_now rt e1
      in next r1 (set_all (standard_headers requestID (format_seconds now)) w) e2)"

definition origin_allowed :: "string list \<Rightarrow> string \<Rightarrow> bool" where
  "origin_allowed allowedOrigins origin \<longleftrightarrow> list_ex (\<lambda>o'. o' = ''*'' \<or> o' = origin) allowedOrigins"

definition cors_headers :: "string \<Rightarrow> (string \<times> string) list" where
  "cors_headers origin =
     [(''Access-Control-Allow-Origin'', origin),
      (''Access-Control-Allow-Credentials'', ''true''),
      (''Access-Control-Expose-Headers'',
       ''X-Request-Id, X-API-Version, X-RateLimit-Limit, X-RateLimit-Remaining, X-RateLimit-Reset'')]"

definition preflight_headers :: "(string \<times> string) list" where
  "preflight_headers =
     [(''Access-Control-Allow-Methods'', ''GET, POST, PUT, PATCH, DELETE, OPTIONS''),
      (''Access-Control-Allow-Headers'', ''Authorization, Content-Type, X-Request-Id, X-Idempotency-Key''),
      (''Access-Control-Max-Age'', ''86400'')]"

definition CORSMiddleware :: "string list \<Rightarrow> 'e middleware" where
  "CORSMiddleware allowedOrigins next r w e =
     (let origin = header_get ''Origin'' (rq_header r);
          w1 = (if origin_allowed allowedOrigins origin \<and> origin \<noteq> ''''
                then set_all (cors_headers origin) w else w)
      in if rq_method r = ''OPTIONS''
         then (Returned, r, w_write_header 204 (set_all preflight_headers w1), e)
         else next r w1 e)"

subsection \<open>The chain\<close>

definition ChainMiddleware :: "'e handler \<Rightarrow> 'e middleware list \<Rightarrow> 'e handler" where
  "ChainMiddleware h mws = foldr (\<lambda>m h'. m h') mws h"

end
