(* ===== verification/Middleware_Layers.thy ===== *)
theory Middleware_Layers
  imports Api_Middleware
begin

text \<open>
  What each layer of \<open>middleware.go\<close> and \<open>metrics_middleware.go\<close> does to an arbitrary inner
  handler: it reaches the writer only through its interface, it never hides a response header
  it has set, the gauge is balanced on every way out, a completed request leaves one point and
  one line, and below the recovery layer nothing panics. The laws of the instruments come from
  \<open>runtime_laws\<close>.
\<close>

subsection \<open>The parts of a result\<close>

abbreviation out_of :: "outcome \<times> http_request \<times> writer \<times> 'e \<Rightarrow> outcome" where
  "out_of x \<equiv> fst x"

abbreviation request_of :: "outcome \<times> http_request \<times> writer \<times> 'e \<Rightarrow> http_request" where
  "request_of x \<equiv> fst (snd x)"

abbreviation writer_of :: "outcome \<times> http_request \<times> writer \<times> 'e \<Rightarrow> writer" where
  "writer_of x \<equiv> fst (snd (snd x))"

abbreviation world_of :: "outcome \<times> http_request \<times> writer \<times> 'e \<Rightarrow> 'e" where
  "world_of x \<equiv> snd (snd (snd x))"

subsection \<open>Writers are used through their interface\<close>

text \<open>A handler whose actions on the writer are of the kind \<open>P\<close>, given how it ended.\<close>

definition runs :: "(outcome \<Rightarrow> w_action list \<Rightarrow> bool) \<Rightarrow> writer \<Rightarrow> outcome \<times> http_request \<times> writer \<times> 'e \<Rightarrow> bool" where
  "runs P w x \<longleftrightarrow> (\<exists>acts. P (out_of x) acts \<and> writer_of x = w_run acts w)"

definition runs_within :: "(outcome \<Rightarrow> w_action list \<Rightarrow> bool) \<Rightarrow> 'e handler \<Rightarrow> bool" where
  "runs_within P next \<longleftrightarrow> (\<forall>r w e. runs P w (next r w e))"

lemma runsI: "P (out_of x) acts \<Longrightarrow> writer_of x = w_run acts w \<Longrightarrow> runs P w x"
  by (auto simp: runs_def)

lemma runs_withinI: "(\<And>r w e. runs P w (next r w e)) \<Longrightarrow> runs_within P next"
  by (simp add: runs_within_def)

lemma runs_withinE:
  assumes "runs_within P next"
  obtains acts where "P (out_of (next r w e)) acts" "writer_of (next r w e) = w_run acts w"
  using assms unfolding runs_within_def runs_def by blast

lemma runs_within_mono: "runs_within P next \<Longrightarrow> (\<And>out acts. P out acts \<Longrightarrow> Q out acts) \<Longrightarrow> runs_within Q next"
  unfolding runs_within_def runs_def by blast

lemma interface_runs: "interface_handler next \<longleftrightarrow> runs_within (\<lambda>out acts. True) next"
  by (simp add: interface_handler_def runs_within_def runs_def)

definition header_sets :: "(string \<times> string) list \<Rightarrow> w_action list" where
  "header_sets hs = map (\<lambda>(k, v). SetHeader k v) hs"

lemma set_all_run: "set_all hs w = w_run (header_sets hs) w"
  unfolding set_all_def header_sets_def by (induction hs arbitrary: w) auto

lemma inner_status_run: "w_inner (w_run acts (StatusRecorder w st)) = w_run acts w"
  using status_recorder_run [of acts w st] by auto

lemma active_requests_runs:
  assumes "runs_within P next"
  shows "runs_within P (ActiveRequestsMiddleware rt created next)"
proof (rule runs_withinI)
  fix r :: http_request and w e
  note direct = runs_withinE [OF assms, of r w e]
  note counted = runs_withinE [OF assms, of r w "rt_add rt active_requests 1 (method_attrs r) e"]
  show "runs P w (ActiveRequestsMiddleware rt created next r w e)"
    by (rule direct, rule counted, cases "created \<and> rq_path r \<noteq> metricsPath")
      (auto intro: runsI simp: ActiveRequestsMiddleware_def split_beta)
qed

lemma request_duration_runs:
  assumes "runs_within P next"
  shows "runs_within P (RequestDurationMiddleware rt created next)"
proof (rule runs_withinI)
  fix r :: http_request and w e
  note direct = runs_withinE [OF assms, of r w e]
  note timed = runs_withinE [OF assms, of r "newStatusRecorder w" "snd (rt_now rt e)"]
  show "runs P w (RequestDurationMiddleware rt created next r w e)"
    by (rule direct, rule timed, cases "created \<and> rq_path r \<noteq> metricsPath")
      (auto intro: runsI simp: RequestDurationMiddleware_def newStatusRecorder_def inner_status_run
        split: prod.split outcome.split)
qed

lemma request_logging_runs:
  assumes "runs_within P next"
  shows "runs_within P (RequestLoggingMiddleware rt lg next)"
proof (rule runs_withinI)
  fix r :: http_request and w e
  note direct = runs_withinE [OF assms, of r w e]
  note timed = runs_withinE [OF assms, of r "newStatusRecorder w" "snd (rt_now rt e)"]
  show "runs P w (RequestLoggingMiddleware rt lg next r w e)"
    by (rule direct, rule timed, cases "rq_path r = metricsPath \<or> rq_path r = healthPath")
      (auto intro: runsI simp: RequestLoggingMiddleware_def newStatusRecorder_def inner_status_run
        split: prod.split outcome.split)
qed

text \<open>The recovery layer may add an error response.\<close>

definition error_acts :: "int \<Rightarrow> error_response \<Rightarrow> w_action list" where
  "error_acts code err = [SetHeader ''Content-Type'' ''application/json'', WriteHeader code,
     WriteBody (encode_line (error_json err))]"

lemma error_run: "RespondWithError w code err = w_run (error_acts code err) w"
  by (simp add: RespondWithError_def send_json_run error_acts_def)

definition recovered :: "http_request \<Rightarrow> error_response" where
  "recovered r = simple_error ErrCodeInternalError ''An unexpected error occurred''
     (header_get ''X-Request-Id'' (rq_header r))"

lemma recovery_writer:
  "writer_of (RecoveryMiddleware rt stack lg next r w e) =
     (case next r w e of
        (Returned, r', w', e') \<Rightarrow> w'
      | (Panicked v, r', w', e') \<Rightarrow> w_run (error_acts 500 (recovered r')) w')"
  by (simp add: RecoveryMiddleware_def error_run recovered_def split: prod.split outcome.split)

lemma recovery_runs:
  assumes "runs_within P next" and "\<And>acts. P Returned acts \<Longrightarrow> Q Returned acts"
    and "\<And>v acts err. P (Panicked v) acts \<Longrightarrow> Q Returned (acts @ error_acts 500 err)"
  shows "runs_within Q (RecoveryMiddleware rt stack lg next)"
proof (rule runs_withinI)
  fix r :: http_request and w e
  obtain out r' w' e' where n: "next r w e = (out, r', w', e')" by (cases "next r w e")
  obtain acts where a: "P out acts" "w' = w_run acts w"
    using runs_withinE [OF assms(1), of r w e] n by auto
  show "runs Q w (RecoveryMiddleware rt stack lg next r w e)"
  proof (cases out)
    case Returned
    with n a assms(2) show ?thesis by (intro runsI [of _ _ acts]) (simp_all add: RecoveryMiddleware_def)
  next
    case (Panicked v)
    with n a assms(3) show ?thesis
      by (intro runsI [of _ _ "acts @ error_acts 500 (recovered r')"])
        (simp_all add: RecoveryMiddleware_def error_run recovered_def)
  qed
qed

lemma recovery_returns [simp]: "out_of (RecoveryMiddleware rt stack lg next r w e) = Returned"
  by (simp add: RecoveryMiddleware_def split: prod.split outcome.split)

lemma request_context_runs: "runs_within P next \<Longrightarrow> runs_within P (RequestContextMiddleware rt next)"
  by (simp add: runs_within_def RequestContextMiddleware_def split_beta Let_def)

lemma standard_headers_runs:
  assumes "runs_within P next"
    and "\<And>id stamp out acts. P out acts \<Longrightarrow> Q out (header_sets (standard_headers id stamp) @ acts)"
  shows "runs_within Q (StandardHeadersMiddleware rt next)"
proof (rule runs_withinI)
  fix r :: http_request and w e
  let ?hs = "standard_headers (fst (request_id_for rt r e)) (format_seconds (fst (rt_now rt (snd (request_id_for rt r e)))))"
  let ?r = "set_request_header ''X-Request-Id'' (fst (request_id_for rt r e)) r"
  let ?e = "snd (rt_now rt (snd (request_id_for rt r e)))"
  obtain acts where "P (out_of (next ?r (set_all ?hs w) ?e)) acts"
    "writer_of (next ?r (set_all ?hs w) ?e) = w_run acts (set_all ?hs w)"
    by (rule runs_withinE [OF assms(1)])
  then show "runs Q w (StandardHeadersMiddleware rt next r w e)"
    by (intro runsI [of _ _ "header_sets ?hs @ acts"])
      (simp_all add: StandardHeadersMiddleware_def split_beta Let_def set_all_run assms(2))
qed

lemma cors_runs:
  assumes "runs_within P next"
    and "\<And>origin out acts. P out acts \<Longrightarrow> P out (header_sets (cors_headers origin) @ acts)"
    and "P Returned (header_sets preflight_headers @ [WriteHeader 204])"
  shows "runs_within P (CORSMiddleware origins next)"
proof (rule runs_withinI)
  fix r :: http_request and w e
  let ?origin = "header_get ''Origin'' (rq_header r)"
  let ?ok = "origin_allowed origins ?origin \<and> ?origin \<noteq> ''''"
  let ?as = "if ?ok then header_sets (cors_headers ?origin) else []"
  let ?ps = "header_sets preflight_headers @ [WriteHeader 204]"
  obtain acts where a: "P (out_of (next r (w_run ?as w) e)) acts"
    "writer_of (next r (w_run ?as w) e) = w_run acts (w_run ?as w)"
    by (rule runs_withinE [OF assms(1)])
  have pre: "P out (?as @ acts)" if "P out acts" for out acts
    using that assms(2) by (cases ?ok) simp_all
  have "w_run ?ps (w_run ?as w) = w_run (?as @ ?ps) w" by simp
  then have "runs P w (Returned, r, w_run ?ps (w_run ?as w), e)"
    using pre [OF assms(3)] by (intro runsI [of _ _ "?as @ ?ps"]) (simp_all del: w_run_simps)
  moreover have "w_run acts (w_run ?as w) = w_run (?as @ acts) w" by simp
  then have "runs P w (next r (w_run ?as w) e)"
    using a(2) pre [OF a(1)] by (intro runsI [of _ _ "?as @ acts"]) (simp_all del: w_run_simps)
  moreover have "CORSMiddleware origins next r w e =
      (if rq_method r = ''OPTIONS'' then (Returned, r, w_run ?ps (w_run ?as w), e) else next r (w_run ?as w) e)"
    by (cases ?ok) (auto simp: CORSMiddleware_def Let_def set_all_run)
  ultimately show "runs P w (CORSMiddleware origins next r w e)" by simp
qed

subsection \<open>The status a recorder holds and the one that is sent\<close>

fun last_code :: "w_action list \<Rightarrow> int \<Rightarrow> int" where
  "last_code [] st = st"
| "last_code (WriteHeader code # acts) st = last_code acts code"
| "last_code (a # acts) st = last_code acts st"

fun wire_code :: "w_action list \<Rightarrow> int" where
  "wire_code [] = 200"
| "wire_code (SetHeader k v # acts) = wire_code acts"
| "wire_code (WriteHeader code # acts) = code"
| "wire_code (WriteBody bs # acts) = 200"

text \<open>No \<open>WriteHeader\<close> after the header is out.\<close>

fun is_write_header :: "w_action \<Rightarrow> bool" where
  "is_write_header (WriteHeader code) \<longleftrightarrow> True"
| "is_write_header a \<longleftrightarrow> False"

fun header_once :: "w_action list \<Rightarrow> bool" where
  "header_once [] \<longleftrightarrow> True"
| "header_once (SetHeader k v # acts) \<longleftrightarrow> header_once acts"
| "header_once (a # acts) \<longleftrightarrow> \<not> list_ex is_write_header acts"

lemma status_recorder_code:
  "w_run acts (StatusRecorder w st) = StatusRecorder (w_run acts w) (last_code acts st)"
proof (induction acts arbitrary: w st)
  case (Cons a acts)
  then show ?case by (cases a) simp_all
qed simp

lemma sent_code:
  assumes "coherent w" "c_status (w_conn w) = None"
  shows "c_status (conn_finish (w_conn (w_run acts w))) = Some (wire_code acts)"
  using assms
proof (induction acts arbitrary: w)
  case Nil
  then show ?case by (simp add: conn_finish_def conn_write_header_def)
next
  case (Cons a acts)
  have out: "c_status (conn_finish (w_conn (w_run acts v))) = Some code"
    if "coherent v" "c_status (w_conn v) = Some code" for v code
    using conn_status_run [OF that, of acts] by (simp add: conn_finish_def)
  from Cons show ?case
    by (cases a)
      (auto intro!: out simp: conn_write_header_def conn_write_def Let_def split: if_splits)
qed

lemma last_code_append [simp]: "last_code (acts @ acts') st = last_code acts' (last_code acts st)"
  by (induction acts st rule: last_code.induct) auto

lemma last_code_none: "\<not> list_ex is_write_header acts \<Longrightarrow> last_code acts st = st"
  by (induction acts st rule: last_code.induct) auto

lemma header_once_code: "header_once acts \<Longrightarrow> last_code acts 200 = wire_code acts"
  by (induction acts rule: header_once.induct) (auto simp: last_code_none)

lemma header_once_sets [simp]: "header_once (header_sets hs @ acts) = header_once acts"
  by (induction hs) (auto simp: header_sets_def)

lemma last_code_error [simp]: "last_code (error_acts code err) st = code"
  by (simp add: error_acts_def)

text \<open>Nothing of the response is out yet.\<close>

definition only_headers :: "w_action list \<Rightarrow> bool" where
  "only_headers acts \<longleftrightarrow> list_all (\<lambda>a. \<exists>k v. a = SetHeader k v) acts"

lemma wire_code_headers: "only_headers acts \<Longrightarrow> wire_code (acts @ acts') = wire_code acts'"
  by (induction acts rule: wire_code.induct) (auto simp: only_headers_def)

lemma wire_code_sent: "\<not> only_headers acts \<Longrightarrow> wire_code (acts @ acts') = wire_code acts"
  by (induction acts rule: wire_code.induct) (auto simp: only_headers_def)

subsection \<open>Counts, points and lines\<close>

definition lines_of :: "string \<Rightarrow> (log_level \<times> string \<times> attrs) list \<Rightarrow> (log_level \<times> string \<times> attrs) list" where
  "lines_of msg ls = filter (\<lambda>(lv, m, a). m = msg) ls"

lemma lines_of_append [simp]: "lines_of msg (ls @ ls') = lines_of msg ls @ lines_of msg ls'"
  by (simp add: lines_of_def)

text \<open>A handler that leaves the instruments and the lines with the text \<open>msg\<close> alone.\<close>

definition quiet ::
    "('e \<Rightarrow> string \<Rightarrow> attrs \<Rightarrow> int) \<Rightarrow> ('e \<Rightarrow> string \<Rightarrow> (duration \<times> attrs) list) \<Rightarrow>
     ('e \<Rightarrow> (log_level \<times> string \<times> attrs) list) \<Rightarrow> string \<Rightarrow> 'e handler \<Rightarrow> bool" where
  "quiet tot pts ents msg next \<longleftrightarrow>
     (\<forall>r w e. tot (world_of (next r w e)) = tot e \<and> pts (world_of (next r w e)) = pts e \<and>
        lines_of msg (ents (world_of (next r w e))) = lines_of msg (ents e))"

lemma quietD:
  assumes "quiet tot pts ents msg next" "next r w e = (out, r', w', e')"
  shows "tot e' = tot e" "pts e' = pts e" "lines_of msg (ents e') = lines_of msg (ents e)"
  using assms unfolding quiet_def by (metis snd_conv)+

context runtime_laws
begin

lemma quiet_cors: "quiet total points entries msg next \<Longrightarrow> quiet total points entries msg (CORSMiddleware origins next)"
  by (simp add: quiet_def CORSMiddleware_def Let_def)

lemma request_id_kept:
  "total (snd (request_id_for rt r e)) = total e" "points (snd (request_id_for rt r e)) = points e"
  "entries (snd (request_id_for rt r e)) = entries e"
  by (simp_all add: request_id_for_def Let_def runtime_simps)

lemma quiet_standard_headers:
  "quiet total points entries msg next \<Longrightarrow> quiet total points entries msg (StandardHeadersMiddleware rt next)"
  by (simp add: quiet_def StandardHeadersMiddleware_def split_beta Let_def runtime_simps request_id_kept)

lemma quiet_request_context:
  "quiet total points entries msg next \<Longrightarrow> quiet total points entries msg (RequestContextMiddleware rt next)"
  by (simp add: quiet_def RequestContextMiddleware_def split_beta Let_def runtime_simps)

lemma quiet_recovery:
  assumes "quiet total points entries msg next" "msg \<noteq> ''http request panic recovered''"
  shows "quiet total points entries msg (RecoveryMiddleware rt stack lg next)"
  unfolding quiet_def
proof (intro allI)
  fix r w e
  obtain out r' w' e' where n: "next r w e = (out, r', w', e')" by (cases "next r w e")
  from quietD [OF assms(1) n] assms(2)
  show "total (world_of (RecoveryMiddleware rt stack lg next r w e)) = total e \<and>
    points (world_of (RecoveryMiddleware rt stack lg next r w e)) = points e \<and>
    lines_of msg (entries (world_of (RecoveryMiddleware rt stack lg next r w e))) = lines_of msg (entries e)"
    by (cases out; cases lg) (simp_all add: RecoveryMiddleware_def n log_at_entries lines_of_def)
qed

text \<open>Whatever the inner handler does, also when it panics, the gauge is back where it was.\<close>

lemma active_requests_balanced:
  assumes "\<And>r w e. total (world_of (next r w e)) = total e"
  shows "total (world_of (ActiveRequestsMiddleware rt created next r w e)) = total e"
proof -
  let ?a = "method_attrs r"
  obtain out r' w' e' where n: "next r w (rt_add rt active_requests 1 ?a e) = (out, r', w', e')"
    by (cases "next r w (rt_add rt active_requests 1 ?a e)")
  have "total e' = total (rt_add rt active_requests 1 ?a e)"
    using assms [of r w "rt_add rt active_requests 1 ?a e"] n by simp
  then show ?thesis
    using assms [of r w e] by (auto simp: ActiveRequestsMiddleware_def n fun_eq_iff runtime_simps)
qed

text \<open>While the request is served it counts one more.\<close>

lemma active_requests_counts:
  "rq_path r \<noteq> metricsPath \<Longrightarrow> \<exists>e1. total e1 active_requests (method_attrs r) = total e active_requests (method_attrs r) + 1 \<and>
     ActiveRequestsMiddleware rt True next r w e =
       (case next r w e1 of (out, r', w', e') \<Rightarrow> (out, r', w', rt_add rt active_requests (- 1) (method_attrs r) e'))"
  by (intro exI [of _ "rt_add rt active_requests 1 (method_attrs r) e"])
    (simp add: ActiveRequestsMiddleware_def runtime_simps)

text \<open>
  The three layers above the recovery: a request that is not a scrape or a probe leaves one point
  and one line, with the same status, and the gauge where it was.
\<close>

lemma measured_call:
  assumes "quiet total points entries ''http request'' next" "\<And>r w e. out_of (next r w e) = Returned"
    and "runs_within P next" "rq_path r \<noteq> metricsPath" "rq_path r \<noteq> healthPath"
  obtains acts r' e' d d' where "P Returned acts"
    "ActiveRequestsMiddleware rt True (RequestDurationMiddleware rt True
       (RequestLoggingMiddleware rt (LogrusLogger entry) next)) r w e = (Returned, r', w_run acts w, e')"
    "total e' = total e"
    "points e' request_duration = points e request_duration @ [(d, duration_attrs r' (last_code acts 200))]"
    "lines_of ''http request'' (entries e') = lines_of ''http request'' (entries e) @
       [(InfoLevel, ''http request'', with_call_fields (request_line r' (last_code acts 200) d') entry)]"
proof -
  let ?e1 = "rt_add rt active_requests 1 (method_attrs r) e"
  let ?e2 = "snd (rt_now rt ?e1)" let ?e3 = "snd (rt_now rt ?e2)"
  let ?w = "StatusRecorder (StatusRecorder w 200) 200"
  obtain acts where acts: "P Returned acts" "writer_of (next r ?w ?e3) = w_run acts ?w"
    using runs_withinE [OF assms(3), of r ?w ?e3] assms(2) [of r ?w ?e3] by auto
  let ?st = "last_code acts 200"
  obtain r' e4 where n: "next r ?w ?e3 = (Returned, r', StatusRecorder (StatusRecorder (w_run acts w) ?st) ?st, e4)"
    using assms(2) [of r ?w ?e3] acts(2) by (cases "next r ?w ?e3") (simp add: status_recorder_code)
  note q = quietD [OF assms(1) n]
  let ?e5 = "log_info rt (LogrusLogger entry) ''http request''
    (request_line r' ?st (fst (rt_now rt e4) - fst (rt_now rt ?e2))) (snd (rt_now rt e4))"
  let ?e6 = "rt_record rt request_duration (fst (rt_now rt ?e5) - fst (rt_now rt ?e1)) (duration_attrs r' ?st)
    (snd (rt_now rt ?e5))"
  let ?e7 = "rt_add rt active_requests (- 1) (method_attrs r) ?e6"
  have run: "ActiveRequestsMiddleware rt True (RequestDurationMiddleware rt True
       (RequestLoggingMiddleware rt (LogrusLogger entry) next)) r w e = (Returned, r', w_run acts w, ?e7)"
    using assms(4,5) by (simp add: ActiveRequestsMiddleware_def RequestDurationMiddleware_def
        RequestLoggingMiddleware_def newStatusRecorder_def split_beta n Let_def)
  have "total ?e7 = total e" by (auto simp: fun_eq_iff runtime_simps log_at_total q)
  moreover have "points ?e7 request_duration = points e request_duration @
      [(fst (rt_now rt ?e5) - fst (rt_now rt ?e1), duration_attrs r' ?st)]"
    by (simp add: runtime_simps q)
  moreover have "lines_of ''http request'' (entries ?e7) = lines_of ''http request'' (entries e) @
       [(InfoLevel, ''http request'', with_call_fields (request_line r' ?st
          (fst (rt_now rt e4) - fst (rt_now rt ?e2))) entry)]"
    using q(3) by (simp add: runtime_simps log_at_entries) (simp add: lines_of_def)
  ultimately show thesis using that acts(1) run by blast
qed

end

end
