(* ===== verification/Api_Handlers.thy ===== *)
theory Api_Handlers
  imports Api_Domain Middleware_Layers Idempotency_Middleware
begin

text \<open>
  The HTTP handlers: \<open>auth_handler.go\<close>, \<open>resource_handler.go\<close>, \<open>health_handler.go\<close> and
  \<open>swagger_handler.go\<close>. The services are the ports of \<open>Api_Domain\<close>, the validator and the
  Unicode lower case are parameters, and so are \<open>http.ServeFile\<close> and the Swagger package's
  handler. The standard \<open>log\<close> package's lines of the Swagger handler are left out.
\<close>

subsection \<open>Decode, validate, then serve\<close>

text \<open>How every handler with a body begins: a request that does not pass is answered already.\<close>

definition with_request ::
    "validator \<Rightarrow> (string \<Rightarrow> string) \<Rightarrow> 'a struct_type \<Rightarrow>
     ('a \<Rightarrow> http_request \<Rightarrow> writer \<Rightarrow> 'e \<Rightarrow> writer \<times> 'e) \<Rightarrow> 'e handler" where
  "with_request vs ul ty serve r w e =
     (case DecodeAndValidate vs ul ty w r (getRequestID r) of
        (None, w1) \<Rightarrow> (Returned, r, w1, e)
      | (Some req, w1) \<Rightarrow> (case serve req r w1 e of (w2, e2) \<Rightarrow> (Returned, r, w2, e2)))"

text \<open>\<open>RespondWithJSON\<close> of \<open>NewAPIResponse\<close>, which reads the clock.\<close>

definition respond_api ::
    "'e runtime \<Rightarrow> writer \<Rightarrow> int \<Rightarrow> json option \<Rightarrow> string \<Rightarrow> 'e \<Rightarrow> writer \<times> 'e" where
  "respond_api rt w code data requestID e =
     (case rt_now rt e of
        (now, e') \<Rightarrow> (RespondWithJSON w code (Some (NewAPIResponse data requestID now)), e'))"

subsection \<open>Authentication\<close>

record 'e auth_handler =
  ah_service :: "'e auth_service"
  ah_logger :: logger

definition NewAuthHandler :: "'e auth_service \<Rightarrow> logger \<Rightarrow> 'e auth_handler" where
  "NewAuthHandler svc lg =
     \<lparr>ah_service = svc, ah_logger = WithField ''component'' (AStr ''auth_handler'') lg\<rparr>"

definition SignUp ::
    "'e runtime \<Rightarrow> validator \<Rightarrow> (string \<Rightarrow> string) \<Rightarrow> 'e auth_handler \<Rightarrow> 'e handler" where
  "SignUp rt vs ul h =
     with_request vs ul sign_up_type (\<lambda>req r w e.
       case as_sign_up (ah_service h) req e of
         (Inl err, e1) \<Rightarrow>
           (RespondWithError w 500 (simple_error ErrCodeInternalError ''Failed to create user'' (getRequestID r)),
            log_error rt (WithError err (ah_logger h)) ''auth.signup: service error'' [] e1)
       | (Inr u, e1) \<Rightarrow>
           respond_api rt w 201 (Some (created_json ''User created successfully'' '''' ''CREATED'')) (getRequestID r)
             (log_info rt (WithField ''email'' (AStr (su_email req)) (ah_logger h))
                ''auth.signup: user created'' [] e1))"

text \<open>The type of the payload is \<open>*AuthResponse\<close>, so \<open>omitempty\<close> leaves a nil one out of the response.\<close>

definition SignIn ::
    "'e runtime \<Rightarrow> validator \<Rightarrow> (string \<Rightarrow> string) \<Rightarrow> 'e auth_handler \<Rightarrow> 'e handler" where
  "SignIn rt vs ul h =
     with_request vs ul sign_in_type (\<lambda>req r w e.
       case as_sign_in (ah_service h) req e of
         (Inl err, e1) \<Rightarrow>
           (RespondWithError w 401 (simple_error ErrCodeUnauthorized ''Invalid credentials'' (getRequestID r)),
            log_warn rt (WithError err (ah_logger h)) ''auth.signin: unauthorized'' [] e1)
       | (Inr resp, e1) \<Rightarrow>
           respond_api rt w 200 (map_option auth_response_json resp) (getRequestID r)
             (log_info rt (WithField ''email'' (AStr (si_email req)) (ah_logger h))
                ''auth.signin: user authenticated'' [] e1))"

definition ConfirmSignUp ::
    "'e runtime \<Rightarrow> validator \<Rightarrow> (string \<Rightarrow> string) \<Rightarrow> 'e auth_handler \<Rightarrow> 'e handler" where
  "ConfirmSignUp rt vs ul h =
     with_request vs ul confirm_type (\<lambda>req r w e.
       case as_confirm (ah_service h) req e of
         (Inl err, e1) \<Rightarrow>
           (RespondWithError w 500 (simple_error ErrCodeInternalError ''Failed to confirm user'' (getRequestID r)),
            log_error rt (WithError err (ah_logger h)) ''auth.confirm: service error'' [] e1)
       | (Inr u, e1) \<Rightarrow>
           respond_api rt w 200 (Some (message_json ''User confirmed successfully'' ''CONFIRMED'')) (getRequestID r)
             (log_info rt (WithField ''email'' (AStr (cs_email req)) (ah_logger h))
                ''auth.confirm: user confirmed'' [] e1))"

subsection \<open>Provisioning\<close>

definition Provision ::
    "'e runtime \<Rightarrow> validator \<Rightarrow> (string \<Rightarrow> string) \<Rightarrow> 'e resource_service \<Rightarrow> 'e handler" where
  "Provision rt vs ul svc =
     with_request vs ul resource_struct (\<lambda>res r w e.
       case svc res e of
         (Inl err, e1) \<Rightarrow>
           (RespondWithError w 500 (simple_error ErrCodeInternalError
              ''Failed to process provisioning request'' (getRequestID r)), e1)
       | (Inr u, e1) \<Rightarrow>
           respond_api rt w 202 (Some (accepted_json ''Request accepted for processing'' (getRequestID r) ''ACCEPTED'' ''''))
             (getRequestID r) e1)"

subsection \<open>Health\<close>

definition HealthCheck :: "'e handler" where
  "HealthCheck r w e = (Returned, r, w_write ''OK'' (w_write_header 200 w), e)"

subsection \<open>Swagger\<close>

definition ServeSwaggerFile :: "(string \<Rightarrow> 'e handler) \<Rightarrow> string \<Rightarrow> 'e handler" where
  "ServeSwaggerFile serve_file path r w e =
     serve_file path r (w_set_header ''Content-Type'' ''application/yaml'' w) e"

definition swagger_path :: "string \<Rightarrow> string" where
  "swagger_path p =
     (let path = (if p = ''/swagger'' then ''/swagger/'' else p);
          path = (if prefix ''/swagger'' path
                  then (let trimmed = drop 8 path in if trimmed = '''' then ''/'' else trimmed)
                  else path)
      in if path = ''/'' then ''/index.html'' else path)"

text \<open>The UI gets a clone of the request: what it does to it is not seen outside.\<close>

definition SwaggerUI :: "(string \<Rightarrow> 'e handler) \<Rightarrow> 'e handler \<Rightarrow> string \<Rightarrow> 'e handler" where
  "SwaggerUI serve_file ui file r w e =
     (let path = swagger_path (rq_path r) in
      if suffix ''swagger.yaml'' path then ServeSwaggerFile serve_file file r w e
      else (case ui (r\<lparr>rq_path := path\<rparr>) w e of (out, r2, w', e') \<Rightarrow> (out, r, w', e')))"

subsection \<open>What the handlers write\<close>

text \<open>A response of one status line: headers, one status, its text.\<close>

definition one_response :: "w_action list \<Rightarrow> bool" where
  "one_response acts \<longleftrightarrow> (\<exists>code j. acts = [SetHeader ''Content-Type'' ''application/json'',
     WriteHeader code, WriteBody (encode_line j)] \<and> 200 \<le> code \<and> code \<le> 999)"

lemma one_response_send: "200 \<le> code \<Longrightarrow> code \<le> 999 \<Longrightarrow>
    \<exists>acts. one_response acts \<and> send_json w code (Some j) = w_run acts w"
  by (intro exI [of _ "[SetHeader ''Content-Type'' ''application/json'', WriteHeader code, WriteBody (encode_line j)]"])
    (auto simp: send_json_run one_response_def)

text \<open>The cases of a decoded request.\<close>

lemma with_request_cases:
  obtains (rejected) err where
      "with_request vs ul ty serve r w e = (Returned, r, RespondWithError w 400 err, e)"
      "\<And>x. decode_body ty (rq_body r) = Some x \<Longrightarrow> ValidateStruct vs ul (sty_fields ty x) \<noteq> []"
    | (served) req where "decode_body ty (rq_body r) = Some req"
      "ValidateStruct vs ul (sty_fields ty req) = []"
      "with_request vs ul ty serve r w e = (Returned, r, fst (serve req r w e), snd (serve req r w e))"
proof (cases "decode_body ty (rq_body r)")
  case None
  then show ?thesis using rejected by (simp add: with_request_def DecodeAndValidate_def)
next
  case (Some req)
  then show ?thesis
    using rejected served
    by (cases "ValidateStruct vs ul (sty_fields ty req) = []")
      (auto simp: with_request_def DecodeAndValidate_def Let_def RespondWithValidationError_def split_beta)
qed

lemma with_request_runs:
  assumes "\<And>req r w e. \<exists>acts. one_response acts \<and> fst (serve req r w e) = w_run acts w"
  shows "runs_within (\<lambda>out. one_response) (with_request vs ul ty serve)"
proof (rule runs_withinI)
  fix r w e
  show "runs (\<lambda>out. one_response) w (with_request vs ul ty serve r w e)"
  proof (rule with_request_cases [of vs ul ty serve r w e])
    fix err assume "with_request vs ul ty serve r w e = (Returned, r, RespondWithError w 400 err, e)"
    then show ?thesis using one_response_send [of 400] by (simp add: RespondWithError_def runs_def)
  next
    fix req assume "with_request vs ul ty serve r w e = (Returned, r, fst (serve req r w e), snd (serve req r w e))"
    then show ?thesis using assms by (simp add: runs_def)
  qed
qed

lemma sign_up_runs: "runs_within (\<lambda>out. one_response) (SignUp rt vs ul h)"
  unfolding SignUp_def
  by (rule with_request_runs)
    (auto simp: RespondWithError_def RespondWithJSON_def respond_api_def one_response_send split: prod.split sum.split)

lemma sign_in_runs: "runs_within (\<lambda>out. one_response) (SignIn rt vs ul h)"
  unfolding SignIn_def
  by (rule with_request_runs)
    (auto simp: RespondWithError_def RespondWithJSON_def respond_api_def one_response_send split: prod.split sum.split)

lemma confirm_runs: "runs_within (\<lambda>out. one_response) (ConfirmSignUp rt vs ul h)"
  unfolding ConfirmSignUp_def
  by (rule with_request_runs)
    (auto simp: RespondWithError_def RespondWithJSON_def respond_api_def one_response_send split: prod.split sum.split)

lemma provision_runs: "runs_within (\<lambda>out. one_response) (Provision rt vs ul svc)"
  unfolding Provision_def
  by (rule with_request_runs)
    (auto simp: RespondWithError_def RespondWithJSON_def respond_api_def one_response_send split: prod.split sum.split)

end
