(* ===== verification/Api_Router.thy ===== *)
theory Api_Router
  imports Api_Handlers
begin

text \<open>
  \<open>router.go\<close>: the table of routes, the mux that serves it, and the chain of layers around the
  mux. Of \<open>http.ServeMux\<close> the model has what the table needs: patterns \<open>METHOD path\<close> without
  wildcards, a final slash for a subtree, \<open>GET\<close> serving \<open>HEAD\<close>, the redirect to a clean path,
  404 and 405. Paths are taken without percent-escapes; \<open>redirect\<close> is \<open>http.RedirectHandler\<close>.
\<close>

subsection \<open>Clean paths\<close>

fun clean_step :: "string list \<Rightarrow> string list \<Rightarrow> string list" where
  "clean_step acc [] = rev acc"
| "clean_step acc (x # xs) =
     (if x = '''' \<or> x = ''.'' then clean_step acc xs
      else if x = ''..'' then clean_step (drop 1 acc) xs
      else clean_step (x # acc) xs)"

text \<open>\<open>path.Clean\<close> of a rooted path, and the \<open>cleanPath\<close> of the mux, which keeps a final slash.\<close>

definition path_clean :: "string \<Rightarrow> string" where
  "path_clean p =
     (case clean_step [] (split_byte (CHR ''/'') p) of
        [] \<Rightarrow> ''/''
      | xs \<Rightarrow> concat (map (\<lambda>x. CHR ''/'' # x) xs))"

definition clean_path :: "string \<Rightarrow> string" where
  "clean_path p =
     (if p = '''' then ''/''
      else
        (let p' = (if hd p = CHR ''/'' then p else CHR ''/'' # p); np = path_clean p'
         in if last p' = CHR ''/'' \<and> np \<noteq> ''/'' then np @ ''/'' else np))"

subsection \<open>The mux\<close>

record 'e route =
  mr_method :: string
  mr_path :: string
  mr_handler :: "'e handler"

definition pattern_of :: "'e route \<Rightarrow> string" where
  "pattern_of t = mr_method t @ '' '' @ mr_path t"

definition path_matches :: "string \<Rightarrow> string \<Rightarrow> bool" where
  "path_matches pat path \<longleftrightarrow> (if suffix ''/'' pat then prefix pat path else path = pat)"

definition method_matches :: "string \<Rightarrow> string \<Rightarrow> bool" where
  "method_matches pat m \<longleftrightarrow> m = pat \<or> (pat = ''GET'' \<and> m = ''HEAD'')"

definition route_matches :: "string \<Rightarrow> string \<Rightarrow> 'e route \<Rightarrow> bool" where
  "route_matches m path t \<longleftrightarrow> method_matches (mr_method t) m \<and> path_matches (mr_path t) path"

definition served_methods :: "string \<Rightarrow> string list" where
  "served_methods m = (if m = ''GET'' then [''GET'', ''HEAD''] else [m])"

definition allowed_methods :: "'e route list \<Rightarrow> string \<Rightarrow> string list" where
  "allowed_methods ts path =
     sort (remdups (concat (map (\<lambda>t. served_methods (mr_method t))
       (filter (\<lambda>t. path_matches (mr_path t) path \<or>
          \<not> suffix ''/'' path \<and> path_matches (mr_path t) (path @ ''/'')) ts))))"

definition join_comma :: "string list \<Rightarrow> string" where
  "join_comma xs = (case xs of [] \<Rightarrow> '''' | x # xs \<Rightarrow> x @ concat (map (\<lambda>y. '', '' @ y) xs))"

text \<open>\<open>http.Error\<close>; no one has set a \<open>Content-Length\<close> it would have to delete.\<close>

definition http_error :: "string \<Rightarrow> int \<Rightarrow> writer \<Rightarrow> writer" where
  "http_error msg code w =
     w_write (msg @ [CHR 0x0A]) (w_write_header code
       (w_set_header ''X-Content-Type-Options'' ''nosniff''
         (w_set_header ''Content-Type'' ''text/plain; charset=utf-8'' w)))"

definition not_found_handler :: "'e handler" where
  "not_found_handler r w e = (Returned, r, http_error ''404 page not found'' 404 w, e)"

definition not_allowed_handler :: "string list \<Rightarrow> 'e handler" where
  "not_allowed_handler allowed r w e =
     (Returned, r, http_error ''Method Not Allowed'' 405 (w_set_header ''Allow'' (join_comma allowed) w), e)"

definition mux_path :: "http_request \<Rightarrow> string" where
  "mux_path r = (if rq_method r = ''CONNECT'' then rq_path r else clean_path (rq_path r))"

definition serve_mux :: "(string \<Rightarrow> 'e handler) \<Rightarrow> 'e route list \<Rightarrow> 'e handler" where
  "serve_mux redirect ts r w e =
     (let path = mux_path r;
          found = find (route_matches (rq_method r) path) ts;
          r' = r\<lparr>rq_pattern := (case found of Some t \<Rightarrow> pattern_of t | None \<Rightarrow> '''')\<rparr>
      in if path \<noteq> rq_path r then redirect path r' w e
         else
           (case found of
              Some t \<Rightarrow> mr_handler t r' w e
            | None \<Rightarrow>
                (let allowed = allowed_methods ts path
                 in if allowed \<noteq> [] then not_allowed_handler allowed r' w e
                    else not_found_handler r' w e)))"

subsection \<open>Configuration and routes\<close>

record 'e router_config =
  rc_origins :: "string list"
  rc_store :: "'e idem_store option"
  rc_ttl :: duration
  rc_metrics :: "'e handler option"
  rc_logger :: "logger option"

definition DefaultRouterConfig :: "'e router_config" where
  "DefaultRouterConfig = \<lparr>rc_origins = [''*''], rc_store = None, rc_ttl = 24 * hour,
     rc_metrics = None, rc_logger = None\<rparr>"

text \<open>The handlers the router is given, as methods bound to their receivers.\<close>

record 'e handlers =
  hd_provision :: "'e handler"
  hd_health :: "'e handler"
  hd_sign_up :: "'e handler"
  hd_sign_in :: "'e handler"
  hd_confirm :: "'e handler"
  hd_swagger :: "'e handler"

text \<open>The world around the router: what it takes from libraries and from the environment.\<close>

record 'e platform =
  pf_runtime :: "'e runtime"
  pf_uuid_ok :: "string \<Rightarrow> bool"
  pf_sha256 :: "string \<Rightarrow> string"
  pf_stack :: string
  pf_redirect :: "string \<Rightarrow> 'e handler"
  pf_gauge_ok :: bool
  pf_histogram_ok :: bool

definition router_ttl :: "'e router_config \<Rightarrow> duration" where
  "router_ttl cfg = (if rc_ttl cfg = 0 then 24 * hour else rc_ttl cfg)"

definition provision_route :: "'e platform \<Rightarrow> 'e handlers \<Rightarrow> 'e router_config \<Rightarrow> 'e handler" where
  "provision_route pf hs cfg =
     (case rc_store cfg of
        Some st \<Rightarrow> IdempotencyMiddleware (pf_uuid_ok pf) (pf_sha256 pf) st (router_ttl cfg) (hd_provision hs)
      | None \<Rightarrow> hd_provision hs)"

definition mk_route :: "string \<Rightarrow> string \<Rightarrow> 'e handler \<Rightarrow> 'e route" where
  "mk_route m p h = \<lparr>mr_method = m, mr_path = p, mr_handler = h\<rparr>"

definition api_routes :: "'e platform \<Rightarrow> 'e handlers \<Rightarrow> 'e router_config \<Rightarrow> 'e route list" where
  "api_routes pf hs cfg =
     [mk_route ''POST'' (APIVersionPrefix @ ''/provision'') (provision_route pf hs cfg),
      mk_route ''GET'' (APIVersionPrefix @ ''/health'') (hd_health hs)] @
     (case rc_metrics cfg of Some h \<Rightarrow> [mk_route ''GET'' ''/metrics'' h] | None \<Rightarrow> []) @
     [mk_route ''POST'' (APIVersionPrefix @ ''/auth/signup'') (hd_sign_up hs),
      mk_route ''POST'' (APIVersionPrefix @ ''/auth/signin'') (hd_sign_in hs),
      mk_route ''POST'' (APIVersionPrefix @ ''/auth/confirm'') (hd_confirm hs),
      mk_route ''GET'' (APIVersionPrefix @ ''/swagger'') (hd_swagger hs),
      mk_route ''GET'' (APIVersionPrefix @ ''/swagger/'') (hd_swagger hs)]"

definition router_logger :: "'e router_config \<Rightarrow> logger" where
  "router_logger cfg = (case rc_logger cfg of Some lg \<Rightarrow> lg | None \<Rightarrow> NopLogger)"

definition router_chain :: "'e platform \<Rightarrow> 'e router_config \<Rightarrow> 'e handler \<Rightarrow> 'e handler" where
  "router_chain pf cfg mux =
     ChainMiddleware mux
       [ActiveRequestsMiddleware (pf_runtime pf) (pf_gauge_ok pf),
        RequestDurationMiddleware (pf_runtime pf) (pf_histogram_ok pf),
        RequestLoggingMiddleware (pf_runtime pf) (router_logger cfg),
        RecoveryMiddleware (pf_runtime pf) (pf_stack pf) (router_logger cfg),
        RequestContextMiddleware (pf_runtime pf),
        StandardHeadersMiddleware (pf_runtime pf),
        CORSMiddleware (rc_origins cfg)]"

definition NewRouterWithConfig :: "'e platform \<Rightarrow> 'e handlers \<Rightarrow> 'e router_config \<Rightarrow> 'e handler" where
  "NewRouterWithConfig pf hs cfg =
     router_chain pf cfg (serve_mux (pf_redirect pf) (api_routes pf hs cfg))"

definition NewRouter :: "'e platform \<Rightarrow> 'e handlers \<Rightarrow> 'e handler" where
  "NewRouter pf hs = NewRouterWithConfig pf hs DefaultRouterConfig"

subsection \<open>The chain, layer by layer\<close>

lemma router_chain_layers:
  "router_chain pf cfg mux =
     ActiveRequestsMiddleware (pf_runtime pf) (pf_gauge_ok pf)
       (RequestDurationMiddleware (pf_runtime pf) (pf_histogram_ok pf)
         (RequestLoggingMiddleware (pf_runtime pf) (router_logger cfg)
           (RecoveryMiddleware (pf_runtime pf) (pf_stack pf) (router_logger cfg)
             (RequestContextMiddleware (pf_runtime pf)
               (StandardHeadersMiddleware (pf_runtime pf)
                 (CORSMiddleware (rc_origins cfg) mux))))))"
  by (simp add: router_chain_def ChainMiddleware_def)

text \<open>What runs below the recovery layer.\<close>

definition header_layers :: "'e platform \<Rightarrow> 'e router_config \<Rightarrow> 'e handler \<Rightarrow> 'e handler" where
  "header_layers pf cfg mux = RequestContextMiddleware (pf_runtime pf)
     (StandardHeadersMiddleware (pf_runtime pf) (CORSMiddleware (rc_origins cfg) mux))"

lemma header_layers_runs:
  assumes "runs_within P mux" "\<And>hs out acts. P out acts \<Longrightarrow> P out (header_sets hs @ acts)" "P Returned [WriteHeader 204]"
  shows "runs_within P (header_layers pf cfg mux)"
  unfolding header_layers_def
  by (intro request_context_runs standard_headers_runs [where P = P] cors_runs assms)

end
