(* ===== verification/Go_Validator.thy ===== *)
theory Go_Validator
  imports Api_Responses
begin

text \<open>
  An instance of the validator parameter, in the way the package is documented to work: the
  fields of a struct in order, and of each the first tag that fails. What a tag asks of a text is
  given for the tags the API's requests use; \<open>min\<close> and \<open>max\<close> count bytes here, and an e-mail
  address is asked for a single \<open>@\<close> inside, which is weaker than the package.
\<close>

definition decimal :: "string \<Rightarrow> nat" where
  "decimal ds = foldl (\<lambda>n c. 10 * n + (of_char c - 48)) 0 ds"

definition tag_holds :: "string \<Rightarrow> string \<Rightarrow> string \<Rightarrow> bool" where
  "tag_holds tag param v =
     (if tag = ''required'' then v \<noteq> ''''
      else if tag = ''oneof'' then v \<in> set (split_byte (CHR '' '') param)
      else if tag = ''min'' then decimal param \<le> length v
      else if tag = ''max'' then length v \<le> decimal param
      else if tag = ''alphanum'' then list_all (\<lambda>c. is_lower c \<or> is_upper c \<or> is_digit c) v
      else if tag = ''email'' then length (filter (\<lambda>c. c = CHR ''@'') v) = 1 \<and> hd v \<noteq> CHR ''@'' \<and> last v \<noteq> CHR ''@''
      else True)"

definition first_failure :: "string \<times> (string \<times> string) list \<times> string \<Rightarrow> field_error list" where
  "first_failure f = (case f of (n, tags, v) \<Rightarrow>
     map (\<lambda>(t, p). \<lparr>fe_field = n, fe_tag = t, fe_param = p, fe_value = v\<rparr>)
       (take 1 (filter (\<lambda>(t, p). \<not> tag_holds t p v) tags)))"

definition go_validator :: validator where
  "go_validator fs = concat (map first_failure fs)"

lemma first_failure_none: "first_failure (n, tags, v) = [] \<longleftrightarrow> (\<forall>(t, p)\<in>set tags. tag_holds t p v)"
  by (auto simp: first_failure_def filter_empty_conv)

lemma first_failure_some:
  "fe \<in> set (first_failure (n, tags, v)) \<Longrightarrow>
     fe_field fe = n \<and> fe_value fe = v \<and> (fe_tag fe, fe_param fe) \<in> set tags \<and>
     \<not> tag_holds (fe_tag fe) (fe_param fe) v"
  by (auto simp: first_failure_def dest!: in_set_takeD)

interpretation go_validator: validator_laws go_validator tag_holds
proof unfold_locales
  fix fs
  show "go_validator fs = [] \<longleftrightarrow> (\<forall>(n, tags, v)\<in>set fs. \<forall>(t, p)\<in>set tags. tag_holds t p v)"
    by (force simp: go_validator_def concat_eq_Nil_conv first_failure_none)
next
  fix fe fs assume "fe \<in> set (go_validator fs)"
  then obtain n tags v where "(n, tags, v) \<in> set fs" "fe \<in> set (first_failure (n, tags, v))"
    by (auto simp: go_validator_def)
  with first_failure_some
  show "\<exists>tags. (fe_field fe, tags, fe_value fe) \<in> set fs \<and> (fe_tag fe, fe_param fe) \<in> set tags \<and>
      \<not> tag_holds (fe_tag fe) (fe_param fe) (fe_value fe)" by blast
qed (simp_all add: tag_holds_def)

end
