(* ===== verification/Handler_Properties.thy ===== *)
theory Handler_Properties
  imports Api_Handlers Api_Adapters Go_Validator Value_Objects
begin

text \<open>
  Properties of the handlers over any service, validator and runtime: what reaches the service,
  what the client is told, and how the accepted values relate to the value objects.
\<close>

subsection \<open>Responses on a fresh connection\<close>

lemma fresh_send_json:
  assumes "fresh_writer w" "body_allowed code"
  shows "response_status (send_json w code (Some j)) = Some code"
    "response_body (send_json w code (Some j)) = encode_line j"
  using send_json_fresh [of w code j] assms
  by (simp_all add: fresh_writer_def response_status_def response_body_def conn_finish_def)

lemma fresh_error:
  "fresh_writer w \<Longrightarrow> body_allowed code \<Longrightarrow> response_status (RespondWithError w code err) = Some code"
  "fresh_writer w \<Longrightarrow> body_allowed code \<Longrightarrow>
     response_body (RespondWithError w code err) = encode_line (error_json err)"
  by (simp_all add: RespondWithError_def fresh_send_json)

lemma fresh_json:
  "fresh_writer w \<Longrightarrow> body_allowed code \<Longrightarrow> response_status (RespondWithJSON w code (Some j)) = Some code"
  by (simp add: RespondWithJSON_def fresh_send_json)

lemma codes_with_body [simp]:
  "body_allowed 200" "body_allowed 201" "body_allowed 202" "body_allowed 400" "body_allowed 401" "body_allowed 500"
  by (simp_all add: body_allowed_def)

lemma with_request_served:
  "decode_body ty (rq_body r) = Some x \<Longrightarrow> ValidateStruct vs ul (sty_fields ty x) = [] \<Longrightarrow>
     with_request vs ul ty serve r w e = (Returned, r, fst (serve x r w e), snd (serve x r w e))"
  by (simp add: with_request_def DecodeAndValidate_def split_beta)

subsection \<open>Bad requests\<close>

definition unacceptable :: "validator \<Rightarrow> (string \<Rightarrow> string) \<Rightarrow> 'a struct_type \<Rightarrow> http_request \<Rightarrow> bool" where
  "unacceptable vs ul ty r \<longleftrightarrow>
     (case decode_body ty (rq_body r) of
        None \<Rightarrow> True
      | Some x \<Rightarrow> ValidateStruct vs ul (sty_fields ty x) \<noteq> [])"

text \<open>The handler answers 400 and leaves the world as it is.\<close>

definition turned_away :: "'e handler \<Rightarrow> http_request \<Rightarrow> writer \<Rightarrow> 'e \<Rightarrow> bool" where
  "turned_away h r w e \<longleftrightarrow>
     (case h r w e of (out, r', w', e') \<Rightarrow>
        out = Returned \<and> r' = r \<and> response_status w' = Some 400 \<and> e' = e)"

lemma unacceptable_turned_away:
  assumes "fresh_writer w" "unacceptable vs ul ty r"
  shows "turned_away (with_request vs ul ty serve) r w e"
  using assms(2) fresh_error(1) [OF assms(1), of 400]
  by (auto simp: unacceptable_def turned_away_def with_request_def DecodeAndValidate_def Let_def
      RespondWithValidationError_def split: option.splits)

text \<open>C18: A request whose body is no JSON of the expected shape, cannot be read, or fails a
  validation tag is answered 400, and the handler leaves the world untouched: no service is
  called, no line logged. This is so for each of the four handlers that read a body.\<close>

theorem bad_requests_stop:
  assumes "fresh_writer w"
  shows "(unacceptable vs ul resource_struct r \<longrightarrow> turned_away (Provision rt vs ul svc) r w e) \<and>
    (unacceptable vs ul sign_up_type r \<longrightarrow> turned_away (SignUp rt vs ul h) r w e) \<and>
    (unacceptable vs ul sign_in_type r \<longrightarrow> turned_away (SignIn rt vs ul h) r w e) \<and>
    (unacceptable vs ul confirm_type r \<longrightarrow> turned_away (ConfirmSignUp rt vs ul h) r w e)"
  by (simp add: Provision_def SignUp_def SignIn_def ConfirmSignUp_def
      unacceptable_turned_away [OF assms])

definition fresh :: writer where
  "fresh = Conn new_conn"

lemma fresh_fresh: "fresh_writer fresh"
  by (simp add: fresh_writer_def fresh_def new_conn_def canonical_header_def w_header_def)

definition request_with :: "string \<Rightarrow> http_request" where
  "request_with b = \<lparr>rq_method = ''POST'', rq_path = ''/v1/provision'', rq_header = [],
     rq_body = Body b, rq_pattern = ''POST /v1/provision''\<rparr>"

lemma request_with_resource:
  "utf8_resource x \<Longrightarrow> decode_body resource_struct (rq_body (request_with (print_json (resource_json x)))) = Some x"
  using decode_marshalled [of x "print_json (resource_json x)" "[]"]
  by (simp add: request_with_def marshal_resource_def)

definition azure_resource :: resource where
  "azure_resource = sample_resource\<lparr>rs_provider := ''AZURE''\<rparr>"

lemma azure_resource_utf8: "utf8_resource azure_resource"
  by (simp add: azure_resource_def utf8_resource_def sample_resource_def valid_utf8_ascii is_ascii_def is_ascii_byte_def)

lemma sample_resource_valid: "ValidateStruct go_validator id (resource_tags sample_resource) = []"
  by code_simp

lemma azure_resource_invalid: "ValidateStruct go_validator id (resource_tags azure_resource) \<noteq> []"
  by code_simp

lemma resource_struct_fields [simp]: "sty_fields resource_struct = resource_tags"
  by (simp add: resource_struct_def)

theorem bad_requests_stop_witness:
  "turned_away (Provision sim_runtime go_validator id (\<lambda>x e. (Inr (), e)))
     (request_with (print_json (resource_json azure_resource))) fresh new_sim"
proof -
  have "unacceptable go_validator id resource_struct (request_with (print_json (resource_json azure_resource)))"
    using azure_resource_invalid
    by (simp add: unacceptable_def request_with_resource [OF azure_resource_utf8])
  with bad_requests_stop [OF fresh_fresh, of go_validator id _ sim_runtime "\<lambda>x e. (Inr (), e)" new_sim]
  show ?thesis by blast
qed

subsection \<open>What reaches the service\<close>

definition acceptable_resource :: "resource \<Rightarrow> bool" where
  "acceptable_resource x \<longleftrightarrow>
     rs_id x \<noteq> '''' \<and> rs_spec x \<noteq> '''' \<and> rs_by x \<noteq> '''' \<and>
     new_resource_type (rs_type x) = Inr (rs_type x) \<and>
     rs_provider x \<in> {''AWS'', ''Azure'', ''GCP''} \<and> status_is_valid (rs_status x)"

lemma type_of_list: "t \<in> set valid_resource_types \<Longrightarrow> new_resource_type t = Inr t"
  using resource_type_trimmed [of t]
  by (auto simp: valid_resource_types_def new_resource_type_Inr resource_type_is_valid_def)

context validator_laws
begin

lemma validated_resource:
  assumes "ValidateStruct vs ul (resource_tags x) = []"
  shows "acceptable_resource x"
proof -
  from assms have "\<forall>(n, tags, v)\<in>set (resource_tags x). \<forall>(t, p)\<in>set tags. holds t p v"
    by (simp only: validate_accepts)
  then show ?thesis
    by (simp add: resource_tags_def required oneof acceptable_resource_def
        status_is_valid_def status_consts type_of_list valid_resource_types_def)
qed

end

text \<open>C19: The provisioning handler calls its service only with resources whose type, provider and
  status are among the listed ones and whose texts are not empty: two services that agree on
  those give the same handler.\<close>

theorem only_acceptable_reach_the_service:
  assumes "validator_laws vs holds" "\<forall>x e. acceptable_resource x \<longrightarrow> svc x e = svc' x e"
  shows "Provision rt vs ul svc r w e = Provision rt vs ul svc' r w e"
proof -
  have "acceptable_resource x" if "ValidateStruct vs ul (resource_tags x) = []" for x
    using validator_laws.validated_resource [OF assms(1) that] .
  then show ?thesis
    using assms(2) by (auto simp: Provision_def with_request_def DecodeAndValidate_def Let_def split: option.split)
qed

theorem only_acceptable_reach_the_service_witness:
  "Provision sim_runtime go_validator id (\<lambda>x e. (Inr (), e)) (request_with ''{}'') fresh new_sim =
     Provision sim_runtime go_validator id
       (\<lambda>x e. if acceptable_resource x then (Inr (), e) else (Inl (Opaque ''bad''), e))
       (request_with ''{}'') fresh new_sim"
  by (rule only_acceptable_reach_the_service [OF go_validator.validator_laws_axioms]) simp

text \<open>The message a resource is published in, and the world once its text is logged.\<close>

definition provisioning_message :: "(string \<times> string) list \<Rightarrow> resource \<Rightarrow> kafka_message" where
  "provisioning_message ps x =
     \<lparr>km_key = rs_id x, km_value = print_json (resource_json x), km_headers = kafka_inject ps []\<rparr>"

definition publishing_logged :: "'e runtime \<Rightarrow> logger option \<Rightarrow> resource \<Rightarrow> 'e \<Rightarrow> 'e" where
  "publishing_logged rt lg x e =
     log_info rt (service_logger lg) ''publishing provisioning request''
       [F ''resource_id'' (AStr (rs_id x)), F ''resource_type'' (AStr (rs_type x)),
        F ''body'' (AStr (print_json (resource_json x)))] e"

lemma message_decodes: "utf8_resource x \<Longrightarrow> decode_body resource_struct (Body (km_value (provisioning_message ps x))) = Some x"
  using decode_marshalled [of x "print_json (resource_json x)" "[]"]
  by (simp add: marshal_resource_def provisioning_message_def)

lemma provision_served:
  assumes "fresh_writer w" "decode_body resource_struct (rq_body r) = Some x" "ValidateStruct vs ul (resource_tags x) = []"
  shows "case publish x (publishing_logged rt lg x e) of
      (Inl err, e2) \<Rightarrow> \<exists>w'. Provision rt vs ul (NewResourceService rt publish lg) r w e =
         (Returned, r, w', e2) \<and> response_status w' = Some 500
    | (Inr u, e2) \<Rightarrow> \<exists>w'. Provision rt vs ul (NewResourceService rt publish lg) r w e =
         (Returned, r, w', snd (rt_now rt e2)) \<and> response_status w' = Some 202"
  using assms
  by (simp add: Provision_def with_request_served NewResourceService_def SendProvisioningRequest_def
      marshal_resource_def respond_api_def publishing_logged_def fresh_error fresh_json
      split_beta Let_def split: prod.split sum.split)

lemma kafka_publish_message:
  "kafka_publish kwriter trace x e = (case kwriter (provisioning_message (trace e) x) e of
     (Inl err, e') \<Rightarrow> (Inl (failed_with ErrCodeQueueError (''failed to publish resource '' @ rs_id x @ '' to kafka'') err), e')
   | (Inr u, e') \<Rightarrow> (Inr (), e'))"
  by (simp add: kafka_publish_def marshal_resource_def provisioning_message_def)

text \<open>C20: A provisioning request is answered 202 exactly when the broker took the message for it, and
  500 when the broker did not: the message decodes to the resource the client sent and is keyed
  by its id, the broker is called once, and the text of the message is logged before.\<close>

theorem accepted_iff_queued:
  assumes "fresh_writer w" "decode_body resource_struct (rq_body r) = Some x"
    and "ValidateStruct vs ul (resource_tags x) = []"
  shows "\<exists>km e1. decode_body resource_struct (Body (km_value km)) = Some x \<and> km_key km = rs_id x \<and>
    e1 = log_info rt (service_logger lg) ''publishing provisioning request''
      [F ''resource_id'' (AStr (rs_id x)), F ''resource_type'' (AStr (rs_type x)),
       F ''body'' (AStr (km_value km))] e \<and>
    (case kwriter km e1 of
       (Inl err, e2) \<Rightarrow> \<exists>w'. Provision rt vs ul (NewResourceService rt (kafka_publish kwriter trace) lg) r w e =
          (Returned, r, w', e2) \<and> response_status w' = Some 500
     | (Inr u, e2) \<Rightarrow> \<exists>w'. Provision rt vs ul (NewResourceService rt (kafka_publish kwriter trace) lg) r w e =
          (Returned, r, w', snd (rt_now rt e2)) \<and> response_status w' = Some 202)"
proof -
  let ?e1 = "publishing_logged rt lg x e"
  let ?km = "provisioning_message (trace ?e1) x"
  have "decode_body resource_struct (Body (km_value ?km)) = Some x" "km_key ?km = rs_id x"
    using message_decodes [OF decoded_resource_utf8 [OF assms(2)]] by (simp_all add: provisioning_message_def)
  moreover have "?e1 = log_info rt (service_logger lg) ''publishing provisioning request''
      [F ''resource_id'' (AStr (rs_id x)), F ''resource_type'' (AStr (rs_type x)), F ''body'' (AStr (km_value ?km))] e"
    by (simp add: publishing_logged_def provisioning_message_def)
  moreover have "case kwriter ?km ?e1 of
      (Inl err, e2) \<Rightarrow> \<exists>w'. Provision rt vs ul (NewResourceService rt (kafka_publish kwriter trace) lg) r w e =
         (Returned, r, w', e2) \<and> response_status w' = Some 500
    | (Inr u, e2) \<Rightarrow> \<exists>w'. Provision rt vs ul (NewResourceService rt (kafka_publish kwriter trace) lg) r w e =
         (Returned, r, w', snd (rt_now rt e2)) \<and> response_status w' = Some 202"
    using provision_served [OF assms, where publish = "kafka_publish kwriter trace" and rt = rt and lg = lg and e = e] unfolding kafka_publish_message
    by (cases "kwriter ?km ?e1"; cases "fst (kwriter ?km ?e1)") simp_all
  ultimately show ?thesis by (intro exI [of _ ?km] exI [of _ ?e1] conjI)
qed

theorem accepted_iff_queued_witness:
  "\<exists>(km :: kafka_message) w'. decode_body resource_struct (Body (km_value km)) = Some sample_resource \<and>
     Provision sim_runtime go_validator id
       (NewResourceService sim_runtime (kafka_publish (\<lambda>m e. (Inr (), e)) (\<lambda>e. [])) None)
       (request_with (print_json (resource_json sample_resource))) fresh new_sim =
     (Returned, request_with (print_json (resource_json sample_resource)), w',
      new_sim\<lparr>sim_time := sim_time new_sim + millisecond\<rparr>) \<and> response_status w' = Some 202"
  using accepted_iff_queued [OF fresh_fresh request_with_resource [OF sample_resource_utf8] sample_resource_valid, where kwriter = "\<lambda>m e. (Inr (), e)" and rt = sim_runtime and
      trace = "\<lambda>e. []" and lg = None and e = new_sim]
  by (auto simp: sim_runtime_def service_logger_def)

text \<open>A client learns nothing from a failed sign-in but that it failed: whatever the error of the
  identity provider is, and whatever the state of the world, the response is the same 401 text.
  The same holds of a failed sign-up and a failed confirmation, with 500.\<close>

theorem failures_look_alike:
  assumes "fresh_writer w"
    and "decode_body sign_in_type (rq_body r) = Some req" "ValidateStruct vs ul (sty_fields sign_in_type req) = []"
    and "as_sign_in (ah_service h) req e = (Inl err, e1)" "as_sign_in (ah_service h') req e' = (Inl err', e1')"
  shows "writer_of (SignIn rt vs ul h r w e) = writer_of (SignIn rt vs ul h' r w e') \<and>
    response_status (writer_of (SignIn rt vs ul h r w e)) = Some 401 \<and>
    world_of (SignIn rt vs ul h r w e) = log_warn rt (WithError err (ah_logger h)) ''auth.signin: unauthorized'' [] e1"
  using assms by (simp add: SignIn_def with_request_served fresh_error)

definition refusing_client :: "goerr \<Rightarrow> sim cognito_client" where
  "refusing_client err = \<lparr>cc_sign_up = (\<lambda>i e. (Inl err, e)), cc_initiate_auth = (\<lambda>i e. (Inl err, e)),
     cc_confirm = (\<lambda>i e. (Inl err, e))\<rparr>"

definition refusing_handler :: "goerr \<Rightarrow> sim auth_handler" where
  "refusing_handler err =
     NewAuthHandler (NewAuthService (NewCognitoAuthProvider (refusing_client err) ''client'')) (LogrusLogger [])"

definition sign_in_body :: json where
  "sign_in_body = JObj [(''email'', JStr ''a@b.co''), (''password'', JStr ''secret'')]"

definition sign_in_sample :: sign_in_request where
  "sign_in_sample = \<lparr>si_email = ''a@b.co'', si_password = ''secret''\<rparr>"

lemma sign_in_sample_decoded:
  "decode_body sign_in_type (rq_body (request_with (print_json sign_in_body))) = Some sign_in_sample"
proof -
  have "wf_json sign_in_body"
    by (simp add: sign_in_body_def valid_utf8_ascii is_ascii_def is_ascii_byte_def)
  moreover have "json_depth sign_in_body \<le> maxNestingDepth"
    by (simp add: sign_in_body_def maxNestingDepth_def)
  ultimately show ?thesis
    using decode_print_json [of sign_in_body "[]"]
    by (simp add: decode_body_def request_with_def sign_in_type_def decode_struct_def sign_in_body_def
        store_string_def sign_in_sample_def)
qed

lemma sign_in_sample_valid: "ValidateStruct go_validator id (sty_fields sign_in_type sign_in_sample) = []"
  by code_simp

theorem failures_look_alike_witness:
  "writer_of (SignIn sim_runtime go_validator id (refusing_handler (Opaque ''no such user''))
      (request_with (print_json sign_in_body)) fresh new_sim) =
   writer_of (SignIn sim_runtime go_validator id (refusing_handler (Opaque ''wrong password''))
      (request_with (print_json sign_in_body)) fresh new_sim)"
proof -
  have f: "as_sign_in (ah_service (refusing_handler err)) sign_in_sample new_sim =
      (Inl (failed_with ErrCodeInvalidCredentials ''authentication failed'' err), new_sim)" for err
    by (simp add: refusing_handler_def refusing_client_def NewAuthHandler_def NewAuthService_def
        NewCognitoAuthProvider_def cognito_sign_in_def)
  show ?thesis
    using failures_look_alike [OF fresh_fresh sign_in_sample_decoded sign_in_sample_valid f f, of sim_runtime]
    by blast
qed

subsection \<open>The Swagger UI\<close>

text \<open>Under the paths the router gives it, the Swagger UI handler strips no prefix: the package's
  handler sees the request's own path, and only paths that end in the file's name are served
  from the file.\<close>

theorem swagger_prefix_is_kept:
  assumes "prefix (APIVersionPrefix @ ''/swagger'') (rq_path r)"
  shows "SwaggerUI serve_file ui file r w e =
    (if suffix ''swagger.yaml'' (rq_path r)
     then serve_file file r (w_set_header ''Content-Type'' ''application/yaml'' w) e
     else (case ui r w e of (out, r2, w', e') \<Rightarrow> (out, r, w', e')))"
proof -
  from assms obtain p where p: "rq_path r = ''/v1/swagger'' @ p"
    by (auto simp: APIVersionPrefix_def prefix_def)
  then have "swagger_path (rq_path r) = rq_path r" by (simp add: swagger_path_def Let_def)
  moreover have "r\<lparr>rq_path := rq_path r\<rparr> = r" by simp
  ultimately show ?thesis by (simp only: SwaggerUI_def ServeSwaggerFile_def Let_def)
qed

theorem swagger_prefix_is_kept_witness:
  "SwaggerUI (\<lambda>f r w e. (Returned, r, w, e)) (\<lambda>r w e. (Panicked (rq_path r), r, w, e)) ''docs/swagger.yaml''
     ((request_with '''')\<lparr>rq_path := ''/v1/swagger/''\<rparr>) fresh new_sim =
   (Panicked ''/v1/swagger/'', (request_with '''')\<lparr>rq_path := ''/v1/swagger/''\<rparr>, fresh, new_sim)"
  using swagger_prefix_is_kept [of "(request_with '''')\<lparr>rq_path := ''/v1/swagger/''\<rparr>"
      "\<lambda>f r w e. (Returned, r, w, e)" "\<lambda>r w e. (Panicked (rq_path r), r, w, e)" "''docs/swagger.yaml''" fresh new_sim]
  by (simp add: APIVersionPrefix_def suffix_def)

subsection \<open>Accepted values and value objects\<close>

text \<open>C15: Request validation and the value objects agree on what they share, with one exception. The type, the
  provider and the status of every resource that passes the validation are values of their value objects, and
  they are those very texts, but for the provider \<open>Azure\<close>, whose value is \<open>AZURE\<close>; and that name
  is one no provisioning request may carry.\<close>

theorem request_values_are_value_objects:
  assumes "validator_laws vs holds"
  shows "(ValidateStruct vs ul (resource_tags x) = [] \<longrightarrow>
      new_resource_type (rs_type x) = Inr (rs_type x) \<and> new_provisioning_status v (rs_status x) = Inr (rs_status x) \<and>
      new_cloud_provider u (rs_provider x) =
        Inr (if rs_provider x = ''Azure'' then CloudProviderAzure else rs_provider x)) \<and>
    (rs_provider x = CloudProviderAzure \<longrightarrow> ValidateStruct vs ul (resource_tags x) \<noteq> [])"
proof (intro conjI impI)
  assume "rs_provider x = CloudProviderAzure"
  then have "\<not> acceptable_resource x" by (simp add: acceptable_resource_def CloudProviderAzure_def)
  then show "ValidateStruct vs ul (resource_tags x) \<noteq> []" using validator_laws.validated_resource [OF assms, of ul x] by blast
next
  assume "ValidateStruct vs ul (resource_tags x) = []"
  then have ok: "acceptable_resource x" by (rule validator_laws.validated_resource [OF assms])
  have azure: "trim_space ''Azure'' = ''Azure''" "map upper_byte ''Azure'' = ''AZURE''" "is_ascii ''Azure''"
    by code_simp+
  have "to_upper u ''Azure'' = ''AZURE''" unfolding to_upper_def azure(2) using azure(3) by simp
  with azure(1) have "new_cloud_provider u ''Azure'' = Inr CloudProviderAzure"
    by (simp add: new_cloud_provider_Inr CloudProviderAzure_def cloud_provider_is_valid_def)
  moreover have "new_cloud_provider u p = Inr p" if "p \<in> {''AWS'', ''GCP''}" for p
    using cloud_vo.make_text_of [of p u] that
    by (auto simp: cloud_provider_string_def cloud_provider_is_valid_def CloudProviderAWS_def CloudProviderGCP_def)
  ultimately show "new_cloud_provider u (rs_provider x) =
      Inr (if rs_provider x = ''Azure'' then CloudProviderAzure else rs_provider x)"
    using ok by (auto simp: acceptable_resource_def)
  show "new_resource_type (rs_type x) = Inr (rs_type x)"
    using ok resource_type_vo.make_text_of [of "rs_type x"]
    by (auto simp: acceptable_resource_def resource_type_string_def resource_type_is_valid_def)
  show "new_provisioning_status v (rs_status x) = Inr (rs_status x)"
    using ok status_vo.make_text_of [of "rs_status x" v]
    by (auto simp: acceptable_resource_def status_string_def status_is_valid_def status_consts)
qed

theorem request_values_are_value_objects_witness:
  "ValidateStruct go_validator id (resource_tags azure_resource) \<noteq> [] \<and>
   new_cloud_provider ascii_upper ''Azure'' = Inr ''AZURE'' \<and> new_resource_type ''VM'' = Inr ''VM''"
proof -
  let ?x = "sample_resource\<lparr>rs_provider := ''Azure''\<rparr>"
  have "ValidateStruct go_validator id (resource_tags ?x) = []" by code_simp
  with request_values_are_value_objects [OF go_validator.validator_laws_axioms, of id ?x ascii_lower ascii_upper]
    request_values_are_value_objects [OF go_validator.validator_laws_axioms, of id azure_resource ascii_lower ascii_upper]
  show ?thesis by (simp add: azure_resource_def sample_resource_def CloudProviderAzure_def)
qed

end
