(* ===== verification/Routing_Properties.thy ===== *)
theory Routing_Properties
  imports Api_Router Handler_Properties
begin

text \<open>
  Which handler a request reaches: the preflight and origin rules of the CORS layer, and the
  table of routes under the mux.
\<close>

subsection \<open>Origins\<close>

lemma origin_allowed_iff: "origin_allowed allowed origin \<longleftrightarrow> ''*'' \<in> set allowed \<or> origin \<in> set allowed"
  by (auto simp: origin_allowed_def list_ex_iff)

lemma cors_get_origin:
  "header_get ''Access-Control-Allow-Origin'' (w_header (w_run (header_sets (cors_headers o')) w)) = o'"
proof -
  have "canonical_key ''Access-Control-Allow-Origin'' \<noteq> canonical_key ''Access-Control-Allow-Credentials''"
    "canonical_key ''Access-Control-Allow-Origin'' \<noteq> canonical_key ''Access-Control-Expose-Headers''"
    by code_simp+
  then show ?thesis
    by (simp add: cors_headers_def header_sets_def w_header_def header_get_set)
qed

lemma preflight_leaves: "list_all (leaves_header ''Access-Control-Allow-Origin'') (header_sets preflight_headers)"
  by code_simp

text \<open>C24: The CORS layer names an origin as allowed exactly when the request has one that is listed
  or anything is allowed, and then it names that very origin; a preflight is answered 204 without
  running a handler, listed or not.\<close>

theorem cors_policy:
  assumes "coherent w" "c_status (w_conn w) = None"
    and "header_get ''Access-Control-Allow-Origin'' (w_header w) = ''''"
    and "runs_within (\<lambda>out. list_all (leaves_header ''Access-Control-Allow-Origin'')) nxt"
  shows "sent_header ''Access-Control-Allow-Origin'' (writer_of (CORSMiddleware allowed nxt r w e)) =
      (if ''*'' \<in> set allowed \<or> header_get ''Origin'' (rq_header r) \<in> set allowed
       then header_get ''Origin'' (rq_header r) else '''') \<and>
    (rq_method r = ''OPTIONS'' \<longrightarrow>
       response_status (writer_of (CORSMiddleware allowed nxt r w e)) = Some 204 \<and>
       CORSMiddleware allowed nxt' r w e = CORSMiddleware allowed nxt r w e)"
proof -
  let ?o = "header_get ''Origin'' (rq_header r)"
  let ?h = "''Access-Control-Allow-Origin''"
  let ?ok = "origin_allowed allowed ?o \<and> ?o \<noteq> ''''"
  let ?w1 = "if ?ok then w_run (header_sets (cors_headers ?o)) w else w"
  let ?ps = "header_sets preflight_headers @ [WriteHeader 204]"
  have keep: "coherent (w_run (header_sets hs) w) \<and> c_status (w_conn (w_run (header_sets hs) w)) = None" for hs
    using assms(1,2) by (induction hs arbitrary: w) (auto simp: header_sets_def)
  then have w1: "coherent ?w1" "c_status (w_conn ?w1) = None" using assms(1,2) by auto
  have get: "header_get ?h (w_header ?w1) = (if ''*'' \<in> set allowed \<or> ?o \<in> set allowed then ?o else '''')"
    using assms(3) cors_get_origin [of ?o w] by (auto simp: origin_allowed_iff)
  obtain acts where acts: "list_all (leaves_header ?h) acts" "writer_of (nxt r ?w1 e) = w_run acts ?w1"
    by (rule runs_withinE [OF assms(4)])
  have cors: "CORSMiddleware allowed nxt'' r w e =
      (if rq_method r = ''OPTIONS'' then (Returned, r, w_run ?ps ?w1, e) else nxt'' r ?w1 e)" for nxt''
    by (cases ?ok) (auto simp: CORSMiddleware_def Let_def set_all_run)
  have "sent_header ?h (w_run ?ps ?w1) = header_get ?h (w_header ?w1)"
    by (rule sent_header_run [OF w1]) (simp add: preflight_leaves)
  moreover have "sent_header ?h (w_run acts ?w1) = header_get ?h (w_header ?w1)"
    by (rule sent_header_run [OF w1 acts(1)])
  moreover have "response_status (w_run ?ps ?w1) = Some 204"
    unfolding response_status_def sent_code [OF w1]
    by (simp add: preflight_headers_def header_sets_def)
  ultimately show ?thesis using get acts(2) by (simp add: cors)
qed

theorem cors_policy_witness:
  "sent_header ''Access-Control-Allow-Origin'' (writer_of (CORSMiddleware [''https://a.example'']
     (\<lambda>r w e. (Returned, r, w, e)) ((request_with '''')\<lparr>rq_header := [(''Origin'', [''https://a.example''])]\<rparr>)
     fresh new_sim)) = ''https://a.example''"
proof -
  have "runs_within (\<lambda>out. list_all (leaves_header ''Access-Control-Allow-Origin'')) (\<lambda>r w (e :: sim). (Returned, r, w, e))"
    by (rule runs_withinI, rule runsI [of _ _ "[]"]) simp_all
  moreover have "header_get ''Access-Control-Allow-Origin'' (w_header fresh) = ''''"
    by (simp add: fresh_def new_conn_def w_header_def header_get_def)
  moreover have "canonical_key ''Origin'' = ''Origin''" by code_simp
  moreover have "coherent fresh" "c_status (w_conn fresh) = None" using fresh_fresh by (auto simp: fresh_writer_def)
  ultimately show ?thesis
    using cors_policy [where nxt = "\<lambda>r w e. (Returned, r, w, e)" and nxt' = crash' and w = fresh and e = new_sim and
        allowed = "[''https://a.example'']" and r = "(request_with '''')\<lparr>rq_header := [(''Origin'', [''https://a.example''])]\<rparr>" for crash']
    by (simp add: header_get_def)
qed

subsection \<open>The table of routes\<close>

definition route_keys :: "bool \<Rightarrow> (string \<times> string) list" where
  "route_keys metrics =
     [(''POST'', ''/v1/provision''), (''GET'', ''/v1/health'')] @
     (if metrics then [(''GET'', ''/metrics'')] else []) @
     [(''POST'', ''/v1/auth/signup''), (''POST'', ''/v1/auth/signin''), (''POST'', ''/v1/auth/confirm''),
      (''GET'', ''/v1/swagger''), (''GET'', ''/v1/swagger/'')]"

lemma api_route_keys:
  "map (\<lambda>t. (mr_method t, mr_path t)) (api_routes pf hs cfg) = route_keys (rc_metrics cfg \<noteq> None)"
  by (simp add: api_routes_def route_keys_def mk_route_def APIVersionPrefix_def split: option.split)

definition key_matches :: "string \<Rightarrow> string \<Rightarrow> string \<times> string \<Rightarrow> bool" where
  "key_matches m path k \<longleftrightarrow> method_matches (fst k) m \<and> path_matches (snd k) path"

lemma route_matches_key: "route_matches m path t = key_matches m path (mr_method t, mr_path t)"
  by (simp add: route_matches_def key_matches_def)

text \<open>No two patterns cover the same request, so the mux accepts the registrations.\<close>

lemma route_paths_distinct: "distinct (map snd (route_keys b))"
  by (rule bool.induct [of _ b]; code_simp)

lemma route_path_slash: "\<forall>k\<in>set (route_keys b). suffix ''/'' (snd k) \<longrightarrow> snd k = ''/v1/swagger/''"
  by (rule bool.induct [of _ b]; code_simp)

lemma route_path_exact: "\<forall>k\<in>set (route_keys b). \<not> suffix ''/'' (snd k) \<longrightarrow> \<not> prefix ''/v1/swagger/'' (snd k)"
  by (rule bool.induct [of _ b]; code_simp)

lemma route_paths_clean: "\<forall>k\<in>set (route_keys b). clean_path (snd k) = snd k"
  by (rule bool.induct [of _ b]; code_simp)

lemma route_no_connect: "\<forall>k\<in>set (route_keys b). fst k \<noteq> ''CONNECT''"
  by (rule bool.induct [of _ b]; code_simp)

lemma paths_disjoint:
  assumes "path_matches (snd k) path" "path_matches (snd k') path" "k \<in> set (route_keys b)" "k' \<in> set (route_keys b)"
  shows "k = k'"
proof -
  note slash = bspec [OF route_path_slash] and exact = bspec [OF route_path_exact]
  have "snd k = snd k'"
    using assms(1,2) slash [OF assms(3)] slash [OF assms(4)] exact [OF assms(3)] exact [OF assms(4)]
    unfolding path_matches_def
    by (cases "suffix ''/'' (snd k)"; cases "suffix ''/'' (snd k')") simp_all
  with route_paths_distinct [of b] assms(3,4) show ?thesis
    by (metis distinct_map inj_onD)
qed

lemma keys_disjoint:
  "key_matches m path k \<Longrightarrow> key_matches m path k' \<Longrightarrow> k \<in> set (route_keys b) \<Longrightarrow> k' \<in> set (route_keys b) \<Longrightarrow> k = k'"
  unfolding key_matches_def by (blast intro: paths_disjoint)

lemma find_found:
  assumes "x \<in> set xs" "P x"
  obtains y where "find P xs = Some y" "y \<in> set xs" "P y"
proof (cases "find P xs")
  case None
  with assms show thesis by (auto simp: find_None_iff)
next
  case (Some y)
  then have "y \<in> set xs \<and> P y" by (auto simp: find_Some_iff)
  with Some that show thesis by blast
qed

definition route_key :: "'e route \<Rightarrow> string \<times> string" where
  "route_key t = (mr_method t, mr_path t)"

lemma route_keys_of: "map route_key (api_routes pf hs cfg) = route_keys (rc_metrics cfg \<noteq> None)"
  using api_route_keys [of pf hs cfg] by (simp add: route_key_def [abs_def])

lemma route_key_in: "t \<in> set (api_routes pf hs cfg) \<Longrightarrow> route_key t \<in> set (route_keys (rc_metrics cfg \<noteq> None))"
  unfolding route_keys_of [of pf hs cfg, symmetric] by simp

lemma routes_disjoint:
  assumes "t \<in> set (api_routes pf hs cfg)" "t' \<in> set (api_routes pf hs cfg)"
    and "route_matches m path t" "route_matches m path t'"
  shows "t = t'"
proof -
  have "route_key t = route_key t'"
    using keys_disjoint [OF _ _ route_key_in [OF assms(1)] route_key_in [OF assms(2)], of m path] assms(3,4)
    by (simp add: route_matches_key route_key_def)
  moreover have "distinct (map route_key (api_routes pf hs cfg))"
    using route_paths_distinct by (metis route_keys_of distinct_map)
  ultimately show ?thesis using assms(1,2) by (metis distinct_map inj_onD)
qed

lemma mux_serves:
  assumes "t \<in> set (api_routes pf hs cfg)" "route_matches (rq_method r) (rq_path r) t" "mux_path r = rq_path r"
  shows "serve_mux redirect (api_routes pf hs cfg) r w e = mr_handler t (r\<lparr>rq_pattern := pattern_of t\<rparr>) w e"
proof -
  obtain y where y: "find (route_matches (rq_method r) (rq_path r)) (api_routes pf hs cfg) = Some y"
    "y \<in> set (api_routes pf hs cfg)" "route_matches (rq_method r) (rq_path r) y"
    by (rule find_found [of t _ "route_matches (rq_method r) (rq_path r)", OF assms(1,2)])
  from routes_disjoint [OF y(2) assms(1) y(3) assms(2)] y(1) assms(3) show ?thesis
    by (simp add: serve_mux_def Let_def)
qed

text \<open>The routing as the API documents it: the pattern and the handler of a method and a path.\<close>

definition served_by ::
    "'e platform \<Rightarrow> 'e handlers \<Rightarrow> 'e router_config \<Rightarrow> string \<Rightarrow> string \<Rightarrow> (string \<times> 'e handler) option" where
  "served_by pf hs cfg m path =
     (if m = ''POST'' then
        (if path = ''/v1/provision'' then Some (''POST /v1/provision'',
           (case rc_store cfg of
              None \<Rightarrow> hd_provision hs
            | Some st \<Rightarrow> IdempotencyMiddleware (pf_uuid_ok pf) (pf_sha256 pf) st
                (if rc_ttl cfg = 0 then 24 * hour else rc_ttl cfg) (hd_provision hs)))
         else if path = ''/v1/auth/signup'' then Some (''POST /v1/auth/signup'', hd_sign_up hs)
         else if path = ''/v1/auth/signin'' then Some (''POST /v1/auth/signin'', hd_sign_in hs)
         else if path = ''/v1/auth/confirm'' then Some (''POST /v1/auth/confirm'', hd_confirm hs)
         else None)
      else if m = ''GET'' \<or> m = ''HEAD'' then
        (if path = ''/v1/health'' then Some (''GET /v1/health'', hd_health hs)
         else if path = ''/metrics'' then map_option (\<lambda>h. (''GET /metrics'', h)) (rc_metrics cfg)
         else if path = ''/v1/swagger'' then Some (''GET /v1/swagger'', hd_swagger hs)
         else if prefix ''/v1/swagger/'' path then Some (''GET /v1/swagger/'', hd_swagger hs)
         else None)
      else None)"

lemma pattern_paths:
  "path_matches ''/v1/provision'' p = (p = ''/v1/provision'')" "path_matches ''/v1/health'' p = (p = ''/v1/health'')"
  "path_matches ''/metrics'' p = (p = ''/metrics'')" "path_matches ''/v1/auth/signup'' p = (p = ''/v1/auth/signup'')"
  "path_matches ''/v1/auth/signin'' p = (p = ''/v1/auth/signin'')" "path_matches ''/v1/auth/confirm'' p = (p = ''/v1/auth/confirm'')"
  "path_matches ''/v1/swagger'' p = (p = ''/v1/swagger'')" "path_matches ''/v1/swagger/'' p = prefix ''/v1/swagger/'' p"
  by (simp_all add: path_matches_def suffix_def)

lemma pattern_methods:
  "method_matches ''POST'' m = (m = ''POST'')" "method_matches ''GET'' m = (m = ''GET'' \<or> m = ''HEAD'')"
  by (auto simp: method_matches_def)

text \<open>The table as \<open>find\<close> goes through it, one row at a time.\<close>

lemma find_row:
  "map_option f (find (route_matches m p) (mk_route m' p' h # ts)) =
     (if method_matches m' m \<and> path_matches p' p then Some (f (mk_route m' p' h)) else map_option f (find (route_matches m p) ts))"
  by (simp add: mk_route_def route_matches_def)

lemma find_served:
  "map_option (\<lambda>t. (pattern_of t, mr_handler t)) (find (route_matches m path) (api_routes pf hs cfg)) = served_by pf hs cfg m path"
proof -
  have row: "pattern_of (mk_route m' p h) = m' @ '' '' @ p" "mr_handler (mk_route m' p h) = h" for m' p and h :: "'a handler"
    by (simp_all add: pattern_of_def mk_route_def)
  have prov: "provision_route pf hs cfg = (case rc_store cfg of None \<Rightarrow> hd_provision hs
      | Some st \<Rightarrow> IdempotencyMiddleware (pf_uuid_ok pf) (pf_sha256 pf) st (if rc_ttl cfg = 0 then 24 * hour else rc_ttl cfg) (hd_provision hs))"
    by (simp add: provision_route_def router_ttl_def split: option.split)
  have routes: "api_routes pf hs cfg =
      mk_route ''POST'' ''/v1/provision'' (provision_route pf hs cfg) # mk_route ''GET'' ''/v1/health'' (hd_health hs) #
      (case rc_metrics cfg of Some h \<Rightarrow> [mk_route ''GET'' ''/metrics'' h] | None \<Rightarrow> []) @
      [mk_route ''POST'' ''/v1/auth/signup'' (hd_sign_up hs), mk_route ''POST'' ''/v1/auth/signin'' (hd_sign_in hs),
       mk_route ''POST'' ''/v1/auth/confirm'' (hd_confirm hs), mk_route ''GET'' ''/v1/swagger'' (hd_swagger hs),
       mk_route ''GET'' ''/v1/swagger/'' (hd_swagger hs)]"
    by (simp add: api_routes_def APIVersionPrefix_def)
  note steps = find_row pattern_paths pattern_methods row
  consider (post) "m = ''POST''" | (get) "m \<noteq> ''POST''" "m = ''GET'' \<or> m = ''HEAD''"
    | (other) "m \<noteq> ''POST''" "\<not> (m = ''GET'' \<or> m = ''HEAD'')" by blast
  then show ?thesis
  proof cases
    case post
    then show ?thesis
      unfolding routes served_by_def prov [symmetric]
      by (cases "rc_metrics cfg") (simp_all add: steps del: find.simps(2) split del: if_split cong: if_cong)
  next
    case get
    show ?thesis
    proof (cases "path = ''/metrics''")
      case True
      with get show ?thesis
        unfolding routes served_by_def
        by (cases "rc_metrics cfg") (simp_all add: steps del: find.simps(2) split del: if_split cong: if_cong)
    next
      case False
      with get show ?thesis
        unfolding routes served_by_def
        by (cases "rc_metrics cfg") (simp_all add: steps del: find.simps(2) split del: if_split cong: if_cong)
    qed
  next
    case other
    then show ?thesis
      unfolding routes served_by_def
      by (cases "rc_metrics cfg") (simp_all add: steps del: find.simps(2) split del: if_split cong: if_cong)
  qed
qed

text \<open>C25: The mux serves every request with a clean path as the table of routes above says: each path with its
  method reaches its own handler, with the pattern recorded in the request, provisioning behind the
  idempotency layer exactly when there is a store, \<open>HEAD\<close> as \<open>GET\<close>, the scrape endpoint only when
  metrics are on; nothing else reaches a handler.\<close>

theorem mux_follows_the_table:
  assumes "mux_path r = rq_path r"
  shows "case served_by pf hs cfg (rq_method r) (rq_path r) of
      Some (pat, h) \<Rightarrow> serve_mux redirect (api_routes pf hs cfg) r w e = h (r\<lparr>rq_pattern := pat\<rparr>) w e
    | None \<Rightarrow> \<exists>w'. serve_mux redirect (api_routes pf hs cfg) r w e = (Returned, r\<lparr>rq_pattern := ''''\<rparr>, w', e)"
  using find_served [of "rq_method r" "rq_path r" pf hs cfg, symmetric] assms
  by (cases "find (route_matches (rq_method r) (rq_path r)) (api_routes pf hs cfg)")
    (simp_all add: serve_mux_def Let_def not_allowed_handler_def not_found_handler_def)

definition named_handler :: "string \<Rightarrow> 'e handler" where
  "named_handler name r w e = (Panicked name, r, w, e)"

definition named_handlers :: "'e handlers" where
  "named_handlers = \<lparr>hd_provision = named_handler ''provision'', hd_health = named_handler ''health'',
     hd_sign_up = named_handler ''sign up'', hd_sign_in = named_handler ''sign in'',
     hd_confirm = named_handler ''confirm'', hd_swagger = named_handler ''swagger''\<rparr>"

definition health_only :: "'e handlers" where
  "health_only = \<lparr>hd_provision = (\<lambda>r w e. (Panicked '''', r, w, e)), hd_health = HealthCheck,
     hd_sign_up = (\<lambda>r w e. (Panicked '''', r, w, e)), hd_sign_in = (\<lambda>r w e. (Panicked '''', r, w, e)),
     hd_confirm = (\<lambda>r w e. (Panicked '''', r, w, e)), hd_swagger = (\<lambda>r w e. (Panicked '''', r, w, e))\<rparr>"

definition plain_platform :: "sim platform" where
  "plain_platform = \<lparr>pf_runtime = sim_runtime, pf_uuid_ok = (\<lambda>k. True), pf_sha256 = id, pf_stack = '''',
     pf_redirect = (\<lambda>p r w e. (Returned, r, w_write_header 301 (w_set_header ''Location'' p w), e)),
     pf_gauge_ok = True, pf_histogram_ok = True\<rparr>"

definition request_to :: "string \<Rightarrow> string \<Rightarrow> http_request" where
  "request_to m p = (request_with '''')\<lparr>rq_method := m, rq_path := p\<rparr>"

theorem mux_follows_the_table_witness:
  "serve_mux (pf_redirect plain_platform) (api_routes plain_platform named_handlers DefaultRouterConfig)
     (request_to ''POST'' ''/v1/auth/signin'') fresh new_sim =
     (Panicked ''sign in'', (request_to ''POST'' ''/v1/auth/signin'')\<lparr>rq_pattern := ''POST /v1/auth/signin''\<rparr>, fresh, new_sim) \<and>
   serve_mux (pf_redirect plain_platform) (api_routes plain_platform named_handlers DefaultRouterConfig)
     (request_to ''HEAD'' ''/v1/swagger/x'') fresh new_sim =
     (Panicked ''swagger'', (request_to ''HEAD'' ''/v1/swagger/x'')\<lparr>rq_pattern := ''GET /v1/swagger/''\<rparr>, fresh, new_sim)"
proof -
  have c: "mux_path (request_to ''POST'' ''/v1/auth/signin'') = rq_path (request_to ''POST'' ''/v1/auth/signin'')"
    "mux_path (request_to ''HEAD'' ''/v1/swagger/x'') = rq_path (request_to ''HEAD'' ''/v1/swagger/x'')" by code_simp+
  note at = mux_follows_the_table [where pf = plain_platform and hs = named_handlers and cfg = DefaultRouterConfig and
      redirect = "pf_redirect plain_platform" and w = fresh and e = new_sim]
  from at [OF c(1)] at [OF c(2)] show ?thesis
    by (simp add: served_by_def request_to_def request_with_def named_handlers_def named_handler_def)
qed

lemma slash_added:
  assumes "k \<in> set (route_keys b)" "\<not> suffix ''/'' p" "path_matches (snd k) (p @ ''/'')"
  shows "\<exists>k'\<in>set (route_keys b). fst k' = fst k \<and> path_matches (snd k') p"
proof -
  have s: "suffix ''/'' (snd k)"
  proof (rule ccontr)
    assume n: "\<not> suffix ''/'' (snd k)"
    with assms(3) have "snd k = p @ ''/''" by (simp add: path_matches_def)
    with n show False by (simp add: suffix_def)
  qed
  then have k: "k = (''GET'', ''/v1/swagger/'')" using assms(1) by (auto simp: route_keys_def suffix_def)
  with assms(3) s have "prefix ''/v1/swagger/'' (p @ ''/'')" by (simp add: path_matches_def)
  then obtain zs where zs: "p @ ''/'' = ''/v1/swagger/'' @ zs" by (auto simp: prefix_def)
  show ?thesis
  proof (cases zs rule: rev_cases)
    case Nil
    with zs have "p = ''/v1/swagger''" by simp
    then show ?thesis unfolding k
      by (intro bexI [of _ "(''GET'', ''/v1/swagger'')"]) (auto simp: route_keys_def path_matches_def suffix_def)
  next
    case (snoc ys y)
    with zs have "p = ''/v1/swagger/'' @ ys" by auto
    then show ?thesis using assms(1) s unfolding k
      by (intro bexI [of _ "(''GET'', ''/v1/swagger/'')"]) (auto simp: path_matches_def)
  qed
qed


lemma allowed_methods_alt:
  "allowed_methods ts path = sorted_list_of_set (\<Union>t\<in>{t \<in> set ts. path_matches (mr_path t) path \<or>
     \<not> suffix ''/'' path \<and> path_matches (mr_path t) (path @ ''/'')}. set (served_methods (mr_method t)))"
  unfolding allowed_methods_def sorted_list_of_set_sort_remdups [symmetric]
  by (rule arg_cong [of _ _ sorted_list_of_set]) auto

lemma served_methods_sorted: "sorted_list_of_set (set (served_methods m)) = served_methods m"
  by (auto simp: served_methods_def intro!: sorted_list_of_set.idem_if_sorted_distinct)

lemma allowed_of_path:
  assumes "t \<in> set (api_routes pf hs cfg)" "path_matches (mr_path t) path"
  shows "allowed_methods (api_routes pf hs cfg) path = served_methods (mr_method t)"
proof -
  have meth: "mr_method t' = mr_method t"
    if t': "t' \<in> set (api_routes pf hs cfg)" "path_matches (mr_path t') path \<or>
      \<not> suffix ''/'' path \<and> path_matches (mr_path t') (path @ ''/'')" for t'
  proof -
    have "\<exists>k\<in>set (route_keys (rc_metrics cfg \<noteq> None)). fst k = mr_method t' \<and> path_matches (snd k) path"
    proof (cases "path_matches (mr_path t') path")
      case True
      then show ?thesis using route_key_in [OF t'(1)] by (intro bexI [of _ "route_key t'"]) (simp_all add: route_key_def)
    next
      case False
      with t'(2) slash_added [OF route_key_in [OF t'(1)], of path] show ?thesis by (simp add: route_key_def)
    qed
    then obtain k where k: "k \<in> set (route_keys (rc_metrics cfg \<noteq> None))" "fst k = mr_method t'" "path_matches (snd k) path"
      by blast
    have "k = route_key t"
      by (rule paths_disjoint [OF k(3) _ k(1) route_key_in [OF assms(1)]]) (simp add: route_key_def assms(2))
    with k(2) show ?thesis by (simp add: route_key_def)
  qed
  let ?S = "{t \<in> set (api_routes pf hs cfg). path_matches (mr_path t) path \<or>
      \<not> suffix ''/'' path \<and> path_matches (mr_path t) (path @ ''/'')}"
  have "(\<Union>t'\<in>?S. set (served_methods (mr_method t'))) = (\<Union>t'\<in>?S. set (served_methods (mr_method t)))"
    by (rule SUP_cong [OF refl]) (use meth in simp)
  moreover have "t \<in> ?S" using assms by simp
  ultimately have "(\<Union>t'\<in>?S. set (served_methods (mr_method t'))) = set (served_methods (mr_method t))"
    by (auto simp del: mem_Collect_eq)
  then show ?thesis by (simp only: allowed_methods_alt served_methods_sorted)
qed

lemma allowed_of_none:
  assumes "\<forall>t\<in>set (api_routes pf hs cfg). \<not> path_matches (mr_path t) path"
  shows "allowed_methods (api_routes pf hs cfg) path = []"
proof -
  have "\<not> path_matches (mr_path t) (path @ ''/'')" if t: "t \<in> set (api_routes pf hs cfg)" "\<not> suffix ''/'' path" for t
  proof
    assume "path_matches (mr_path t) (path @ ''/'')"
    then obtain k where "k \<in> set (route_keys (rc_metrics cfg \<noteq> None))" "path_matches (snd k) path"
      using slash_added [OF route_key_in [OF t(1)] t(2)] by (auto simp: route_key_def)
    with assms show False unfolding route_keys_of [of pf hs cfg, symmetric]
      by (auto simp: route_key_def)
  qed
  with assms have "filter (\<lambda>t. path_matches (mr_path t) path \<or> \<not> suffix ''/'' path \<and>
      path_matches (mr_path t) (path @ ''/'')) (api_routes pf hs cfg) = []"
    unfolding filter_empty_conv by blast
  then show ?thesis by (simp add: allowed_methods_def)
qed

lemma http_error_run:
  "http_error msg code w = w_run [SetHeader ''Content-Type'' ''text/plain; charset=utf-8'',
     SetHeader ''X-Content-Type-Options'' ''nosniff'', WriteHeader code, WriteBody (msg @ [CHR 0x0A])] w"
  by (simp add: http_error_def)

text \<open>C26: A request that fits no pattern is answered 405 when its path is a route's, with the methods
  that route serves in \<open>Allow\<close>, and 404 otherwise; no handler runs.\<close>

theorem unmatched_requests:
  assumes "mux_path r = rq_path r" "fresh_writer w"
    and "\<forall>t\<in>set (api_routes pf hs cfg). \<not> route_matches (rq_method r) (rq_path r) t"
  shows "\<exists>w'. serve_mux redirect (api_routes pf hs cfg) r w e = (Returned, r\<lparr>rq_pattern := ''''\<rparr>, w', e) \<and>
    (case find (\<lambda>t. path_matches (mr_path t) (rq_path r)) (api_routes pf hs cfg) of
       None \<Rightarrow> response_status w' = Some 404
     | Some t \<Rightarrow> response_status w' = Some 405 \<and>
         sent_header ''Allow'' w' = (if mr_method t = ''GET'' then ''GET, HEAD'' else mr_method t))"
proof -
  have fw: "coherent w" "c_status (w_conn w) = None" using assms(2) by (auto simp: fresh_writer_def)
  have none: "find (route_matches (rq_method r) (rq_path r)) (api_routes pf hs cfg) = None"
    using assms(3) by (simp add: find_None_iff)
  show ?thesis
  proof (cases "find (\<lambda>t. path_matches (mr_path t) (rq_path r)) (api_routes pf hs cfg)")
    case None
    then have "allowed_methods (api_routes pf hs cfg) (rq_path r) = []"
      by (intro allowed_of_none) (simp add: find_None_iff)
    with none assms(1) have "serve_mux redirect (api_routes pf hs cfg) r w e =
        (Returned, r\<lparr>rq_pattern := ''''\<rparr>, http_error ''404 page not found'' 404 w, e)"
      by (simp add: serve_mux_def Let_def not_found_handler_def)
    moreover have "response_status (http_error ''404 page not found'' 404 w) = Some 404"
      unfolding response_status_def http_error_run sent_code [OF fw] by simp
    ultimately show ?thesis using None by simp
  next
    case (Some t)
    then have "t \<in> set (api_routes pf hs cfg)" "path_matches (mr_path t) (rq_path r)"
      by (auto simp: find_Some_iff)
    then have a: "allowed_methods (api_routes pf hs cfg) (rq_path r) = served_methods (mr_method t)"
      by (rule allowed_of_path)
    let ?w = "http_error ''Method Not Allowed'' 405 (w_set_header ''Allow'' (join_comma (served_methods (mr_method t))) w)"
    from none assms(1) a have "serve_mux redirect (api_routes pf hs cfg) r w e = (Returned, r\<lparr>rq_pattern := ''''\<rparr>, ?w, e)"
      by (simp add: serve_mux_def Let_def not_allowed_handler_def served_methods_def)
    moreover have "response_status ?w = Some 405"
    proof -
      have "coherent (w_set_header ''Allow'' v w)" "c_status (w_conn (w_set_header ''Allow'' v w)) = None" for v
        using fw by simp_all
      from sent_code [OF this] show ?thesis unfolding response_status_def http_error_run
        by (simp only: wire_code.simps)
    qed
    moreover have "sent_header ''Allow'' ?w = join_comma (served_methods (mr_method t))"
    proof -
      have "canonical_key ''Content-Type'' \<noteq> canonical_key ''Allow''"
        "canonical_key ''X-Content-Type-Options'' \<noteq> canonical_key ''Allow''" by code_simp+
      then show ?thesis
        unfolding http_error_run by (subst sent_header_run) (simp_all add: fw w_header_def)
    qed
    moreover have "join_comma (served_methods (mr_method t)) = (if mr_method t = ''GET'' then ''GET, HEAD'' else mr_method t)"
      by (simp add: served_methods_def join_comma_def)
    ultimately show ?thesis using Some by simp
  qed
qed

definition get_provision :: http_request where
  "get_provision = (request_with '''')\<lparr>rq_method := ''GET''\<rparr>"

theorem unmatched_requests_witness:
  "\<exists>w'. serve_mux (pf_redirect plain_platform) (api_routes plain_platform health_only DefaultRouterConfig) get_provision fresh new_sim =
      (Returned, get_provision\<lparr>rq_pattern := ''''\<rparr>, w', new_sim) \<and> response_status w' = Some 405 \<and>
      sent_header ''Allow'' w' = ''POST''"
proof -
  let ?ts = "api_routes plain_platform health_only DefaultRouterConfig"
  have c: "mux_path get_provision = rq_path get_provision" by code_simp
  have n: "\<forall>t\<in>set ?ts. \<not> route_matches (rq_method get_provision) (rq_path get_provision) t" 
    by (simp add: api_routes_def mk_route_def APIVersionPrefix_def DefaultRouterConfig_def get_provision_def
        request_with_def route_matches_def method_matches_def path_matches_def suffix_def)
  have f: "find (\<lambda>t. path_matches (mr_path t) (rq_path get_provision)) ?ts = Some (mk_route ''POST'' ''/v1/provision'' (hd_provision health_only))"
    by (simp add: api_routes_def mk_route_def APIVersionPrefix_def DefaultRouterConfig_def get_provision_def
        request_with_def path_matches_def suffix_def provision_route_def)
  from unmatched_requests [OF c fresh_fresh n, of "pf_redirect plain_platform" new_sim] show ?thesis
    by (auto simp: f mk_route_def)
qed

end
