(* ===== verification/Router_Properties.thy ===== *)
theory Router_Properties
  imports Routing_Properties
begin

text \<open>
  Properties of the router: what the chain of layers adds to any mux (one point, one line, the
  gauge, the recovery of panics, the headers), and which handler the table of routes gives a
  request to.
\<close>

subsection \<open>The chain around any handler\<close>

text \<open>A handler that sends one header, and panics only while nothing is sent.\<close>

definition sends_once :: "outcome \<Rightarrow> w_action list \<Rightarrow> bool" where
  "sends_once out acts \<longleftrightarrow> header_once acts \<and> (out \<noteq> Returned \<longrightarrow> only_headers acts)"

lemma header_once_headers: "only_headers acts \<Longrightarrow> header_once (acts @ acts') = header_once acts'"
  by (induction acts rule: header_once.induct) (auto simp: only_headers_def)

lemma only_headers_sets [simp]: "only_headers (header_sets hs @ acts) = only_headers acts"
  by (induction hs) (auto simp: header_sets_def only_headers_def)

lemma recovered_chain_runs:
  assumes "runs_within sends_once mux"
  shows "runs_within (\<lambda>out. header_once) (RecoveryMiddleware rt stack lg (header_layers pf cfg mux))"
proof (rule recovery_runs [where P = sends_once])
  show "runs_within sends_once (header_layers pf cfg mux)"
    by (rule header_layers_runs [OF assms]) (auto simp: sends_once_def)
qed (auto simp: sends_once_def header_once_headers error_acts_def)

text \<open>C21: Every request that is not a metrics scrape or a health probe is answered, also when a
  handler panics: the in-flight gauge ends where it began, the duration histogram gets one point
  and the log one request line, both with the status that is sent. The handlers
  only have to send one header and not to panic after it.\<close>

theorem every_request_is_measured:
  assumes "runtime_laws (pf_runtime pf) tot pts ents"
    and "quiet tot pts ents ''http request'' mux" "runs_within sends_once mux"
    and "pf_gauge_ok pf" "pf_histogram_ok pf" "rc_logger cfg = Some (LogrusLogger entry)"
    and "rq_path r \<noteq> metricsPath" "rq_path r \<noteq> healthPath"
    and "coherent w" "c_status (w_conn w) = None"
  shows "\<exists>r' w' e' d d' st. router_chain pf cfg mux r w e = (Returned, r', w', e') \<and>
    tot e' = tot e \<and> response_status w' = Some st \<and>
    pts e' request_duration = pts e request_duration @ [(d, duration_attrs r' st)] \<and>
    lines_of ''http request'' (ents e') = lines_of ''http request'' (ents e) @
      [(InfoLevel, ''http request'', with_call_fields (request_line r' st d') entry)]"
proof -
  note rl = assms(1)
  let ?inner = "RecoveryMiddleware (pf_runtime pf) (pf_stack pf) (LogrusLogger entry) (header_layers pf cfg mux)"
  have "quiet tot pts ents ''http request'' (header_layers pf cfg mux)"
    unfolding header_layers_def
    by (intro runtime_laws.quiet_request_context [OF rl] runtime_laws.quiet_standard_headers [OF rl]
        runtime_laws.quiet_cors [OF rl] assms(2))
  then have q: "quiet tot pts ents ''http request'' ?inner"
    by (rule runtime_laws.quiet_recovery [OF rl]) simp
  have chain: "router_chain pf cfg mux = ActiveRequestsMiddleware (pf_runtime pf) True
      (RequestDurationMiddleware (pf_runtime pf) True
        (RequestLoggingMiddleware (pf_runtime pf) (LogrusLogger entry) ?inner))"
    using assms(4-6) by (simp add: router_chain_layers header_layers_def router_logger_def)
  obtain acts r' e' d d' where "header_once acts"
    "router_chain pf cfg mux r w e = (Returned, r', w_run acts w, e')" "tot e' = tot e"
    "pts e' request_duration = pts e request_duration @ [(d, duration_attrs r' (last_code acts 200))]"
    "lines_of ''http request'' (ents e') = lines_of ''http request'' (ents e) @
       [(InfoLevel, ''http request'', with_call_fields (request_line r' (last_code acts 200) d') entry)]"
    unfolding chain
    by (rule runtime_laws.measured_call [OF rl q _ recovered_chain_runs [OF assms(3)] assms(7,8)]) simp_all
  moreover from this(1) have "response_status (w_run acts w) = Some (last_code acts 200)"
    using sent_code [OF assms(9,10)] by (simp add: response_status_def header_once_code)
  ultimately show ?thesis by blast
qed

definition crash :: "'e handler" where
  "crash r w e = (Panicked ''boom'', r, w, e)"

definition logged_config :: "'e router_config" where
  "logged_config = DefaultRouterConfig\<lparr>rc_logger := Some (LogrusLogger [])\<rparr>"

lemma crash_runs: "runs_within sends_once crash"
  by (rule runs_withinI, rule runsI [of _ _ "[]"]) (simp_all add: crash_def sends_once_def only_headers_def)

lemma crash_quiet: "quiet tot pts ents msg crash"
  by (simp add: quiet_def crash_def)

theorem every_request_is_measured_witness:
  "\<exists>r' w' e' st. router_chain plain_platform logged_config crash (request_with '''') fresh new_sim =
      (Returned, r', w', e') \<and> response_status w' = Some st \<and>
      sim_total e' = sim_total new_sim \<and> length (lines_of ''http request'' (sim_log e')) = 1"
proof -
  have s: "lines_of ''http request'' (sim_log new_sim) = []" by (simp add: new_sim_def lines_of_def)
  have "runtime_laws (pf_runtime plain_platform) sim_total sim_points_of (sim_log :: sim \<Rightarrow> _)"
    by (simp add: plain_platform_def sim.runtime_laws_axioms)
  from every_request_is_measured [OF this crash_quiet crash_runs, of logged_config "[]" "request_with ''''" fresh new_sim]
    s fresh_fresh
  show ?thesis
    by (fastforce simp: plain_platform_def logged_config_def request_with_def metricsPath_def healthPath_def
        fresh_writer_def)
qed

text \<open>C22: A handler that panics after its response has begun is counted as a 500 although the client
  was sent the first status: the recovery layer's \<open>WriteHeader\<close> reaches the recorder, not the wire.\<close>

theorem late_panic_counts_as_500:
  assumes "next r (newStatusRecorder w) (snd (rt_now rt e)) = (Panicked v, r', w1, e1)"
    and "w1 = w_run acts (newStatusRecorder w)" "\<not> only_headers acts" "coherent w" "c_status (w_conn w) = None"
    and "rq_path r \<noteq> metricsPath"
  shows "\<exists>w' d e2. RequestDurationMiddleware rt True (RecoveryMiddleware rt stack lg next) r w e =
      (Returned, r', w', rt_record rt request_duration d (duration_attrs r' 500) e2) \<and>
    response_status w' = Some (wire_code acts)"
proof -
  let ?all = "acts @ error_acts 500 (recovered r')"
  have "wire_code ?all = wire_code acts" by (rule wire_code_sent [OF assms(3)])
  then have "response_status (w_run ?all w) = Some (wire_code acts)"
    using sent_code [OF assms(4,5), of ?all] by (simp add: response_status_def)
  moreover have "RecoveryMiddleware rt stack lg next r (newStatusRecorder w) (snd (rt_now rt e)) =
      (Returned, r', StatusRecorder (w_run ?all w) 500,
       log_error rt lg ''http request panic recovered'' (panic_line stack v r') e1)"
    using assms(1,2)
    by (simp add: RecoveryMiddleware_def error_run [unfolded recovered_def] recovered_def
        newStatusRecorder_def status_recorder_code del: w_run_simps(3))
      (simp add: status_recorder_code)
  ultimately show ?thesis
    using assms(6) by (simp add: RequestDurationMiddleware_def split_beta Let_def) blast
qed

definition late_crash :: "'e handler" where
  "late_crash r w e = (Panicked ''boom'', r, w_write_header 202 w, e)"

theorem late_panic_counts_as_500_witness:
  "\<exists>w' d e2. RequestDurationMiddleware sim_runtime True (RecoveryMiddleware sim_runtime '''' NopLogger late_crash)
      (request_with '''') fresh new_sim =
      (Returned, request_with '''', w', rt_record sim_runtime request_duration d (duration_attrs (request_with '''') 500) e2) \<and>
    response_status w' = Some 202"
proof -
  let ?e = "snd (rt_now sim_runtime new_sim)"
  have call: "late_crash (request_with '''') (newStatusRecorder fresh) ?e =
      (Panicked ''boom'', request_with '''', w_write_header 202 (newStatusRecorder fresh), ?e)"
    by (simp add: late_crash_def)
  have run: "w_write_header 202 (newStatusRecorder fresh) = w_run [WriteHeader 202] (newStatusRecorder fresh)"
    "\<not> only_headers [WriteHeader 202]" "coherent fresh" "c_status (w_conn fresh) = None"
    "rq_path (request_with '''') \<noteq> metricsPath"
    using fresh_fresh by (simp_all add: only_headers_def fresh_writer_def request_with_def metricsPath_def)
  from late_panic_counts_as_500 [where ?next = late_crash and r = "request_with ''''", OF call run,
      of "''''" NopLogger] show ?thesis
    by (simp only: wire_code.simps)
qed

subsection \<open>Headers of every response\<close>

text \<open>A handler that does not set the header \<open>k\<close> to another text than \<open>v\<close>.\<close>

fun keeps_header :: "string \<Rightarrow> string \<Rightarrow> w_action \<Rightarrow> bool" where
  "keeps_header k v (SetHeader k' v') \<longleftrightarrow> (canonical_key k' = canonical_key k \<longrightarrow> v' = v)"
| "keeps_header k v a \<longleftrightarrow> True"

lemma sent_header_kept:
  "coherent w \<Longrightarrow> c_status (w_conn w) = None \<Longrightarrow> header_get k (w_header w) = v \<Longrightarrow>
     list_all (keeps_header k v) acts \<Longrightarrow> sent_header k (w_run acts w) = v"
proof (induction acts arbitrary: w)
  case Nil
  then show ?case by (simp add: sent_header_def conn_finish_def conn_write_header_def w_header_def)
next
  case (Cons a acts)
  show ?case
  proof (cases a)
    case (SetHeader k' v')
    have "header_get k (w_header (w_act a w)) = v"
      using SetHeader Cons.prems(3,4) by (auto simp: w_header_def header_get_set)
    moreover have "coherent (w_act a w)" "c_status (w_conn (w_act a w)) = None"
      using SetHeader Cons.prems(1,2) by simp_all
    moreover have "list_all (keeps_header k v) acts" using Cons.prems(4) by simp
    ultimately show ?thesis using Cons.IH by simp
  next
    case (WriteHeader code)
    with Cons.prems have "sent_header k (w_run (a # acts) w) = header_get k (w_header w)"
      using conn_status_run [of "w_act a w" code acts]
      by (simp add: sent_header_def conn_finish_def conn_write_header_def w_header_def)
    with Cons.prems(3) show ?thesis by simp
  next
    case (WriteBody bs)
    with Cons.prems have "sent_header k (w_run (a # acts) w) = header_get k (w_header w)"
      using conn_status_run [of "w_act a w" 200 acts]
      by (simp add: sent_header_def conn_finish_def conn_write_header_def conn_write_def w_header_def
          Let_def split: if_splits)
    with Cons.prems(3) show ?thesis by simp
  qed
qed

text \<open>Actions that end with the header \<open>k\<close> at \<open>v\<close> before anything is sent.\<close>

definition sends_header :: "string \<Rightarrow> string \<Rightarrow> w_action list \<Rightarrow> bool" where
  "sends_header k v acts \<longleftrightarrow>
     (\<exists>a1 k' a2. acts = a1 @ SetHeader k' v # a2 \<and> canonical_key k' = canonical_key k \<and>
        only_headers a1 \<and> list_all (keeps_header k v) a2)"

lemma only_headers_run:
  "only_headers acts \<Longrightarrow> coherent w \<Longrightarrow>
     coherent (w_run acts w) \<and> c_status (w_conn (w_run acts w)) = c_status (w_conn w)"
  by (induction acts arbitrary: w) (auto simp: only_headers_def)

lemma sends_headerD:
  assumes "sends_header k v acts" "coherent w" "c_status (w_conn w) = None"
  shows "sent_header k (w_run acts w) = v"
proof -
  obtain a1 k' a2 where a: "acts = a1 @ SetHeader k' v # a2" "canonical_key k' = canonical_key k"
    "only_headers a1" "list_all (keeps_header k v) a2" using assms(1) by (auto simp: sends_header_def)
  let ?w = "w_set_header k' v (w_run a1 w)"
  have "coherent ?w" "c_status (w_conn ?w) = None" "header_get k (w_header ?w) = v"
    using only_headers_run [OF a(3) assms(2)] assms(3) a(2) by (simp_all add: w_header_def header_get_set)
  from sent_header_kept [OF this a(4)] show ?thesis by (simp add: a(1))
qed

lemma sends_header_more:
  "sends_header k v acts \<Longrightarrow> list_all (keeps_header k v) acts' \<Longrightarrow> sends_header k v (acts @ acts')"
  unfolding sends_header_def by fastforce

lemma sends_header_before: "sends_header k v acts \<Longrightarrow> sends_header k v (header_sets hs @ acts)"
  unfolding sends_header_def by (metis append.assoc only_headers_sets)

definition fixed_headers :: "(string \<times> string) list" where
  "fixed_headers =
     [(''X-Content-Type-Options'', ''nosniff''), (''X-Frame-Options'', ''DENY''),
      (''X-XSS-Protection'', ''1; mode=block''),
      (''Cache-Control'', ''no-store, no-cache, must-revalidate''), (''Pragma'', ''no-cache''),
      (''X-API-Version'', ''v1'')]"

lemma header_sets_keep:
  "canonical_key k \<notin> canonical_key ` fst ` set hs \<Longrightarrow> list_all (keeps_header k v) (header_sets hs)"
  by (induction hs) (auto simp: header_sets_def)

lemma header_sets_send:
  assumes "(k, v) \<in> set hs" "distinct (map (canonical_key \<circ> fst) hs)" "list_all (keeps_header k v) acts"
  shows "sends_header k v (header_sets hs @ acts)"
proof -
  obtain hs1 hs2 where hs: "hs = hs1 @ (k, v) # hs2" using assms(1) by (meson split_list)
  with assms(2) have "list_all (keeps_header k v) (header_sets hs2)"
    by (intro header_sets_keep) (simp add: image_comp)
  then have "sends_header k v (SetHeader k v # (header_sets hs2 @ acts))"
    using assms(3) unfolding sends_header_def
    by (intro exI [of _ "[]"] exI [of _ k] exI [of _ "header_sets hs2 @ acts"]) (simp add: only_headers_def)
  then show ?thesis using sends_header_before [of k v _ hs1] by (simp add: hs header_sets_def)
qed

lemma standard_keys_distinct: "distinct (map (canonical_key \<circ> fst) (standard_headers rid stamp))"
proof -
  have "map (canonical_key \<circ> fst) (standard_headers rid stamp) = map (canonical_key \<circ> fst) (standard_headers '''' '''')"
    by (simp add: standard_headers_def)
  moreover have "distinct (map (canonical_key \<circ> fst) (standard_headers '''' ''''))" by code_simp
  ultimately show ?thesis by simp
qed

lemma fixed_standard: "(k, v) \<in> set fixed_headers \<Longrightarrow> (k, v) \<in> set (standard_headers rid stamp)"
  by (auto simp: fixed_headers_def standard_headers_def APIVersionPrefix_def)

lemma fixed_elsewhere:
  assumes "(k, v) \<in> set fixed_headers"
  shows "canonical_key k \<notin> canonical_key ` fst ` set (cors_headers origin @ preflight_headers)"
    "canonical_key k \<noteq> canonical_key ''Content-Type''"
proof -
  have "fst ` set (cors_headers origin @ preflight_headers) = fst ` set (cors_headers '''' @ preflight_headers)"
    by (simp add: cors_headers_def)
  moreover have all: "\<forall>p\<in>set fixed_headers.
      canonical_key (fst p) \<notin> canonical_key ` fst ` set (cors_headers '''' @ preflight_headers) \<and>
      canonical_key (fst p) \<noteq> canonical_key ''Content-Type''" by code_simp
  ultimately show "canonical_key k \<notin> canonical_key ` fst ` set (cors_headers origin @ preflight_headers)"
    using bspec [OF all assms] by (simp only: fst_conv) blast
  show "canonical_key k \<noteq> canonical_key ''Content-Type''" using bspec [OF all assms] by simp
qed

text \<open>C23: Whatever route answers, and also when a handler panics or a preflight is answered, the
  response carries the security, caching and version headers, as long as the route's handler
  does not set one of them to something else.\<close>

theorem standard_headers_are_sent:
  assumes "(k, v) \<in> set fixed_headers" "runs_within (\<lambda>out. list_all (keeps_header k v)) mux"
    and "coherent w" "c_status (w_conn w) = None"
  shows "sent_header k (writer_of (router_chain pf cfg mux r w e)) = v"
proof -
  note other = fixed_elsewhere [OF assms(1)]
  have kept: "list_all (keeps_header k v) (header_sets hs)" if "set hs \<subseteq> set (cors_headers origin @ preflight_headers)" for hs origin
    using other(1) [of origin] image_mono [OF image_mono [OF that], of canonical_key fst]
    by (intro header_sets_keep) blast
  have "runs_within (\<lambda>out. list_all (keeps_header k v)) (CORSMiddleware (rc_origins cfg) mux)"
    by (rule cors_runs [OF assms(2)]) (auto intro!: kept)
  then have "runs_within (\<lambda>out. sends_header k v) (StandardHeadersMiddleware (pf_runtime pf) (CORSMiddleware (rc_origins cfg) mux))"
    by (rule standard_headers_runs) (rule header_sets_send [OF fixed_standard [OF assms(1)] standard_keys_distinct])
  then have "runs_within (\<lambda>out. sends_header k v)
      (RecoveryMiddleware (pf_runtime pf) (pf_stack pf) (router_logger cfg) (header_layers pf cfg mux))"
    unfolding header_layers_def
    by (intro recovery_runs [where P = "\<lambda>out. sends_header k v"] request_context_runs)
      (auto intro!: sends_header_more simp: error_acts_def other(2) [symmetric])
  then have "runs_within (\<lambda>out. sends_header k v) (router_chain pf cfg mux)"
    unfolding router_chain_layers header_layers_def
    by (intro active_requests_runs request_duration_runs request_logging_runs)
  then obtain acts where "sends_header k v acts" "writer_of (router_chain pf cfg mux r w e) = w_run acts w"
    by (rule runs_withinE)
  with sends_headerD [OF _ assms(3,4)] show ?thesis by simp
qed

theorem standard_headers_are_sent_witness:
  "sent_header ''X-Frame-Options'' (writer_of (router_chain plain_platform logged_config crash (request_with '''') fresh new_sim)) = ''DENY''"
proof -
  have "runs_within (\<lambda>out. list_all (keeps_header ''X-Frame-Options'' ''DENY'')) crash"
    by (rule runs_withinI, rule runsI [of _ _ "[]"]) (simp_all add: crash_def)
  then show ?thesis
    using standard_headers_are_sent [of "''X-Frame-Options''" "''DENY''" crash fresh plain_platform logged_config
        "request_with ''''" new_sim] fresh_fresh
    by (simp add: fixed_headers_def fresh_writer_def)
qed

subsection \<open>A route whose handler always panics\<close>

text \<open>Below the recovery layer a request goes on with its method, path and body, on a writer that has got headers.\<close>

lemma header_layers_call:
  assumes "rq_method r \<noteq> ''OPTIONS''"
  obtains r1 hs e1 where "rq_method r1 = rq_method r" "rq_path r1 = rq_path r" "rq_body r1 = rq_body r"
    "header_layers pf cfg mux r w e = mux r1 (w_run (header_sets hs) w) e1"
proof -
  let ?rt = "pf_runtime pf"
  let ?r0 = "set_request_header ''X-Request-Start'' (format_nano (fst (rt_now ?rt e))) r"
  let ?id = "request_id_for ?rt ?r0 (snd (rt_now ?rt e))"
  let ?r1 = "set_request_header ''X-Request-Id'' (fst ?id) ?r0"
  let ?o = "header_get ''Origin'' (rq_header ?r1)"
  let ?hs = "standard_headers (fst ?id) (format_seconds (fst (rt_now ?rt (snd ?id)))) @
    (if origin_allowed (rc_origins cfg) ?o \<and> ?o \<noteq> '''' then cors_headers ?o else [])"
  have "set_all (hs @ hs') v = set_all hs' (set_all hs v)" for hs hs' v by (simp add: set_all_def)
  then have "header_layers pf cfg mux r w e = mux ?r1 (set_all ?hs w) (snd (rt_now ?rt (snd ?id)))"
    using assms
    by (simp add: header_layers_def RequestContextMiddleware_def StandardHeadersMiddleware_def CORSMiddleware_def
        split_beta Let_def set_request_header_def set_all_def)
  then show thesis
    by (intro that [of ?r1 ?hs]) (simp_all add: set_request_header_def set_all_run)
qed

text \<open>The client of a handler that panics before it has written anything is sent a 500.\<close>

lemma router_answers_panics:
  assumes "rq_method r \<noteq> ''OPTIONS''" "coherent w" "c_status (w_conn w) = None"
    and panics: "\<And>r1 w1 e1. rq_method r1 = rq_method r \<Longrightarrow> rq_path r1 = rq_path r \<Longrightarrow> rq_body r1 = rq_body r \<Longrightarrow>
      \<exists>v r2 e2. mux r1 w1 e1 = (Panicked v, r2, w1, e2)"
  shows "\<exists>r' w' e'. router_chain pf cfg mux r w e = (Returned, r', w', e') \<and> response_status w' = Some 500"
proof -
  let ?rec = "RecoveryMiddleware (pf_runtime pf) (pf_stack pf) (router_logger cfg) (header_layers pf cfg mux)"
  let ?P = "\<lambda>out acts. out = Returned \<and> wire_code acts = 500"
  let ?outer = "\<lambda>next. ActiveRequestsMiddleware (pf_runtime pf) (pf_gauge_ok pf)
    (RequestDurationMiddleware (pf_runtime pf) (pf_histogram_ok pf)
      (RequestLoggingMiddleware (pf_runtime pf) (router_logger cfg) next))"
  have inner: "runs_within ?P (\<lambda>r0. ?rec r)"
  proof (rule runs_withinI)
    fix r0 :: http_request and w e
    obtain r1 hs e1 where 1: "rq_method r1 = rq_method r" "rq_path r1 = rq_path r" "rq_body r1 = rq_body r"
      "header_layers pf cfg mux r w e = mux r1 (w_run (header_sets hs) w) e1"
      by (rule header_layers_call [OF assms(1)])
    obtain v r2 e2 where 2: "mux r1 (w_run (header_sets hs) w) e1 = (Panicked v, r2, w_run (header_sets hs) w, e2)"
      using panics [OF 1(1-3)] by blast
    have "only_headers (header_sets hs)" using only_headers_sets [of hs "[]"] by (simp add: only_headers_def)
    then have "wire_code (header_sets hs @ error_acts 500 (recovered r2)) = 500"
      by (simp add: wire_code_headers error_acts_def)
    moreover have "writer_of (?rec r w e) = w_run (header_sets hs @ error_acts 500 (recovered r2)) w"
      unfolding recovery_writer 1(4) 2 by simp
    ultimately show "runs ?P w (?rec r w e)"
      by (intro runsI [of _ _ "header_sets hs @ error_acts 500 (recovered r2)"]) simp_all
  qed
  have same: "?outer ?rec r w e = ?outer (\<lambda>r0. ?rec r) r w e"
    by (simp add: ActiveRequestsMiddleware_def RequestDurationMiddleware_def RequestLoggingMiddleware_def)
  have chain: "router_chain pf cfg mux r w e = ?outer (\<lambda>r0. ?rec r) r w e"
    unfolding same [symmetric] by (simp add: router_chain_layers header_layers_def)
  obtain acts where acts: "?P (out_of (router_chain pf cfg mux r w e)) acts"
    "writer_of (router_chain pf cfg mux r w e) = w_run acts w"
    unfolding chain
    by (rule runs_withinE [OF active_requests_runs [OF request_duration_runs [OF request_logging_runs [OF inner]]]])
  obtain out r' w' e' where res: "router_chain pf cfg mux r w e = (out, r', w', e')" by (metis surj_pair)
  have "response_status (w_run acts w) = Some (wire_code acts)"
    unfolding response_status_def by (rule sent_code [OF assms(2,3)])
  with acts show ?thesis unfolding res by simp
qed

end
