(* ===== verification/Router_Idempotency.thy ===== *)
theory Router_Idempotency
  imports Routing_Properties Idempotency_Properties
begin

text \<open>
  The idempotency of provisioning requests seen from outside: the middleware of one route under
  the mux and the chain of layers. The layers hand a request on with its key and body and a
  fresh writer, and give back what was answered.
\<close>

subsection \<open>The idempotency layer and the writer\<close>

lemma set_headers_run: "set_headers hs w = w_run (header_sets hs) w"
  unfolding set_headers_def header_sets_def by (induction hs arbitrary: w) auto

definition replay_acts :: "idempotency_record option \<Rightarrow> string \<Rightarrow> string \<Rightarrow> w_action list" where
  "replay_acts existing h rid =
     (case existing of
        None \<Rightarrow> error_acts 500 (simple_error ErrCodeInternalError
          ''Idempotency record missing after reservation conflict'' rid)
      | Some rec \<Rightarrow>
          if ir_hash rec \<noteq> h then error_acts 422 (simple_error ErrCodeIdempotencyKeyMismatch
            ''Idempotency key was reused with a different request body'' rid)
          else if ir_state rec = IdempotencyStateInFlight then
            SetHeader ''Retry-After'' ''1'' # error_acts 409 (simple_error ErrCodeIdempotencyInProgress
              ''A request with this idempotency key is still being processed'' rid)
          else header_sets (ir_headers rec) @ [SetHeader idempotencyReplayHeader ''true'',
             WriteHeader (if ir_status rec = 0 then 200 else ir_status rec)] @
             (if ir_body rec \<noteq> '''' then [WriteBody (ir_body rec)] else []))"

lemma replay_run: "replayCachedResponse w existing h rid = w_run (replay_acts existing h rid) w"
  by (cases existing) (simp_all add: replayCachedResponse_def replay_acts_def Let_def set_headers_run error_run)

lemma settle_writer:
  assumes "writer_of call = w_run acts (newResponseRecorder w)"
  shows "\<exists>acts'. writer_of (settle st ttl key call) = w_run acts' w"
proof -
  have inner: "\<exists>acts'. w_inner (w_run as (ResponseRecorder w 200 '''' False)) = w_run acts' w" for as
    using response_recorder_run [of as w 200 "''''" False] by auto
  have "w_run (as @ [SetHeader k v]) u = w_set_header k v (w_run as u)" for as k v u by simp
  then show ?thesis
    using inner [of acts] inner [of "acts @ [SetHeader idempotencyCacheHeader ''store-failed'']"] assms
    by (auto simp: settle_def newResponseRecorder_def split: prod.split outcome.split sum.split)
qed

lemma idempotency_interface:
  assumes "interface_handler next"
  shows "interface_handler (IdempotencyMiddleware uuid_ok sha256 st ttl next)"
  unfolding interface_handler_def
proof (intro allI)
  fix r :: http_request and w e
  have rec: "\<exists>acts. writer_of (run_recorded st ttl next key r' w e') = w_run acts w" for key r' e'
    using interface_handlerD [OF assms, of r' "newResponseRecorder w" e'] settle_writer
    unfolding run_recorded_def by blast
  have err: "\<exists>acts. RespondWithError w code er = w_run acts w" for code er
    by (rule exI, rule error_run)
  have replay: "\<exists>acts. replayCachedResponse w existing h rid = w_run acts w" for existing h rid
    by (rule exI, rule replay_run)
  note pass = interface_handlerD [OF assms, of r w e]
  let ?key = "header_get HeaderIdempotencyKey (rq_header r)"
  show "\<exists>acts. writer_of (IdempotencyMiddleware uuid_ok sha256 st ttl next r w e) = w_run acts w"
  proof (cases "?key = '''' \<or> \<not> uuid_ok ?key")
    case True
    with pass err show ?thesis by (auto simp: IdempotencyMiddleware_def Let_def)
  next
    case key: False
    show ?thesis
    proof (cases "rq_body r")
      case (BrokenBody er)
      with key err show ?thesis by (simp add: IdempotencyMiddleware_def Let_def)
    next
      case (Body b)
      with key err replay rec show ?thesis
        by (simp add: IdempotencyMiddleware_def Let_def split: prod.split sum.split)
    qed
  qed
qed

subsection \<open>The layers as a call\<close>

text \<open>The clock, the UUIDs, the instruments and the log leave the records of the store alone.\<close>

definition runtime_keeps ::
    "('e \<Rightarrow> bool) \<Rightarrow> ('e \<Rightarrow> string \<Rightarrow> idempotency_record option) \<Rightarrow> 'e runtime \<Rightarrow> bool" where
  "runtime_keeps good recs rt \<longleftrightarrow>
     (\<forall>e. good e \<longrightarrow>
        (good (snd (rt_now rt e)) \<and> recs (snd (rt_now rt e)) = recs e) \<and>
        (good (snd (rt_uuid rt e)) \<and> recs (snd (rt_uuid rt e)) = recs e) \<and>
        (\<forall>n i a. good (rt_add rt n i a e) \<and> recs (rt_add rt n i a e) = recs e) \<and>
        (\<forall>n d a. good (rt_record rt n d a e) \<and> recs (rt_record rt n d a e) = recs e) \<and>
        (\<forall>lv m a. good (rt_emit rt lv m a e) \<and> recs (rt_emit rt lv m a e) = recs e))"

text \<open>The same of a whole step of the world.\<close>

definition same_records ::
    "('e \<Rightarrow> bool) \<Rightarrow> ('e \<Rightarrow> string \<Rightarrow> idempotency_record option) \<Rightarrow> 'e \<Rightarrow> 'e \<Rightarrow> bool" where
  "same_records good recs e e' \<longleftrightarrow> (good e \<longrightarrow> good e' \<and> recs e' = recs e)"

lemma same_records_refl [simp]: "same_records good recs e e"
  by (simp add: same_records_def)

lemma same_records_trans:
  "same_records good recs e e1 \<Longrightarrow> same_records good recs e1 e2 \<Longrightarrow> same_records good recs e e2"
  by (simp add: same_records_def)

lemma runtime_steps:
  assumes "runtime_keeps good recs rt"
  shows "same_records good recs e (snd (rt_now rt e))" "same_records good recs e (snd (rt_uuid rt e))"
    "same_records good recs e (rt_add rt n i a e)" "same_records good recs e (rt_record rt n d a e)"
    "same_records good recs e (log_at rt lv lg msg fs e)"
    "same_records good recs e (snd (request_id_for rt r e))"
  using assms
  by (auto simp: runtime_keeps_def same_records_def log_at_def request_id_for_def Let_def split: logger.split)

lemma fresh_set_header: "fresh_writer w \<Longrightarrow> fresh_writer (w_set_header k v w)"
  using canonical_run [of w "[SetHeader k v]"] by (simp add: fresh_writer_def)

lemma fresh_set_all: "fresh_writer w \<Longrightarrow> fresh_writer (set_all hs w)"
  unfolding set_all_def by (induction hs arbitrary: w) (auto simp: fresh_set_header)

lemma fresh_status_recorder: "fresh_writer w \<Longrightarrow> fresh_writer (newStatusRecorder w)"
  by (simp add: fresh_writer_def newStatusRecorder_def w_header_def)

definition passed_on :: "http_request \<Rightarrow> http_request \<Rightarrow> bool" where
  "passed_on r r1 \<longleftrightarrow> rq_method r1 = rq_method r \<and> rq_path r1 = rq_path r \<and> rq_body r1 = rq_body r \<and>
     header_get HeaderIdempotencyKey (rq_header r1) = header_get HeaderIdempotencyKey (rq_header r)"

lemma passed_on_refl [simp]: "passed_on r r"
  by (simp add: passed_on_def)

lemma passed_on_trans: "passed_on r r1 \<Longrightarrow> passed_on r1 r2 \<Longrightarrow> passed_on r r2"
  by (simp add: passed_on_def)

lemma passed_on_set:
  "canonical_key k \<noteq> canonical_key HeaderIdempotencyKey \<Longrightarrow> passed_on r (set_request_header k v r)"
  by (simp add: passed_on_def set_request_header_def header_get_set_other)

text \<open>
  A layer hands the request on, with a fresh writer and the same records, and answers what the
  inner handler answers, if that returns.
\<close>

definition answers :: "('e \<Rightarrow> bool) \<Rightarrow> ('e \<Rightarrow> string \<Rightarrow> idempotency_record option) \<Rightarrow>
    outcome \<times> http_request \<times> writer \<times> 'e \<Rightarrow> outcome \<times> http_request \<times> writer \<times> 'e \<Rightarrow> bool" where
  "answers good recs inner outer \<longleftrightarrow>
     (out_of inner = Returned \<longrightarrow> out_of outer = Returned \<and>
        same_records good recs (world_of inner) (world_of outer) \<and>
        w_conn (writer_of outer) = w_conn (writer_of inner))"

lemma answers_trans: "answers good recs x y \<Longrightarrow> answers good recs y z \<Longrightarrow> answers good recs x z"
  by (auto simp: answers_def intro: same_records_trans)

lemma answers_refl [simp]: "answers good recs x x"
  by (simp add: answers_def)

definition wraps :: "('e \<Rightarrow> bool) \<Rightarrow> ('e \<Rightarrow> string \<Rightarrow> idempotency_record option) \<Rightarrow> 'e middleware \<Rightarrow> bool" where
  "wraps good recs M \<longleftrightarrow>
     (\<forall>next. interface_handler next \<longrightarrow> interface_handler (M next)) \<and>
     (\<forall>r w e. rq_method r \<noteq> ''OPTIONS'' \<and> fresh_writer w \<longrightarrow>
       (\<exists>r1 w1 e1. passed_on r r1 \<and> fresh_writer w1 \<and> same_records good recs e e1 \<and>
         (\<forall>next. interface_handler next \<longrightarrow> answers good recs (next r1 w1 e1) (M next r w e))))"

lemma wrapsI:
  assumes "\<And>next. interface_handler next \<Longrightarrow> interface_handler (M next)"
    and "\<And>r w e. rq_method r \<noteq> ''OPTIONS'' \<Longrightarrow> fresh_writer w \<Longrightarrow>
       \<exists>r1 w1 e1. passed_on r r1 \<and> fresh_writer w1 \<and> same_records good recs e e1 \<and>
         (\<forall>next. interface_handler next \<longrightarrow> answers good recs (next r1 w1 e1) (M next r w e))"
  shows "wraps good recs M"
  using assms by (simp add: wraps_def)

lemma wraps_comp:
  assumes "wraps good recs M" "wraps good recs N"
  shows "wraps good recs (\<lambda>next. M (N next))"
proof (rule wrapsI)
  show "interface_handler (M (N next))" if "interface_handler next" for "next"
    using that assms by (simp add: wraps_def)
  fix r :: http_request and w and e :: 'a
  assume r: "rq_method r \<noteq> ''OPTIONS''" "fresh_writer w"
  then obtain r1 w1 e1 where 1: "passed_on r r1" "fresh_writer w1" "same_records good recs e e1"
    "\<And>next. interface_handler next \<Longrightarrow> answers good recs (next r1 w1 e1) (M next r w e)"
    using assms(1) unfolding wraps_def by blast
  then have "rq_method r1 \<noteq> ''OPTIONS''" using r(1) by (simp add: passed_on_def)
  with 1(2) obtain r2 w2 e2 where 2: "passed_on r1 r2" "fresh_writer w2" "same_records good recs e1 e2"
    "\<And>next. interface_handler next \<Longrightarrow> answers good recs (next r2 w2 e2) (N next r1 w1 e1)"
    using assms(2) unfolding wraps_def by blast
  have "answers good recs (next r2 w2 e2) (M (N next) r w e)" if "interface_handler next" for "next"
  proof -
    have "interface_handler (N next)" using that assms(2) by (simp add: wraps_def)
    from answers_trans [OF 2(4) [OF that] 1(4) [OF this]] show ?thesis .
  qed
  then show "\<exists>r1 w1 e1. passed_on r r1 \<and> fresh_writer w1 \<and> same_records good recs e e1 \<and>
      (\<forall>next. interface_handler next \<longrightarrow> answers good recs (next r1 w1 e1) (M (N next) r w e))"
    using passed_on_trans [OF 1(1) 2(1)] 2(2) same_records_trans [OF 1(3) 2(3)] by blast
qed

lemma interface_layers:
  assumes "interface_handler next"
  shows "interface_handler (ActiveRequestsMiddleware rt c next)"
    "interface_handler (RequestDurationMiddleware rt c next)"
    "interface_handler (RequestLoggingMiddleware rt lg next)"
    "interface_handler (RecoveryMiddleware rt stack lg next)"
    "interface_handler (RequestContextMiddleware rt next)"
    "interface_handler (StandardHeadersMiddleware rt next)"
    "interface_handler (CORSMiddleware origins next)"
  using assms unfolding interface_runs
  by (intro active_requests_runs request_duration_runs request_logging_runs
      recovery_runs [where P = "\<lambda>out acts. True"] request_context_runs
      standard_headers_runs [where P = "\<lambda>out acts. True"] cors_runs; simp)+


lemma active_requests_wraps:
  assumes "runtime_keeps good recs rt"
  shows "wraps good recs (ActiveRequestsMiddleware rt c)"
proof (rule wrapsI [OF interface_layers(1)], assumption)
  fix r :: http_request and w e
  assume "fresh_writer w"
  note step = runtime_steps [OF assms]
  let ?e1 = "if c \<and> rq_path r \<noteq> metricsPath then rt_add rt active_requests 1 (method_attrs r) e else e"
  have "answers good recs (next r w ?e1) (ActiveRequestsMiddleware rt c next r w e)" for "next"
    by (auto simp: ActiveRequestsMiddleware_def answers_def step split: prod.split)
  then show "\<exists>r1 w1 e1. passed_on r r1 \<and> fresh_writer w1 \<and> same_records good recs e e1 \<and>
      (\<forall>next. interface_handler next \<longrightarrow> answers good recs (next r1 w1 e1) (ActiveRequestsMiddleware rt c next r w e))"
    using \<open>fresh_writer w\<close> step(3) by (intro exI [of _ r] exI [of _ w] exI [of _ ?e1]) simp
qed

lemma recorder_conn:
  assumes "interface_handler next" "next r (newStatusRecorder w) e = (out, r', rec, e')"
  shows "w_conn (w_inner rec) = w_conn rec"
  using interface_handlerD [OF assms(1), of r "newStatusRecorder w" e] assms(2)
  by (auto simp: newStatusRecorder_def status_recorder_code)

lemma request_duration_wraps:
  assumes "runtime_keeps good recs rt"
  shows "wraps good recs (RequestDurationMiddleware rt c)"
proof (rule wrapsI [OF interface_layers(2)], assumption)
  fix r :: http_request and w e
  assume w: "fresh_writer w"
  note step = runtime_steps [OF assms]
  let ?on = "c \<and> rq_path r \<noteq> metricsPath"
  let ?w1 = "if ?on then newStatusRecorder w else w" and ?e1 = "if ?on then snd (rt_now rt e) else e"
  have "answers good recs (next r ?w1 ?e1) (RequestDurationMiddleware rt c next r w e)"
    if i: "interface_handler next" for "next"
  proof (cases ?on)
    case True
    obtain out r' rec e' where n: "next r (newStatusRecorder w) (snd (rt_now rt e)) = (out, r', rec, e')"
      by (cases "next r (newStatusRecorder w) (snd (rt_now rt e))")
    then show ?thesis
      using True recorder_conn [OF i n] same_records_trans [OF step(1) step(4)]
      by (auto simp: RequestDurationMiddleware_def answers_def split_beta Let_def)
  qed (auto simp: RequestDurationMiddleware_def)
  then show "\<exists>r1 w1 e1. passed_on r r1 \<and> fresh_writer w1 \<and> same_records good recs e e1 \<and>
      (\<forall>next. interface_handler next \<longrightarrow> answers good recs (next r1 w1 e1) (RequestDurationMiddleware rt c next r w e))"
    using w fresh_status_recorder step(1) by (intro exI [of _ r] exI [of _ ?w1] exI [of _ ?e1]) simp
qed

lemma request_logging_wraps:
  assumes "runtime_keeps good recs rt"
  shows "wraps good recs (RequestLoggingMiddleware rt lg)"
proof (rule wrapsI [OF interface_layers(3)], assumption)
  fix r :: http_request and w e
  assume w: "fresh_writer w"
  note step = runtime_steps [OF assms]
  let ?on = "\<not> (rq_path r = metricsPath \<or> rq_path r = healthPath)"
  let ?w1 = "if ?on then newStatusRecorder w else w" and ?e1 = "if ?on then snd (rt_now rt e) else e"
  have "answers good recs (next r ?w1 ?e1) (RequestLoggingMiddleware rt lg next r w e)"
    if i: "interface_handler next" for "next"
  proof (cases ?on)
    case True
    obtain out r' rec e' where n: "next r (newStatusRecorder w) (snd (rt_now rt e)) = (out, r', rec, e')"
      by (cases "next r (newStatusRecorder w) (snd (rt_now rt e))")
    then show ?thesis
      using True recorder_conn [OF i n] same_records_trans [OF step(1) step(5)]
      by (auto simp: RequestLoggingMiddleware_def answers_def split_beta Let_def)
  qed (auto simp: RequestLoggingMiddleware_def)
  then show "\<exists>r1 w1 e1. passed_on r r1 \<and> fresh_writer w1 \<and> same_records good recs e e1 \<and>
      (\<forall>next. interface_handler next \<longrightarrow> answers good recs (next r1 w1 e1) (RequestLoggingMiddleware rt lg next r w e))"
    using w fresh_status_recorder step(1) by (intro exI [of _ r] exI [of _ ?w1] exI [of _ ?e1]) simp
qed

lemma recovery_wraps: "wraps good recs (RecoveryMiddleware rt stack lg)"
proof (rule wrapsI [OF interface_layers(4)], assumption)
  fix r :: http_request and w e
  assume w: "fresh_writer w"
  have "answers good recs (next r w e) (RecoveryMiddleware rt stack lg next r w e)" for "next"
    by (auto simp: RecoveryMiddleware_def answers_def split: prod.split outcome.split)
  with w show "\<exists>r1 w1 e1. passed_on r r1 \<and> fresh_writer w1 \<and> same_records good recs e e1 \<and>
      (\<forall>next. interface_handler next \<longrightarrow> answers good recs (next r1 w1 e1) (RecoveryMiddleware rt stack lg next r w e))"
    by (intro exI [of _ r] exI [of _ w] exI [of _ e]) simp
qed

lemma other_keys:
  "canonical_key ''X-Request-Start'' \<noteq> canonical_key HeaderIdempotencyKey"
  "canonical_key ''X-Request-Id'' \<noteq> canonical_key HeaderIdempotencyKey"
  by code_simp+

lemma request_context_wraps:
  assumes "runtime_keeps good recs rt"
  shows "wraps good recs (RequestContextMiddleware rt)"
proof (rule wrapsI [OF interface_layers(5)], assumption)
  fix r :: http_request and w e
  assume w: "fresh_writer w"
  let ?r = "set_request_header ''X-Request-Start'' (format_nano (fst (rt_now rt e))) r"
  show "\<exists>r1 w1 e1. passed_on r r1 \<and> fresh_writer w1 \<and> same_records good recs e e1 \<and>
      (\<forall>next. interface_handler next \<longrightarrow> answers good recs (next r1 w1 e1) (RequestContextMiddleware rt next r w e))"
    using w runtime_steps(1) [OF assms] passed_on_set [OF other_keys(1)]
    by (intro exI [of _ ?r] exI [of _ w] exI [of _ "snd (rt_now rt e)"])
      (simp add: RequestContextMiddleware_def split_beta Let_def)
qed

lemma standard_headers_wraps:
  assumes "runtime_keeps good recs rt"
  shows "wraps good recs (StandardHeadersMiddleware rt)"
proof (rule wrapsI [OF interface_layers(6)], assumption)
  fix r :: http_request and w e
  assume w: "fresh_writer w"
  let ?id = "fst (request_id_for rt r e)" and ?e1 = "snd (request_id_for rt r e)"
  let ?e2 = "snd (rt_now rt ?e1)"
  let ?w = "set_all (standard_headers ?id (format_seconds (fst (rt_now rt ?e1)))) w"
  show "\<exists>r1 w1 e1. passed_on r r1 \<and> fresh_writer w1 \<and> same_records good recs e e1 \<and>
      (\<forall>next. interface_handler next \<longrightarrow> answers good recs (next r1 w1 e1) (StandardHeadersMiddleware rt next r w e))"
    using fresh_set_all [OF w] same_records_trans [OF runtime_steps(6) [OF assms] runtime_steps(1) [OF assms], of e r]
      passed_on_set [OF other_keys(2)]
    by (intro exI [of _ "set_request_header ''X-Request-Id'' ?id r"] exI [of _ ?w] exI [of _ ?e2])
      (simp add: StandardHeadersMiddleware_def split_beta Let_def)
qed

lemma cors_wraps: "wraps good recs (CORSMiddleware origins)"
proof (rule wrapsI [OF interface_layers(7)], assumption)
  fix r :: http_request and w e
  assume r: "rq_method r \<noteq> ''OPTIONS''" and w: "fresh_writer w"
  let ?o = "header_get ''Origin'' (rq_header r)"
  let ?w = "if origin_allowed origins ?o \<and> ?o \<noteq> '''' then set_all (cors_headers ?o) w else w"
  show "\<exists>r1 w1 e1. passed_on r r1 \<and> fresh_writer w1 \<and> same_records good recs e e1 \<and>
      (\<forall>next. interface_handler next \<longrightarrow> answers good recs (next r1 w1 e1) (CORSMiddleware origins next r w e))"
    using w r fresh_set_all [OF w] by (intro exI [of _ r] exI [of _ ?w] exI [of _ e])
      (simp add: CORSMiddleware_def Let_def)
qed

lemma router_chain_wraps:
  assumes "runtime_keeps good recs (pf_runtime pf)"
  shows "wraps good recs (router_chain pf cfg)"
proof -
  let ?rt = "pf_runtime pf" and ?lg = "router_logger cfg"
  note innermost = wraps_comp [OF standard_headers_wraps [OF assms] cors_wraps [of good recs "rc_origins cfg"]]
  note contexted = wraps_comp [OF request_context_wraps [OF assms] innermost]
  note recovered = wraps_comp [OF recovery_wraps [of good recs ?rt "pf_stack pf" ?lg] contexted]
  note logged = wraps_comp [OF request_logging_wraps [OF assms, of ?lg] recovered]
  note counted = wraps_comp [OF request_duration_wraps [OF assms, of "pf_histogram_ok pf"] logged]
  have "router_chain pf cfg = (\<lambda>mux. ActiveRequestsMiddleware ?rt (pf_gauge_ok pf)
      (RequestDurationMiddleware ?rt (pf_histogram_ok pf) (RequestLoggingMiddleware ?rt ?lg
        (RecoveryMiddleware ?rt (pf_stack pf) ?lg (RequestContextMiddleware ?rt
          (StandardHeadersMiddleware ?rt (CORSMiddleware (rc_origins cfg) mux)))))))"
    by (rule ext) (rule router_chain_layers)
  then show ?thesis
    using wraps_comp [OF active_requests_wraps [OF assms, of "pf_gauge_ok pf"] counted] by simp
qed

subsection \<open>The provisioning route\<close>

definition interface_parts :: "'e platform \<Rightarrow> 'e handlers \<Rightarrow> 'e router_config \<Rightarrow> bool" where
  "interface_parts pf hs cfg \<longleftrightarrow>
     (\<forall>p. interface_handler (pf_redirect pf p)) \<and>
     (\<forall>h. rc_metrics cfg = Some h \<longrightarrow> interface_handler h) \<and>
     interface_handler (hd_provision hs) \<and> interface_handler (hd_health hs) \<and>
     interface_handler (hd_sign_up hs) \<and> interface_handler (hd_sign_in hs) \<and>
     interface_handler (hd_confirm hs) \<and> interface_handler (hd_swagger hs)"

lemma route_interface:
  assumes "interface_parts pf hs cfg" "t \<in> set (api_routes pf hs cfg)"
  shows "interface_handler (mr_handler t)"
proof -
  have "interface_handler (provision_route pf hs cfg)"
    using assms(1) idempotency_interface by (auto simp: provision_route_def interface_parts_def split: option.split)
  with assms show ?thesis
    by (auto simp: api_routes_def mk_route_def interface_parts_def split: option.splits)
qed

lemma mux_interface:
  assumes "interface_parts pf hs cfg"
  shows "interface_handler (serve_mux (pf_redirect pf) (api_routes pf hs cfg))"
  unfolding interface_handler_def
proof (intro allI)
  fix r :: http_request and w e
  let ?ts = "api_routes pf hs cfg"
  let ?found = "find (route_matches (rq_method r) (mux_path r)) ?ts"
  have redirect: "\<exists>acts. writer_of (pf_redirect pf p r' w e) = w_run acts w" for p r'
    using assms interface_handlerD [of "pf_redirect pf p" r' w e] by (simp add: interface_parts_def)
  have nf: "\<exists>acts. writer_of (not_found_handler r' w e) = w_run acts w"
    "\<exists>acts. writer_of (not_allowed_handler ms r' w e) = w_run acts w" for r' ms
    using http_error_run [of "''404 page not found''" 404 w]
      w_run_simps(2) [of "SetHeader ''Allow'' (join_comma ms)" _ w, symmetric]
    by (auto simp: not_found_handler_def not_allowed_handler_def http_error_run simp del: w_run_simps)
  show "\<exists>acts. writer_of (serve_mux (pf_redirect pf) ?ts r w e) = w_run acts w"
  proof (cases "mux_path r = rq_path r")
    case False
    with redirect show ?thesis by (simp add: serve_mux_def Let_def)
  next
    case clean: True
    show ?thesis
    proof (cases ?found)
      case None
      with clean nf show ?thesis by (simp add: serve_mux_def Let_def)
    next
      case (Some t)
      then have "t \<in> set ?ts" by (auto simp: find_Some_iff)
      from interface_handlerD [OF route_interface [OF assms this]] Some clean show ?thesis
        by (simp add: serve_mux_def Let_def)
    qed
  qed
qed

lemma middleware_returns:
  assumes "\<And>r w e. out_of (next r w e) = Returned"
  shows "out_of (IdempotencyMiddleware uuid_ok sha256 st ttl next r w e) = Returned"
proof -
  have run: "out_of (run_recorded st ttl next key r' w e') = Returned" for key r' e'
    using assms [of r' "newResponseRecorder w" e']
    by (cases "next r' (newResponseRecorder w) e'")
      (simp add: run_recorded_def settle_def split: prod.split sum.split)
  with assms [of r w e] show ?thesis
    by (auto simp: IdempotencyMiddleware_def Let_def split: body.split prod.split sum.split)
qed

definition provision_request :: "(string \<Rightarrow> bool) \<Rightarrow> http_request \<Rightarrow> string \<Rightarrow> string \<Rightarrow> bool" where
  "provision_request uuid_ok r key body \<longleftrightarrow>
     keyed uuid_ok r key body \<and> rq_method r = ''POST'' \<and> rq_path r = ''/v1/provision''"

definition routed :: "http_request \<Rightarrow> http_request" where
  "routed r = r\<lparr>rq_pattern := ''POST /v1/provision''\<rparr>"

lemma provision_mux:
  assumes "provision_request uuid_ok r key body" "passed_on r r1" "rc_store cfg = Some st"
  shows "keyed uuid_ok (routed r1) key body"
    "serve_mux (pf_redirect pf) (api_routes pf hs cfg) r1 w e =
       IdempotencyMiddleware (pf_uuid_ok pf) (pf_sha256 pf) st (router_ttl cfg) (hd_provision hs) (routed r1) w e"
proof -
  let ?t = "mk_route ''POST'' ''/v1/provision'' (provision_route pf hs cfg)"
  have r1: "rq_method r1 = ''POST''" "rq_path r1 = ''/v1/provision''"
    using assms(1,2) by (simp_all add: provision_request_def passed_on_def)
  have "?t \<in> set (api_routes pf hs cfg)" by (simp add: api_routes_def APIVersionPrefix_def)
  moreover have "route_matches (rq_method r1) (rq_path r1) ?t"
    by (simp add: r1 route_matches_def method_matches_def path_matches_def mk_route_def suffix_def)
  moreover have "clean_path ''/v1/provision'' = ''/v1/provision''" by code_simp
  then have "mux_path r1 = rq_path r1" by (simp add: mux_path_def r1)
  ultimately have "serve_mux (pf_redirect pf) (api_routes pf hs cfg) r1 w e =
      mr_handler ?t (r1\<lparr>rq_pattern := pattern_of ?t\<rparr>) w e" by (rule mux_serves)
  then show "serve_mux (pf_redirect pf) (api_routes pf hs cfg) r1 w e =
       IdempotencyMiddleware (pf_uuid_ok pf) (pf_sha256 pf) st (router_ttl cfg) (hd_provision hs) (routed r1) w e"
    using assms(3) by (simp add: mk_route_def provision_route_def pattern_of_def routed_def)
  show "keyed uuid_ok (routed r1) key body"
    using assms(1,2) by (simp add: provision_request_def passed_on_def keyed_def routed_def)
qed

text \<open>The first request leaves the store well-formed.\<close>

context idempotency_store
begin

lemma first_keeps:
  assumes "inv e" "view e key = None" "keyed uuid_ok r key body" "keeps_records inv view next"
    and "storable_handler storable next r w"
    and "IdempotencyMiddleware uuid_ok sha256 st ttl next r w e = (out, r', w', e')"
  shows "inv e'"
proof (rule first_request [OF assms(1,3,2), of sha256 ttl "next" w])
  fix e1 assume "IdempotencyMiddleware uuid_ok sha256 st ttl next r w e = (Returned, r, store_unavailable w r, e1)" "inv e1"
  with assms(6) show ?thesis by simp
next
  fix rec0 e1
  assume e1: "inv e1" "reserved_by key (request_hash sha256 body) rec0" "view e1 = (view e)(key \<mapsto> rec0)"
    and m: "IdempotencyMiddleware uuid_ok sha256 st ttl next r w e = run_recorded st ttl next key r w e1"
  obtain o1 r1 wr e2 where call: "handler_call next r w e1 = (o1, r1, wr, e2)"
    by (cases "handler_call next r w e1")
  note sh = storable_handlerD [OF assms(5) call]
  have v: "view e1 key = Some rec0" "in_flight rec0" using e1 by (auto simp: reserved_by_def)
  from m assms(6) have "run_recorded st ttl next key r w e1 = (out, r', w', e')" by simp
  from run_recorded_outcomes(3) [OF e1(1) v assms(4) call _ _ this] sh show ?thesis by blast
qed

end

lemma router_call:
  assumes "runtime_keeps good recs (pf_runtime pf)" "rc_store cfg = Some st" "fresh_writer w"
    and "provision_request uuid_ok r key body"
  obtains r1 w1 e1 where "keyed uuid_ok r1 key body" "fresh_writer w1" "same_records good recs e e1"
    "\<forall>hs. interface_parts pf hs cfg \<longrightarrow> answers good recs
       (IdempotencyMiddleware (pf_uuid_ok pf) (pf_sha256 pf) st (router_ttl cfg) (hd_provision hs) r1 w1 e1)
       (NewRouterWithConfig pf hs cfg r w e)"
proof -
  have "rq_method r \<noteq> ''OPTIONS''" using assms(4) by (simp add: provision_request_def)
  then obtain r1 w1 e1 where c: "passed_on r r1" "fresh_writer w1" "same_records good recs e e1"
    "\<And>next. interface_handler next \<Longrightarrow> answers good recs (next r1 w1 e1) (router_chain pf cfg next r w e)"
    using router_chain_wraps [OF assms(1), of cfg] assms(3) unfolding wraps_def by blast
  note mux = provision_mux [OF assms(4) c(1) assms(2)]
  have "answers good recs
       (IdempotencyMiddleware (pf_uuid_ok pf) (pf_sha256 pf) st (router_ttl cfg) (hd_provision hs) (routed r1) w1 e1)
       (NewRouterWithConfig pf hs cfg r w e)" if "interface_parts pf hs cfg" for hs
    using c(4) [OF mux_interface [OF that]] unfolding mux(2) NewRouterWithConfig_def .
  with mux(1) c(2,3) that show thesis by blast
qed

text \<open>C27: A provisioning request repeated with its key through the whole router, with its layers and
  whatever handlers now stand behind it, runs no handler and changes no record: the client gets the
  status and the text the first one got, marked as a replay. The one exception is a store whose
  \<open>Reserve\<close> of this key and body fails although its records are as they were: then it is 500.\<close>

theorem provision_retry_through_the_router:
  assumes "idempotency_store st recs good storable" "rc_store cfg = Some st"
    and "runtime_keeps good recs (pf_runtime pf)" "interface_parts pf hs cfg" "interface_parts pf hs2 cfg"
    and "keeps_records good recs (hd_provision hs)" "\<forall>r w e. out_of (hd_provision hs r w e) = Returned"
    and "\<forall>r w. fresh_writer w \<longrightarrow> storable_handler storable (hd_provision hs) r w"
    and "good e" "recs e key = None" "provision_request (pf_uuid_ok pf) r key body" "fresh_writer w"
    and "NewRouterWithConfig pf hs cfg r w e = (out, r', w', e')" "recs e' key = Some rec" "completed rec"
    and "good e2" "recs e2 key = recs e' key" "provision_request (pf_uuid_ok pf) r2 key body" "fresh_writer w2"
    and "NewRouterWithConfig pf hs2 cfg r2 w2 e2 = (out2, r2', w2', e2')"
  shows "out2 = Returned \<and> recs e2' = recs e2 \<and>
    (response_status w2' = response_status w' \<and> response_body w2' = response_body w' \<and>
       response_header idempotencyReplayHeader w2' = ''true'' \<or>
     response_status w2' = Some 500 \<and> (\<exists>e3 err. good e3 \<and> recs e3 = recs e2 \<and>
       fst (st_reserve st key (request_hash (pf_sha256 pf) body) (router_ttl cfg) e3) = Inl err))"
proof -
  let ?im = "\<lambda>hs. IdempotencyMiddleware (pf_uuid_ok pf) (pf_sha256 pf) st (router_ttl cfg) (hd_provision hs)"
  obtain r1 w1 e1 where 1: "keyed (pf_uuid_ok pf) r1 key body" "fresh_writer w1" "same_records good recs e e1"
    "\<forall>hs. interface_parts pf hs cfg \<longrightarrow> answers good recs (?im hs r1 w1 e1) (NewRouterWithConfig pf hs cfg r w e)"
    by (rule router_call [OF assms(3,2,12,11), where e = e])
  obtain r3 w3 e3 where 3: "keyed (pf_uuid_ok pf) r3 key body" "fresh_writer w3" "same_records good recs e2 e3"
    "\<forall>hs. interface_parts pf hs cfg \<longrightarrow> answers good recs (?im hs r3 w3 e3) (NewRouterWithConfig pf hs cfg r2 w2 e2)"
    by (rule router_call [OF assms(3,2,19,18), where e = e2])
  obtain o1 q1 v1 d1 where x: "?im hs r1 w1 e1 = (o1, q1, v1, d1)" by (cases "?im hs r1 w1 e1")
  obtain o3 q3 v3 d3 where y: "?im hs2 r3 w3 e3 = (o3, q3, v3, d3)" by (cases "?im hs2 r3 w3 e3")
  have e1: "good e1" "recs e1 key = None" using 1(3) assms(9,10) by (simp_all add: same_records_def)
  have prov: "interface_handler (hd_provision hs)" "storable_handler storable (hd_provision hs) r1 w1"
    using assms(4,8) 1(2) by (simp_all add: interface_parts_def)
  have "out_of (?im hs r1 w1 e1) = Returned"
    by (rule middleware_returns) (simp add: assms(7))
  with 1(4) [rule_format, OF assms(4)] x assms(13) have a1: "same_records good recs d1 e'" "w_conn w' = w_conn v1"
    by (auto simp: answers_def)
  have d1: "good d1" 
    by (rule idempotency_store.first_keeps [OF assms(1) e1 1(1) assms(6) prov(2) x])
  with a1(1) have rec: "recs d1 key = Some rec" "recs e' = recs d1"
    using assms(14) by (simp_all add: same_records_def)
  have e3: "good e3" "recs e3 key = recs d1 key" "recs e3 = recs e2"
    using 3(3) assms(16,17) rec by (simp_all add: same_records_def)
  note again = idempotency_store.retry_response [OF assms(1) e1 1(1,2) prov(1) assms(6) prov(2) x rec(1)
      assms(15) e3(1,2) 3(1,2) y]
  with 3(4) [rule_format, OF assms(5)] y assms(20) have "out2 = Returned" "same_records good recs d3 e2'" "w_conn w2' = w_conn v3"
    by (auto simp: answers_def)
  moreover from this(2) again(2,3) e3(3) have "recs e2' = recs e2" by (simp add: same_records_def)
  moreover have "response_status (store_unavailable w3 r3) = Some 500"
    using fresh_error(1) [OF 3(2), of 500] by (simp add: store_unavailable_def)
  ultimately show ?thesis
    using again(4) a1(2) e3(1,3)
    by (cases "fst (st_reserve st key (request_hash (pf_sha256 pf) body) (router_ttl cfg) e3)")
      (auto simp: response_status_def response_body_def response_header_def)
qed

subsection \<open>An instance: the map store under the router\<close>

definition accept_handlers :: "'e handlers" where
  "accept_handlers = \<lparr>hd_provision = accept_handler, hd_health = HealthCheck, hd_sign_up = accept_handler,
     hd_sign_in = accept_handler, hd_confirm = accept_handler, hd_swagger = accept_handler\<rparr>"

text \<open>Handlers of which none returns, to be put behind the router for the retry.\<close>

definition crashing_handlers :: "'e handlers" where
  "crashing_handlers = \<lparr>hd_provision = panic_handler, hd_health = HealthCheck, hd_sign_up = panic_handler,
     hd_sign_in = panic_handler, hd_confirm = panic_handler, hd_swagger = panic_handler\<rparr>"

definition world_platform :: "idem_world platform" where
  "world_platform = \<lparr>pf_runtime = sim_runtime, pf_uuid_ok = (\<lambda>k. True), pf_sha256 = id, pf_stack = '''',
     pf_redirect = (\<lambda>p. accept_handler), pf_gauge_ok = True, pf_histogram_ok = True\<rparr>"

definition world_config :: "idem_world router_config" where
  "world_config = DefaultRouterConfig\<lparr>rc_store := Some map_store\<rparr>"

lemma world_parts:
  "interface_parts world_platform accept_handlers world_config" "interface_parts world_platform crashing_handlers world_config"
proof -
  have "interface_handler HealthCheck"
    unfolding interface_handler_def HealthCheck_def fst_conv snd_conv
    by (intro allI exI [of _ "[WriteHeader 200, WriteBody ''OK'']"]) simp
  moreover have "interface_handler panic_handler"
    unfolding interface_handler_def panic_handler_def fst_conv snd_conv by (intro allI exI [of _ "[]"]) simp
  ultimately show "interface_parts world_platform accept_handlers world_config"
    "interface_parts world_platform crashing_handlers world_config"
    by (simp_all add: interface_parts_def world_platform_def world_config_def accept_handlers_def crashing_handlers_def
        DefaultRouterConfig_def accept_interface)
qed

lemma world_keeps: "runtime_keeps (\<lambda>s. True) map_view (pf_runtime world_platform)"
  by (simp add: runtime_keeps_def world_platform_def sim_runtime_def map_view_def)

lemma accept_storable_fresh:
  fixes r :: http_request
  assumes "fresh_writer w"
  shows "storable_handler distinct_headers (accept_handler :: 'e handler) r w"
proof -
  let ?acts = "[SetHeader ''Content-Type'' ''application/json'', WriteHeader 202, WriteBody (encode_line (JStr ''ok''))]"
  let ?wr = "w_run ?acts (newResponseRecorder w)"
  have "handler_call accept_handler r w e = (Returned, r, ?wr, e)" for e :: 'e
    unfolding handler_call_def accept_handler_def send_json_run ..
  moreover have "canonical_header (w_header ?wr)"
    using canonical_run [of "newResponseRecorder w" ?acts] assms
    by (simp add: fresh_writer_def newResponseRecorder_def w_header_def)
  then have "distinct_headers (capturedHeaders ?wr)"
    unfolding distinct_headers_def by (rule captured_keys(1))
  moreover have "rec_status ?wr = 202" by (simp add: newResponseRecorder_def)
  ultimately show ?thesis
    by (simp add: storable_handler_def storable_response_def del: w_run_simps)
qed

lemma accept_completes:
  assumes "keyed uuid_ok r key body" "map_view e key = None"
  shows "\<exists>v d rec. IdempotencyMiddleware uuid_ok sha256 map_store ttl accept_handler r w e = (Returned, r, v, d) \<and>
    map_view d key = Some rec \<and> completed rec \<and> (fresh_writer w \<longrightarrow> response_status v = Some 202)"
proof -
  have sent: "response_status (w_inner (w_run [SetHeader ''Content-Type'' ''application/json'', WriteHeader 202,
      WriteBody (encode_line (JStr ''ok''))] (newResponseRecorder w))) = Some 202" if "fresh_writer w"
  proof -
    have "recorded '''' (w_run [SetHeader ''Content-Type'' ''application/json'', WriteHeader 202,
        WriteBody (encode_line (JStr ''ok''))] (newResponseRecorder w))"
      using that recorded_new [of w] by (intro recorded_run) (auto simp: fresh_writer_def)
    from response_inner(1) [OF this] show ?thesis by (simp add: newResponseRecorder_def)
  qed
  have wr: "rec_status (w_run [SetHeader ''Content-Type'' ''application/json'', WriteHeader 202,
      WriteBody (encode_line (JStr ''ok''))] (newResponseRecorder w)) = 202"
    by (simp add: newResponseRecorder_def)
  show ?thesis
    unfolding middleware_keyed [OF assms(1)]
    using assms(2) wr sent
    by (simp add: map_store_def map_reserve_def map_view_def Let_def run_recorded_def accept_handler_def
        send_json_run settle_def shouldCacheResponse_def map_complete_def del: w_run_simps)
qed

lemma keyed_provision: "provision_request (pf_uuid_ok world_platform) keyed_request ''k1'' ''{}''"
  using keyed_request_keyed by (simp add: provision_request_def world_platform_def keyed_request_def)

lemma first_through_router:
  "\<exists>r' w' e' rec. NewRouterWithConfig world_platform accept_handlers world_config keyed_request new_writer empty_world =
      (Returned, r', w', e') \<and> map_view e' ''k1'' = Some rec \<and> completed rec \<and> response_status w' = Some 202"
proof -
  have st: "rc_store world_config = Some map_store" by (simp add: world_config_def)
  obtain r1 w1 e1 where 1: "keyed (pf_uuid_ok world_platform) r1 ''k1'' ''{}''" "fresh_writer w1"
    "same_records (\<lambda>s. True) map_view empty_world e1"
    "\<forall>hs. interface_parts world_platform hs world_config \<longrightarrow> answers (\<lambda>s. True) map_view
       (IdempotencyMiddleware (pf_uuid_ok world_platform) (pf_sha256 world_platform) map_store
          (router_ttl world_config) (hd_provision hs) r1 w1 e1)
       (NewRouterWithConfig world_platform hs world_config keyed_request new_writer empty_world)"
    by (rule router_call [OF world_keeps st new_writer_fresh keyed_provision, where e = empty_world])
  have "map_view e1 ''k1'' = None"
    using 1(3) by (simp add: same_records_def map_view_def empty_world_def)
  from accept_completes [OF 1(1) this, of "pf_sha256 world_platform" "router_ttl world_config" w1]
    1(2) 1(4) [rule_format, OF world_parts(1)]
  show ?thesis
    by (cases "NewRouterWithConfig world_platform accept_handlers world_config keyed_request new_writer empty_world")
      (auto simp: answers_def same_records_def accept_handlers_def response_status_def)
qed

theorem provision_retry_through_the_router_witness:
  "\<exists>r' w' e' r2' w2' e2'.
     NewRouterWithConfig world_platform accept_handlers world_config keyed_request new_writer empty_world = (Returned, r', w', e') \<and>
     NewRouterWithConfig world_platform crashing_handlers world_config keyed_request new_writer e' = (Returned, r2', w2', e2') \<and>
     response_status w' = Some 202 \<and> response_status w2' = Some 202 \<and> response_body w2' = response_body w' \<and>
     response_header idempotencyReplayHeader w2' = ''true'' \<and> map_view e2' = map_view e'"
proof -
  obtain r' w' e' rec where 1: "NewRouterWithConfig world_platform accept_handlers world_config keyed_request
      new_writer empty_world = (Returned, r', w', e')" "map_view e' ''k1'' = Some rec" "completed rec" "response_status w' = Some 202"
    using first_through_router by blast
  obtain out2 r2' w2' e2' where 2: "NewRouterWithConfig world_platform crashing_handlers world_config keyed_request
      new_writer e' = (out2, r2', w2', e2')"
    by (cases "NewRouterWithConfig world_platform crashing_handlers world_config keyed_request new_writer e'")
  have h: "rc_store world_config = Some map_store" "map_view empty_world ''k1'' = None"
    "keeps_records (\<lambda>s. True) map_view (hd_provision accept_handlers)"
    "\<forall>r w (e :: idem_world). out_of (hd_provision accept_handlers r w e) = Returned"
    "\<forall>r w. fresh_writer w \<longrightarrow> storable_handler distinct_headers (hd_provision accept_handlers) r w"
    by (simp_all add: world_config_def map_view_def empty_world_def accept_handlers_def accept_keeps
        accept_handler_def accept_storable_fresh)
  have answers: "fst (st_reserve map_store ''k1'' h ttl e3) \<noteq> Inl err" for h ttl err and e3 :: idem_world
    by (simp add: map_store_def map_reserve_def Let_def split: option.split)
  show ?thesis
    using provision_retry_through_the_router [OF map_store.idempotency_store_axioms h(1) world_keeps world_parts(1)
        world_parts(2) h(3-5) TrueI h(2) keyed_provision new_writer_fresh 1(1-3) TrueI refl keyed_provision new_writer_fresh 2]
      1(1,4) 2 answers by auto
qed

end
