(* ===== verification/Provisioner_Logger.thy ===== *)
theory Provisioner_Logger
  imports Api_Logger
begin

text \<open>
  \<open>services/provisioner/internal/logger/logger.go\<close>, the provisioner's copy of the API's logger.
  Its consumers log under the context of the message, so a logger here is a logrus entry with
  its logrus logger, its context and its data. What logrus does with an entry and a level (the
  threshold, the hooks, the formatting) is \<open>lr_write\<close>, an argument.
\<close>

subsection \<open>Entries and loggers\<close>

text \<open>\<open>lg_hooks\<close> names the hooks in the order they were attached.\<close>

record logrus_logger =
  lg_output :: string
  lg_level :: log_level
  lg_hooks :: "string list"
  lg_formatter :: formatter

record 'c logrus_entry =
  le_logger :: logrus_logger
  le_context :: "'c option"
  le_data :: attrs

datatype 'c p_logger = PLogrus "'c logrus_entry" | PNop

type_synonym p_field = "string \<times> attr_value"

type_synonym ('c, 'e) entry_writer = "'c logrus_entry \<Rightarrow> log_level \<Rightarrow> string \<Rightarrow> 'e \<Rightarrow> 'e"

definition pF :: "string \<Rightarrow> attr_value \<Rightarrow> p_field" where
  "pF key v = (key, v)"

subsection \<open>Configuration\<close>

record p_logger_config =
  pl_level :: string
  pl_format :: string
  pl_output :: "string option"
  pl_time_format :: string
  pl_hooks :: "string list"

definition p_default_config :: p_logger_config where
  "p_default_config = \<lparr>pl_level = ''info'', pl_format = ''json'', pl_output = Some ''stdout'',
     pl_time_format = ''2006-01-02T15:04:05.000Z07:00'', pl_hooks = []\<rparr>"

text \<open>\<open>logrus_new\<close> is \<open>logrus.New\<close>, \<open>parse_level\<close> is \<open>logrus.ParseLevel\<close>.\<close>

definition p_new :: "logrus_logger \<Rightarrow> (string \<Rightarrow> log_level option) \<Rightarrow> p_logger_config \<Rightarrow> 'c p_logger" where
  "p_new logrus_new parse_level cfg =
     (let log1 = (case pl_output cfg of Some out \<Rightarrow> logrus_new\<lparr>lg_output := out\<rparr> | None \<Rightarrow> logrus_new);
          level = (case parse_level (pl_level cfg) of Some lv \<Rightarrow> lv | None \<Rightarrow> InfoLevel);
          log2 = log1\<lparr>lg_level := level\<rparr>;
          log3 = fold (\<lambda>h l. l\<lparr>lg_hooks := lg_hooks l @ [h]\<rparr>) (pl_hooks cfg) log2;
          log4 = log3\<lparr>lg_formatter :=
            (if pl_format cfg = ''text'' then TextFormatter (pl_time_format cfg)
             else JSONFormatter (pl_time_format cfg))\<rparr>
      in PLogrus \<lparr>le_logger = log4, le_context = None, le_data = []\<rparr>)"

definition p_new_with_logrus :: "'c logrus_entry \<Rightarrow> 'c p_logger" where
  "p_new_with_logrus entry = PLogrus entry"

subsection \<open>Lines\<close>

definition entry_with_fields :: "attrs \<Rightarrow> 'c logrus_entry \<Rightarrow> 'c logrus_entry" where
  "entry_with_fields fs entry = entry\<lparr>le_data := fold (\<lambda>(k, v) m. put k v m) fs (le_data entry)\<rparr>"

definition p_with_fields :: "p_field list \<Rightarrow> 'c logrus_entry \<Rightarrow> 'c logrus_entry" where
  "p_with_fields fs entry =
     (if length fs = 0 then entry
      else entry_with_fields (fold (\<lambda>(k, v) m. put k v m) fs []) entry)"

definition p_log ::
    "('c, 'e) entry_writer \<Rightarrow> log_level \<Rightarrow> 'c p_logger \<Rightarrow> string \<Rightarrow> p_field list \<Rightarrow> 'e \<Rightarrow> 'e" where
  "p_log lr_write lv lg msg fs e =
     (case lg of PLogrus entry \<Rightarrow> lr_write (p_with_fields fs entry) lv msg e | PNop \<Rightarrow> e)"

definition p_WithField :: "string \<Rightarrow> attr_value \<Rightarrow> 'c p_logger \<Rightarrow> 'c p_logger" where
  "p_WithField key v lg =
     (case lg of PLogrus entry \<Rightarrow> PLogrus (entry_with_fields [(key, v)] entry) | PNop \<Rightarrow> PNop)"

definition p_WithFields :: "attrs \<Rightarrow> 'c p_logger \<Rightarrow> 'c p_logger" where
  "p_WithFields fs lg =
     (case lg of PLogrus entry \<Rightarrow> PLogrus (entry_with_fields fs entry) | PNop \<Rightarrow> PNop)"

definition p_WithError :: "goerr \<Rightarrow> 'c p_logger \<Rightarrow> 'c p_logger" where
  "p_WithError err lg =
     (case lg of PLogrus entry \<Rightarrow> PLogrus (entry_with_fields [(''error'', AErr err)] entry) | PNop \<Rightarrow> PNop)"

definition p_WithContext :: "'c \<Rightarrow> 'c p_logger \<Rightarrow> 'c p_logger" where
  "p_WithContext ctx lg =
     (case lg of PLogrus entry \<Rightarrow> PLogrus (entry\<lparr>le_context := Some ctx\<rparr>) | PNop \<Rightarrow> PNop)"

subsection \<open>The API's logger, seen through the entry\<close>

text \<open>Forgetting the logrus logger and the context gives the API's logger.\<close>

fun api_logger_of :: "'c p_logger \<Rightarrow> logger" where
  "api_logger_of (PLogrus entry) = LogrusLogger (le_data entry)"
| "api_logger_of PNop = NopLogger"

lemma fold_put_field_map: "fold (\<lambda>(k, v) m. put k v m) fs m = field_map fs m"
  by (induction fs m rule: field_map.induct) simp_all

lemma p_with_fields_data: "le_data (p_with_fields fs entry) = with_call_fields fs (le_data entry)"
  by (simp add: p_with_fields_def entry_with_fields_def with_call_fields_def fold_put_field_map)

lemma p_with_fields_rest [simp]:
  "le_context (p_with_fields fs entry) = le_context entry" "le_logger (p_with_fields fs entry) = le_logger entry"
  by (simp_all add: p_with_fields_def entry_with_fields_def)

text \<open>The provisioner's logger is the API's with a context: a line has the data the API's logger
  gives it (a field of the call hides one of the entry, the last duplicate counts), every \<open>With\<close>
  method acts on the data as the API's, \<open>WithContext\<close> leaves the data alone, and the entry that is
  written carries the context set last.\<close>

lemma provisioner_logger_is_the_api_logger:
  "p_log (\<lambda>entry lv msg. rt_emit rt lv msg (le_data entry)) lv lg msg fs e =
     log_at rt lv (api_logger_of lg) msg fs e \<and>
   api_logger_of (p_WithField k v lg) = WithField k v (api_logger_of lg) \<and>
   api_logger_of (p_WithFields m lg) = WithFields m (api_logger_of lg) \<and>
   api_logger_of (p_WithError err lg) = WithError err (api_logger_of lg) \<and>
   api_logger_of (p_WithContext ctx lg) = api_logger_of lg \<and>
   p_log lr_write lv (p_WithContext ctx (PLogrus entry)) msg fs e =
     lr_write \<lparr>le_logger = le_logger entry, le_context = Some ctx, le_data = with_call_fields fs (le_data entry)\<rparr> lv msg e"
proof -
  have written: "p_with_fields fs (entry\<lparr>le_context := Some ctx\<rparr>) =
      \<lparr>le_logger = le_logger entry, le_context = Some ctx, le_data = with_call_fields fs (le_data entry)\<rparr>"
    by (rule logrus_entry.equality) (simp_all add: p_with_fields_data)
  show ?thesis
    by (cases lg) (simp_all add: written p_log_def log_at_def p_with_fields_data p_WithField_def WithField_def
        p_WithFields_def WithFields_def p_WithError_def WithError_def p_WithContext_def
        entry_with_fields_def fold_put_field_map)
qed

text \<open>What \<open>New\<close> makes of its configuration.\<close>

lemma p_new_hooks:
  "fold (\<lambda>h l. l\<lparr>lg_hooks := lg_hooks l @ [h]\<rparr>) hs l = l\<lparr>lg_hooks := lg_hooks l @ hs\<rparr>"
  by (induction hs arbitrary: l) simp_all

lemma p_new_agrees:
  "p_new base parse_level cfg =
     PLogrus \<lparr>le_logger = \<lparr>lg_output = (case pl_output cfg of Some out \<Rightarrow> out | None \<Rightarrow> lg_output base),
         lg_level = logger_level parse_level \<lparr>lc_level = pl_level cfg, lc_format = pl_format cfg, lc_time_format = pl_time_format cfg\<rparr>,
         lg_hooks = lg_hooks base @ pl_hooks cfg,
         lg_formatter = logger_formatter \<lparr>lc_level = pl_level cfg, lc_format = pl_format cfg, lc_time_format = pl_time_format cfg\<rparr>\<rparr>,
       le_context = None, le_data = []\<rparr>"
  by (simp add: p_new_def p_new_hooks logger_level_def logger_formatter_def Let_def split: option.splits)

end
