(* ===== verification/Prov_Consumer.thy ===== *)
theory Prov_Consumer
  imports Provisioner_Logger Text_Map_Carriers Api_Adapters
begin

text \<open>
  \<open>services/provisioner/internal/consumer\<close>: the counters (\<open>metrics.go\<close>) and the two loops,
  \<open>RunSQS\<close> (\<open>sqs.go\<close>) and \<open>RunKafka\<close> (\<open>kafka.go\<close>). The tracer, the counters, logrus, the
  queue clients and the root context, which a signal cancels at any moment, act on the state
  \<open>'e\<close> of the world; a context is \<open>'c\<close>, a span \<open>'s\<close>. A loop ends when the context does, so the
  loops are partial functions: \<open>None\<close> is a run that never returns.
\<close>

subsection \<open>The instruments and the clients\<close>

record ('c, 's, 'e) instruments =
  in_ctx_err :: "'e \<Rightarrow> goerr option \<times> 'e"
  in_start :: "'c \<Rightarrow> string \<Rightarrow> 'e \<Rightarrow> 'c \<times> 's \<times> 'e"
  in_record_error :: "'s \<Rightarrow> goerr \<Rightarrow> 'e \<Rightarrow> 'e"
  in_end :: "'s \<Rightarrow> 'e \<Rightarrow> 'e"
  in_add :: "string \<Rightarrow> int \<Rightarrow> 'c \<Rightarrow> 'e \<Rightarrow> 'e"
  in_write :: "('c, 'e) entry_writer"
  in_extract :: "'c extractor"

text \<open>\<open>NewMetrics\<close>: the counters by their names.\<close>

record consumer_metrics =
  Received :: string
  Processed :: string
  Failed :: string

definition NewMetrics :: consumer_metrics where
  "NewMetrics = \<lparr>Received = ''provisioner.messages.received'', Processed = ''provisioner.messages.processed'',
     Failed = ''provisioner.messages.failed''\<rparr>"

record kafka_config =
  kc_Brokers :: "string list"
  kc_Topic :: string
  kc_GroupID :: string

record ('c, 'e) kafka_reader =
  kr_fetch :: "'c \<Rightarrow> 'e \<Rightarrow> (goerr + kafka_message) \<times> 'e"
  kr_commit :: "'c \<Rightarrow> kafka_message \<Rightarrow> 'e \<Rightarrow> goerr option \<times> 'e"
  kr_close :: "'e \<Rightarrow> goerr option \<times> 'e"

record sqs_message =
  sq_body :: "string option"
  sq_receipt :: "string option"
  sq_attributes :: sqs_attributes

record receive_input =
  ri_queue :: string
  ri_max :: int
  ri_wait :: int
  ri_attributes :: "string list"

record delete_input =
  di_queue :: string
  di_receipt :: "string option"

record ('c, 'e) sqs_client =
  sc_receive :: "'c \<Rightarrow> receive_input \<Rightarrow> 'e \<Rightarrow> (goerr + sqs_message list) \<times> 'e"
  sc_delete :: "'c \<Rightarrow> delete_input \<Rightarrow> 'e \<Rightarrow> goerr option \<times> 'e"

definition log_ctx ::
    "('c, 's, 'e) instruments \<Rightarrow> log_level \<Rightarrow> 'c p_logger \<Rightarrow> 'c \<Rightarrow> string \<Rightarrow> p_field list \<Rightarrow> 'e \<Rightarrow> 'e" where
  "log_ctx ins lv lg ctx msg fs = p_log (in_write ins) lv (p_WithContext ctx lg) msg fs"

subsection \<open>kafka.go\<close>

text \<open>The body of the loop once a message was fetched.\<close>

definition kafka_handle ::
    "('c, 's, 'e) instruments \<Rightarrow> ('c, 'e) kafka_reader \<Rightarrow> consumer_metrics \<Rightarrow> 'c p_logger \<Rightarrow> 'c \<Rightarrow>
     kafka_message \<Rightarrow> 'e \<Rightarrow> 'e" where
  "kafka_handle ins rd mt lg ctx message e =
     (let e1 = in_add ins (Received mt) 1 ctx e;
          msgCtx = extractKafka (in_extract ins) ctx (km_headers message);
          (processCtx, span, e2) = in_start ins msgCtx ''ProcessMessage'' e1;
          e3 = log_ctx ins InfoLevel lg processCtx ''received message'' [pF ''body'' (AStr (km_value message))] e2;
          (res, e4) = kr_commit rd processCtx message e3;
          e5 = (case res of
              Some err \<Rightarrow>
                log_ctx ins ErrorLevel lg processCtx ''failed to commit message'' [pF ''error'' (AStr (error_text err))]
                  (in_record_error ins span err (in_add ins (Failed mt) 1 processCtx e4))
            | None \<Rightarrow>
                log_ctx ins InfoLevel lg processCtx ''message committed'' []
                  (in_add ins (Processed mt) 1 processCtx e4))
      in in_end ins span e5)"

partial_function (option) kafka_loop ::
    "('c, 's, 'e) instruments \<Rightarrow> ('c, 'e) kafka_reader \<Rightarrow> consumer_metrics \<Rightarrow> 'c p_logger \<Rightarrow> 'c \<Rightarrow> 'e \<Rightarrow> 'e option" where
  "kafka_loop ins rd mt lg ctx e =
     (case in_ctx_err ins e of
        (Some stop, e1) \<Rightarrow> Some e1
      | (None, e1) \<Rightarrow>
          (case kr_fetch rd ctx e1 of
             (Inl err, e2) \<Rightarrow>
               (case in_ctx_err ins e2 of
                  (Some stop, e3) \<Rightarrow> Some e3
                | (None, e3) \<Rightarrow>
                    kafka_loop ins rd mt lg ctx
                      (log_ctx ins ErrorLevel lg ctx ''failed to fetch message'' [pF ''error'' (AStr (error_text err))] e3))
           | (Inr message, e2) \<Rightarrow> kafka_loop ins rd mt lg ctx (kafka_handle ins rd mt lg ctx message e2)))"

text \<open>\<open>new_reader\<close> is \<open>kafka.NewReader\<close>; the deferred close runs after the error was read.\<close>

definition RunKafka ::
    "(kafka_config \<Rightarrow> ('c, 'e) kafka_reader) \<Rightarrow> ('c, 's, 'e) instruments \<Rightarrow> 'c \<Rightarrow> kafka_config \<Rightarrow>
     consumer_metrics \<Rightarrow> 'c p_logger \<Rightarrow> 'e \<Rightarrow> (goerr option \<times> 'e) option" where
  "RunKafka new_reader ins ctx cfg mt lg e =
     (let rd = new_reader cfg;
          e1 = log_ctx ins InfoLevel lg ctx ''consuming messages from Kafka''
                 [pF ''topic'' (AStr (kc_Topic cfg)), pF ''group'' (AStr (kc_GroupID cfg))] e
      in case kafka_loop ins rd mt lg ctx e1 of
           None \<Rightarrow> None
         | Some e2 \<Rightarrow>
             (let (result, e3) = in_ctx_err ins e2;
                  (closed, e4) = kr_close rd e3
              in Some (result,
                   case closed of
                     None \<Rightarrow> e4
                   | Some err \<Rightarrow> log_ctx ins WarnLevel lg ctx ''failed to close Kafka reader''
                       [pF ''error'' (AStr (error_text err))] e4)))"

subsection \<open>sqs.go\<close>

definition sqs_receive_input :: "string \<Rightarrow> receive_input" where
  "sqs_receive_input queueURL = \<lparr>ri_queue = queueURL, ri_max = 5, ri_wait = 10, ri_attributes = [''All'']\<rparr>"

definition sqs_handle ::
    "('c, 's, 'e) instruments \<Rightarrow> ('c, 'e) sqs_client \<Rightarrow> string \<Rightarrow> consumer_metrics \<Rightarrow> 'c p_logger \<Rightarrow> 'c \<Rightarrow>
     sqs_message \<Rightarrow> 'e \<Rightarrow> 'e" where
  "sqs_handle ins client queueURL mt lg pollCtx message e =
     (let msgCtx = extractSQS (in_extract ins) pollCtx (sq_attributes message);
          (processCtx, span, e1) = in_start ins msgCtx ''ProcessMessage'' e;
          e2 = log_ctx ins InfoLevel lg processCtx ''received message'' [pF ''body'' (AStr (to_string (sq_body message)))] e1;
          (res, e3) = sc_delete client processCtx \<lparr>di_queue = queueURL, di_receipt = sq_receipt message\<rparr> e2;
          e4 = (case res of
              Some err \<Rightarrow>
                log_ctx ins ErrorLevel lg processCtx ''failed to delete message'' [pF ''error'' (AStr (error_text err))]
                  (in_record_error ins span err (in_add ins (Failed mt) 1 processCtx e3))
            | None \<Rightarrow>
                log_ctx ins InfoLevel lg processCtx ''message deleted'' []
                  (in_add ins (Processed mt) 1 processCtx e3))
      in in_end ins span e4)"

definition sqs_poll ::
    "('c, 's, 'e) instruments \<Rightarrow> ('c, 'e) sqs_client \<Rightarrow> string \<Rightarrow> consumer_metrics \<Rightarrow> 'c p_logger \<Rightarrow> 'c \<Rightarrow> 's \<Rightarrow>
     sqs_message list \<Rightarrow> 'e \<Rightarrow> 'e" where
  "sqs_poll ins client queueURL mt lg pollCtx pollSpan messages e =
     in_end ins pollSpan
       (fold (sqs_handle ins client queueURL mt lg pollCtx) messages
          (in_add ins (Received mt) (int (length messages)) pollCtx e))"

partial_function (option) sqs_loop ::
    "('c, 's, 'e) instruments \<Rightarrow> ('c, 'e) sqs_client \<Rightarrow> string \<Rightarrow> consumer_metrics \<Rightarrow> 'c p_logger \<Rightarrow> 'c \<Rightarrow>
     'e \<Rightarrow> 'e option" where
  "sqs_loop ins client queueURL mt lg ctx e =
     (case in_ctx_err ins e of
        (Some stop, e1) \<Rightarrow> Some e1
      | (None, e1) \<Rightarrow>
          (case in_start ins ctx ''PollSQSMessages'' e1 of
             (pollCtx, pollSpan, e2) \<Rightarrow>
               (case sc_receive client pollCtx (sqs_receive_input queueURL) e2 of
                  (Inl err, e3) \<Rightarrow>
                    (case in_ctx_err ins (in_end ins pollSpan (in_record_error ins pollSpan err e3)) of
                       (Some stop, e4) \<Rightarrow> Some e4
                     | (None, e4) \<Rightarrow>
                         sqs_loop ins client queueURL mt lg ctx
                           (log_ctx ins ErrorLevel lg pollCtx ''failed to receive messages''
                              [pF ''error'' (AStr (error_text err))] e4))
                | (Inr messages, e3) \<Rightarrow>
                    sqs_loop ins client queueURL mt lg ctx
                      (sqs_poll ins client queueURL mt lg pollCtx pollSpan messages e3))))"

definition RunSQS ::
    "('c, 's, 'e) instruments \<Rightarrow> 'c \<Rightarrow> ('c, 'e) sqs_client \<Rightarrow> string \<Rightarrow> consumer_metrics \<Rightarrow> 'c p_logger \<Rightarrow>
     'e \<Rightarrow> (goerr option \<times> 'e) option" where
  "RunSQS ins ctx client queueURL mt lg e =
     (case sqs_loop ins client queueURL mt lg ctx
         (log_ctx ins InfoLevel lg ctx ''polling messages from SQS queue'' [pF ''queue_url'' (AStr queueURL)] e) of
        None \<Rightarrow> None
      | Some e1 \<Rightarrow> Some (in_ctx_err ins e1))"

end
