(* ===== verification/Consumer_World.thy ===== *)
theory Consumer_World
  imports Prov_Consumer
begin

text \<open>
  The world the consumers run in, as an interface: every call of the tracer, the counters,
  logrus and the queue leaves its event in the log of what was observed; the root context, once
  cancelled, stays cancelled with the same error, and the signal that cancels it comes at some
  point (\<open>left\<close> bounds how often the context can still be found open). The consumers' loops are
  proved once against this interface; \<open>script\<close> is an instance that plays a list of messages.
\<close>

subsection \<open>Events\<close>

datatype ('c, 's) event =
    EvStart 'c string 's
  | EvError 's goerr
  | EvEnd 's
  | EvAdd string int
  | EvWrite "'c logrus_entry" log_level string
  | EvFetch "goerr + kafka_message"
  | EvCommit kafka_message "goerr option"
  | EvClose "goerr option"
  | EvReceive receive_input "goerr + sqs_message list"
  | EvDelete delete_input "goerr option"

definition moves ::
    "('e \<Rightarrow> ('c, 's) event list) \<Rightarrow> ('e \<Rightarrow> nat) \<Rightarrow> (goerr \<Rightarrow> 'e \<Rightarrow> bool) \<Rightarrow> ('c, 's) event list \<Rightarrow> 'e \<Rightarrow> 'e \<Rightarrow> bool" where
  "moves obs left stopped evs e e' \<longleftrightarrow>
     obs e' = obs e @ evs \<and> left e' \<le> left e \<and> (\<forall>err. stopped err e \<longrightarrow> stopped err e')"

lemma moves_trans:
  "moves obs left stopped a e e1 \<Longrightarrow> moves obs left stopped b e1 e2 \<Longrightarrow> moves obs left stopped (a @ b) e e2"
  by (auto simp: moves_def)

lemma moves_refl [simp]: "moves obs left stopped [] e e"
  by (simp add: moves_def)

subsection \<open>The interfaces\<close>

locale observed_world =
  fixes ins :: "('c, 's, 'e) instruments"
    and obs :: "'e \<Rightarrow> ('c, 's) event list"
    and left :: "'e \<Rightarrow> nat"
    and stopped :: "goerr \<Rightarrow> 'e \<Rightarrow> bool"
  assumes ctx_open: "in_ctx_err ins e = (None, e') \<Longrightarrow> moves obs left stopped [] e e' \<and> left e' < left e"
    and ctx_done: "in_ctx_err ins e = (Some err, e') \<Longrightarrow> moves obs left stopped [] e e' \<and> stopped err e'"
    and ctx_stays: "stopped err e \<Longrightarrow> fst (in_ctx_err ins e) = Some err"
    and start: "in_start ins c n e = (c', s, e') \<Longrightarrow> moves obs left stopped [EvStart c n s] e e'"
    and record_error: "moves obs left stopped [EvError s err] e (in_record_error ins s err e)"
    and end_span: "moves obs left stopped [EvEnd s] e (in_end ins s e)"
    and add: "moves obs left stopped [EvAdd m i] e (in_add ins m i c e)"
    and written: "moves obs left stopped [EvWrite entry lv msg] e (in_write ins entry lv msg e)"

locale kafka_world = observed_world ins obs left stopped
  for ins :: "('c, 's, 'e) instruments" and obs left stopped +
  fixes rd :: "('c, 'e) kafka_reader"
  assumes fetch: "kr_fetch rd c e = (r, e') \<Longrightarrow> moves obs left stopped [EvFetch r] e e'"
    and commit: "kr_commit rd c m e = (res, e') \<Longrightarrow> moves obs left stopped [EvCommit m res] e e'"
    and close: "kr_close rd e = (res, e') \<Longrightarrow> moves obs left stopped [EvClose res] e e'"

locale sqs_world = observed_world ins obs left stopped
  for ins :: "('c, 's, 'e) instruments" and obs left stopped +
  fixes client :: "('c, 'e) sqs_client"
  assumes receive: "sc_receive client c inp e = (rs, e') \<Longrightarrow> moves obs left stopped [EvReceive inp rs] e e'"
    and delete: "sc_delete client c d e = (res, e') \<Longrightarrow> moves obs left stopped [EvDelete d res] e e'"

text \<open>The lines of a logger, as events.\<close>

definition log_events :: "log_level \<Rightarrow> 'c p_logger \<Rightarrow> 'c \<Rightarrow> string \<Rightarrow> p_field list \<Rightarrow> ('c, 's) event list" where
  "log_events lv lg ctx msg fs =
     (case lg of
        PLogrus entry \<Rightarrow> [EvWrite (p_with_fields fs (entry\<lparr>le_context := Some ctx\<rparr>)) lv msg]
      | PNop \<Rightarrow> [])"

context observed_world
begin

abbreviation "step \<equiv> moves obs left stopped"

lemma step_log: "step (log_events lv lg ctx msg fs) e (log_ctx ins lv lg ctx msg fs e)"
  by (cases lg) (simp_all add: log_events_def log_ctx_def p_log_def p_WithContext_def written)

lemma step_left: "step evs e e' \<Longrightarrow> left e' \<le> left e"
  by (simp add: moves_def)

lemma step_stopped: "step evs e e' \<Longrightarrow> stopped err e \<Longrightarrow> stopped err e'"
  by (simp add: moves_def)

lemma ctx_err_stopped:
  assumes "stopped err e" obtains e' where "in_ctx_err ins e = (Some err, e')" "step [] e e'" "stopped err e'"
proof -
  obtain e' where "in_ctx_err ins e = (Some err, e')"
    using ctx_stays [OF assms] by (cases "in_ctx_err ins e") auto
  with ctx_done [OF this] that show thesis by blast
qed

end

subsection \<open>What the loops leave behind\<close>

text \<open>The events of a message, and of a whole run, for each transport.\<close>

definition acked_events ::
    "consumer_metrics \<Rightarrow> 'c p_logger \<Rightarrow> 'c \<Rightarrow> 's \<Rightarrow> string \<Rightarrow> string \<Rightarrow> goerr option \<Rightarrow> ('c, 's) event list" where
  "acked_events mt lg ctx span good bad res =
     (case res of
        Some err \<Rightarrow> [EvAdd (Failed mt) 1, EvError span err] @
          log_events ErrorLevel lg ctx bad [pF ''error'' (AStr (error_text err))]
      | None \<Rightarrow> [EvAdd (Processed mt) 1] @ log_events InfoLevel lg ctx good [])"

definition kafka_round ::
    "'c extractor \<Rightarrow> consumer_metrics \<Rightarrow> 'c p_logger \<Rightarrow> 'c \<Rightarrow> kafka_message \<Rightarrow> goerr option \<Rightarrow> 'c \<Rightarrow> 's \<Rightarrow>
     ('c, 's) event list" where
  "kafka_round ext mt lg ctx m res pctx span =
     [EvAdd (Received mt) 1, EvStart (extractKafka ext ctx (km_headers m)) ''ProcessMessage'' span] @
     log_events InfoLevel lg pctx ''received message'' [pF ''body'' (AStr (km_value m))] @
     [EvCommit m res] @
     acked_events mt lg pctx span ''message committed'' ''failed to commit message'' res @ [EvEnd span]"

inductive kafka_trace ::
    "'c extractor \<Rightarrow> consumer_metrics \<Rightarrow> 'c p_logger \<Rightarrow> 'c \<Rightarrow> ('c, 's) event list \<Rightarrow> bool"
  for ext mt lg ctx where
  over: "kafka_trace ext mt lg ctx []"
| interrupted: "kafka_trace ext mt lg ctx [EvFetch (Inl err)]"
| not_fetched: "kafka_trace ext mt lg ctx t \<Longrightarrow>
    kafka_trace ext mt lg ctx ([EvFetch (Inl err)] @
      log_events ErrorLevel lg ctx ''failed to fetch message'' [pF ''error'' (AStr (error_text err))] @ t)"
| handled: "kafka_trace ext mt lg ctx t \<Longrightarrow>
    kafka_trace ext mt lg ctx ([EvFetch (Inr m)] @ kafka_round ext mt lg ctx m res pctx span @ t)"

definition sqs_round ::
    "'c extractor \<Rightarrow> consumer_metrics \<Rightarrow> 'c p_logger \<Rightarrow> string \<Rightarrow> 'c \<Rightarrow> sqs_message \<Rightarrow> goerr option \<Rightarrow> 'c \<Rightarrow> 's \<Rightarrow>
     ('c, 's) event list" where
  "sqs_round ext mt lg url ctx m res pctx span =
     [EvStart (extractSQS ext ctx (sq_attributes m)) ''ProcessMessage'' span] @
     log_events InfoLevel lg pctx ''received message'' [pF ''body'' (AStr (to_string (sq_body m)))] @
     [EvDelete \<lparr>di_queue = url, di_receipt = sq_receipt m\<rparr> res] @
     acked_events mt lg pctx span ''message deleted'' ''failed to delete message'' res @ [EvEnd span]"

inductive sqs_rounds ::
    "'c extractor \<Rightarrow> consumer_metrics \<Rightarrow> 'c p_logger \<Rightarrow> string \<Rightarrow> 'c \<Rightarrow> sqs_message list \<Rightarrow> ('c, 's) event list \<Rightarrow> bool"
  for ext mt lg url ctx where
  none: "sqs_rounds ext mt lg url ctx [] []"
| one: "sqs_rounds ext mt lg url ctx ms t \<Longrightarrow>
    sqs_rounds ext mt lg url ctx (m # ms) (sqs_round ext mt lg url ctx m res pctx span @ t)"

inductive sqs_trace ::
    "'c extractor \<Rightarrow> consumer_metrics \<Rightarrow> 'c p_logger \<Rightarrow> string \<Rightarrow> 'c \<Rightarrow> ('c, 's) event list \<Rightarrow> bool"
  for ext mt lg url ctx where
  over: "sqs_trace ext mt lg url ctx []"
| interrupted: "sqs_trace ext mt lg url ctx
    [EvStart ctx ''PollSQSMessages'' ps, EvReceive (sqs_receive_input url) (Inl err), EvError ps err, EvEnd ps]"
| not_received: "sqs_trace ext mt lg url ctx t \<Longrightarrow>
    sqs_trace ext mt lg url ctx
      ([EvStart ctx ''PollSQSMessages'' ps, EvReceive (sqs_receive_input url) (Inl err), EvError ps err, EvEnd ps] @
       log_events ErrorLevel lg pc ''failed to receive messages'' [pF ''error'' (AStr (error_text err))] @ t)"
| received: "sqs_rounds ext mt lg url pc ms rs \<Longrightarrow> sqs_trace ext mt lg url ctx t \<Longrightarrow>
    sqs_trace ext mt lg url ctx
      ([EvStart ctx ''PollSQSMessages'' ps, EvReceive (sqs_receive_input url) (Inr ms),
        EvAdd (Received mt) (int (length ms))] @ rs @ [EvEnd ps] @ t)"

end
