(* ===== verification/Consumer_Properties.thy ===== *)
theory Consumer_Properties
  imports Consumer_World
begin

text \<open>
  The consumers' loops against the world's interface: every run of either ends once the context
  does, returns the context's error, and leaves a trace of the grammar of \<open>Consumer_World\<close>, from
  which the accounting of messages, counters and spans is read off.
\<close>

subsection \<open>The loops follow the grammar\<close>

text \<open>A loop whose rounds either end it or bring the cancellation nearer ends.\<close>

definition ends_run where
  "ends_run obs left stopped tr loop e \<longleftrightarrow>
     (\<exists>e' t err. loop e = Some e' \<and> tr t \<and> moves obs left stopped t e e' \<and> stopped err e')"

definition next_round where
  "next_round obs left stopped tr loop e \<longleftrightarrow>
     (\<exists>e' p. left e' < left e \<and> loop e = loop e' \<and> moves obs left stopped p e e' \<and> (\<forall>t. tr t \<longrightarrow> tr (p @ t)))"

lemma rounds_end:
  assumes "\<And>e. ends_run obs left stopped tr loop e \<or> next_round obs left stopped tr loop e"
  shows "ends_run obs left stopped tr loop e"
proof (induction "left e" arbitrary: e rule: less_induct)
  case less
  show ?case
  proof (cases "ends_run obs left stopped tr loop e")
    case False
    then obtain e1 p where p: "left e1 < left e" "loop e = loop e1" "moves obs left stopped p e e1"
      "\<forall>t. tr t \<longrightarrow> tr (p @ t)"
      using assms [of e] unfolding next_round_def by blast
    from less [OF p(1)] obtain e' t err where "loop e1 = Some e'" "tr t" "moves obs left stopped t e1 e'" "stopped err e'"
      unfolding ends_run_def by blast
    with p(2,4) moves_trans [OF p(3)] show ?thesis unfolding ends_run_def by metis
  qed
qed

context observed_world
begin

text \<open>What both loops do with the outcome of the acknowledgement.\<close>

lemma step_acked:
  "step (acked_events mt lg ctx span good bad res) e
     (case res of
        Some err \<Rightarrow> log_ctx ins ErrorLevel lg ctx bad [pF ''error'' (AStr (error_text err))]
          (in_record_error ins span err (in_add ins (Failed mt) 1 ctx e))
      | None \<Rightarrow> log_ctx ins InfoLevel lg ctx good [] (in_add ins (Processed mt) 1 ctx e))"
proof (cases res)
  case None
  show ?thesis
    using moves_trans [OF add [of "Processed mt" 1 e ctx] step_log [of InfoLevel lg ctx good "[]"]] None
    by (simp add: acked_events_def)
next
  case (Some err)
  show ?thesis
    using moves_trans [OF add [of "Failed mt" 1 e ctx] moves_trans [OF record_error [of span err]
          step_log [of ErrorLevel lg ctx bad "[pF ''error'' (AStr (error_text err))]"]]] Some
    by (simp add: acked_events_def)
qed

end

context kafka_world
begin

lemma step_handle:
  "\<exists>res pctx span. step (kafka_round (in_extract ins) mt lg ctx m res pctx span) e (kafka_handle ins rd mt lg ctx m e)"
proof -
  let ?e1 = "in_add ins (Received mt) 1 ctx e"
  obtain pctx span e2 where s: "in_start ins (extractKafka (in_extract ins) ctx (km_headers m)) ''ProcessMessage'' ?e1 = (pctx, span, e2)"
    by (metis prod_cases3)
  let ?e3 = "log_ctx ins InfoLevel lg pctx ''received message'' [pF ''body'' (AStr (km_value m))] e2"
  obtain res e4 where c: "kr_commit rd pctx m ?e3 = (res, e4)" by (metis prod.exhaust)
  have "step (kafka_round (in_extract ins) mt lg ctx m res pctx span) e (kafka_handle ins rd mt lg ctx m e)"
    using moves_trans [OF add moves_trans [OF start [OF s] moves_trans [OF step_log moves_trans [OF commit [OF c]
          moves_trans [OF step_acked [of mt lg pctx span "''message committed''" "''failed to commit message''" res] end_span]]]]]
    by (simp add: kafka_handle_def kafka_round_def s c)
  then show ?thesis by blast
qed

lemma kafka_loop_rounds:
  "ends_run obs left stopped (kafka_trace (in_extract ins) mt lg ctx) (kafka_loop ins rd mt lg ctx) e \<or>
   next_round obs left stopped (kafka_trace (in_extract ins) mt lg ctx) (kafka_loop ins rd mt lg ctx) e"
  (is "?ends e \<or> ?next e")
proof -
  let ?loop = "kafka_loop ins rd mt lg ctx"
  obtain r e1 where ctx1: "in_ctx_err ins e = (r, e1)" by fastforce
  obtain f e2 where fetch1: "kr_fetch rd ctx e1 = (f, e2)" by fastforce
  obtain r2 e3 where ctx3: "in_ctx_err ins e2 = (r2, e3)" by fastforce
  show ?thesis
  proof (cases r)
    case (Some err)
    with ctx1 have "?loop e = Some e1" by (subst kafka_loop.simps) simp
    with ctx1 ctx_done [of e err e1] Some show ?thesis by (auto simp: ends_run_def intro: kafka_trace.over)
  next
    case None
    with ctx1 ctx_open [of e e1] have open1: "step [] e e1" "left e1 < left e" by auto
    have moved: "step [EvFetch f] e e2" using moves_trans [OF open1(1) fetch [OF fetch1]] by simp
    have left2: "left e2 < left e" using step_left [OF fetch [OF fetch1]] open1(2) by simp
    show ?thesis
    proof (cases f)
      case (Inr m)
      obtain res pctx span where h: "step (kafka_round (in_extract ins) mt lg ctx m res pctx span) e2 (kafka_handle ins rd mt lg ctx m e2)"
        using step_handle by blast
      have "?loop e = ?loop (kafka_handle ins rd mt lg ctx m e2)"
        using ctx1 None fetch1 Inr by (subst kafka_loop.simps) simp
      moreover have "left (kafka_handle ins rd mt lg ctx m e2) < left e" using step_left [OF h] left2 by simp
      ultimately show ?thesis
        using moves_trans [OF moved h] Inr kafka_trace.handled [where ext = "in_extract ins"]
        unfolding next_round_def by (metis append.assoc)
    next
      case (Inl ferr)
      show ?thesis
      proof (cases r2)
        case (Some err)
        with ctx3 ctx_done [of e2 err e3] have "step [] e2 e3" "stopped err e3" by auto
        moreover have "?loop e = Some e3"
          using ctx1 None fetch1 Inl ctx3 Some by (subst kafka_loop.simps) simp
        ultimately show ?thesis
          using moves_trans [OF moved, of "[]" e3] Inl kafka_trace.interrupted by (fastforce simp: ends_run_def)
      next
        case N2: None
        let ?log = "log_ctx ins ErrorLevel lg ctx ''failed to fetch message'' [pF ''error'' (AStr (error_text ferr))]"
        have open3: "step [] e2 e3" "left e3 < left e2" using ctx3 N2 ctx_open [of e2 e3] by auto
        note logged = moves_trans [OF moved moves_trans [OF open3(1)
            step_log [of ErrorLevel lg ctx "''failed to fetch message''" "[pF ''error'' (AStr (error_text ferr))]" e3]]]
        have "left (?log e3) < left e" using step_left [OF step_log, of ErrorLevel lg ctx] open3(2) left2
          by (meson le_less_trans less_trans)
        moreover have "?loop e = ?loop (?log e3)"
          using ctx1 None fetch1 Inl ctx3 N2 by (subst kafka_loop.simps) simp
        ultimately show ?thesis
          using logged Inl kafka_trace.not_fetched [where ext = "in_extract ins"]
          unfolding next_round_def by (metis append.assoc append_Nil)
      qed
    qed
  qed
qed

lemmas kafka_loop_ends = rounds_end [OF kafka_loop_rounds]

end


context sqs_world
begin

lemma step_handle:
  "\<exists>res pctx span. step (sqs_round (in_extract ins) mt lg url pc m res pctx span) e (sqs_handle ins client url mt lg pc m e)"
proof -
  obtain pctx span e1 where s: "in_start ins (extractSQS (in_extract ins) pc (sq_attributes m)) ''ProcessMessage'' e = (pctx, span, e1)"
    by (metis prod_cases3)
  let ?e2 = "log_ctx ins InfoLevel lg pctx ''received message'' [pF ''body'' (AStr (to_string (sq_body m)))] e1"
  obtain res e3 where d: "sc_delete client pctx \<lparr>di_queue = url, di_receipt = sq_receipt m\<rparr> ?e2 = (res, e3)"
    by (metis prod.exhaust)
  have "step (sqs_round (in_extract ins) mt lg url pc m res pctx span) e (sqs_handle ins client url mt lg pc m e)"
    using moves_trans [OF start [OF s] moves_trans [OF step_log moves_trans [OF delete [OF d]
          moves_trans [OF step_acked [of mt lg pctx span "''message deleted''" "''failed to delete message''" res] end_span]]]]
    by (simp add: sqs_handle_def sqs_round_def s d)
  then show ?thesis by blast
qed

lemma step_messages:
  "\<exists>rs. sqs_rounds (in_extract ins) mt lg url pc ms rs \<and> step rs e (fold (sqs_handle ins client url mt lg pc) ms e)"
proof (induction ms arbitrary: e)
  case Nil
  show ?case by (auto intro: sqs_rounds.none)
next
  case (Cons m ms)
  obtain res pctx span where h: "step (sqs_round (in_extract ins) mt lg url pc m res pctx span) e (sqs_handle ins client url mt lg pc m e)"
    using step_handle by blast
  obtain rs where rs: "sqs_rounds (in_extract ins) mt lg url pc ms rs"
    "step rs (sqs_handle ins client url mt lg pc m e) (fold (sqs_handle ins client url mt lg pc) ms (sqs_handle ins client url mt lg pc m e))"
    using Cons by blast
  from sqs_rounds.one [OF rs(1)] moves_trans [OF h rs(2)] show ?case unfolding fold_simps by blast
qed

lemma step_poll:
  "\<exists>rs. sqs_rounds (in_extract ins) mt lg url pc ms rs \<and>
     step ([EvAdd (Received mt) (int (length ms))] @ rs @ [EvEnd ps]) e (sqs_poll ins client url mt lg pc ps ms e)"
proof -
  let ?e1 = "in_add ins (Received mt) (int (length ms)) pc e"
  obtain rs where "sqs_rounds (in_extract ins) mt lg url pc ms rs"
    "step rs ?e1 (fold (sqs_handle ins client url mt lg pc) ms ?e1)"
    using step_messages by blast
  with moves_trans [OF add moves_trans [OF _ end_span]] show ?thesis unfolding sqs_poll_def by blast
qed

lemma sqs_loop_rounds:
  "ends_run obs left stopped (sqs_trace (in_extract ins) mt lg url ctx) (sqs_loop ins client url mt lg ctx) e \<or>
   next_round obs left stopped (sqs_trace (in_extract ins) mt lg url ctx) (sqs_loop ins client url mt lg ctx) e"
proof -
  let ?loop = "sqs_loop ins client url mt lg ctx"
  obtain r e1 where ctx1: "in_ctx_err ins e = (r, e1)" by fastforce
  obtain pc ps e2 where start1: "in_start ins ctx ''PollSQSMessages'' e1 = (pc, ps, e2)" by (metis prod_cases3)
  obtain f e3 where rec1: "sc_receive client pc (sqs_receive_input url) e2 = (f, e3)" by fastforce
  note polled = moves_trans [OF start [OF start1] receive [OF rec1]]
  show ?thesis
  proof (cases r)
    case (Some err)
    with ctx1 have "?loop e = Some e1" by (subst sqs_loop.simps) simp
    with ctx1 ctx_done [of e err e1] Some show ?thesis by (auto simp: ends_run_def intro: sqs_trace.over)
  next
    case None
    with ctx1 ctx_open [of e e1] have open1: "step [] e e1" "left e1 < left e" by auto
    note moved = moves_trans [OF open1(1) polled, unfolded append_Nil]
    have left3: "left e3 < left e" using step_left [OF polled] open1(2) by simp
    show ?thesis
    proof (cases f)
      case (Inr ms)
      obtain rs where rs: "sqs_rounds (in_extract ins) mt lg url pc ms rs"
        "step ([EvAdd (Received mt) (int (length ms))] @ rs @ [EvEnd ps]) e3 (sqs_poll ins client url mt lg pc ps ms e3)"
        using step_poll by blast
      have "?loop e = ?loop (sqs_poll ins client url mt lg pc ps ms e3)"
        using ctx1 None start1 rec1 Inr by (subst sqs_loop.simps) simp
      moreover have "left (sqs_poll ins client url mt lg pc ps ms e3) < left e" using step_left [OF rs(2)] left3 by simp
      moreover have "sqs_trace (in_extract ins) mt lg url ctx ((([EvStart ctx ''PollSQSMessages'' ps] @
          [EvReceive (sqs_receive_input url) f]) @ [EvAdd (Received mt) (int (length ms))] @ rs @ [EvEnd ps]) @ t)"
        if "sqs_trace (in_extract ins) mt lg url ctx t" for t
        using sqs_trace.received [OF rs(1) that] Inr by simp
      ultimately show ?thesis using moves_trans [OF moved rs(2)] unfolding next_round_def by blast
    next
      case (Inl rerr)
      let ?e4 = "in_end ins ps (in_record_error ins ps rerr e3)"
      obtain r2 e5 where ctx5: "in_ctx_err ins ?e4 = (r2, e5)" by fastforce
      note closed = moves_trans [OF moved moves_trans [OF record_error end_span], of ps rerr ps]
      have left4: "left ?e4 < left e" using step_left [OF moves_trans [OF record_error end_span], of ps ps rerr e3] left3 by simp
      show ?thesis
      proof (cases r2)
        case (Some err)
        with ctx5 ctx_done [of ?e4 err e5] have "step [] ?e4 e5" "stopped err e5" by auto
        moreover have "?loop e = Some e5"
          using ctx1 None start1 rec1 Inl ctx5 Some by (subst sqs_loop.simps) simp
        ultimately show ?thesis
          using moves_trans [OF closed, of "[]" e5] Inl sqs_trace.interrupted by (fastforce simp: ends_run_def)
      next
        case N2: None
        let ?fs = "[pF ''error'' (AStr (error_text rerr))]"
        let ?log = "log_ctx ins ErrorLevel lg pc ''failed to receive messages'' ?fs"
        have open5: "step [] ?e4 e5" "left e5 < left ?e4" using ctx5 N2 ctx_open [of ?e4 e5] by auto
        note logged = moves_trans [OF closed moves_trans [OF open5(1)
            step_log [of ErrorLevel lg pc "''failed to receive messages''" ?fs e5]]]
        have "left (?log e5) < left e" using step_left [OF step_log, of ErrorLevel lg pc] open5(2) left4
          by (meson le_less_trans less_trans)
        moreover have "?loop e = ?loop (?log e5)"
          using ctx1 None start1 rec1 Inl ctx5 N2 by (subst sqs_loop.simps) simp
        moreover have "sqs_trace (in_extract ins) mt lg url ctx (((([EvStart ctx ''PollSQSMessages'' ps] @
            [EvReceive (sqs_receive_input url) f]) @ [EvError ps rerr] @ [EvEnd ps]) @ [] @
            log_events ErrorLevel lg pc ''failed to receive messages'' ?fs) @ t)"
          if "sqs_trace (in_extract ins) mt lg url ctx t" for t
          using sqs_trace.not_received [OF that] Inl by simp
        ultimately show ?thesis using logged unfolding next_round_def by blast
      qed
    qed
  qed
qed

lemmas sqs_loop_ends = rounds_end [OF sqs_loop_rounds]

end


subsection \<open>Reading a trace\<close>

definition select :: "('a \<Rightarrow> 'b option) \<Rightarrow> 'a list \<Rightarrow> 'b list" where
  "select f xs = concat (map (\<lambda>x. case f x of Some y \<Rightarrow> [y] | None \<Rightarrow> []) xs)"

lemma select_simps [simp]:
  "select f [] = []" "select f (x # xs) = (case f x of Some y \<Rightarrow> y # select f xs | None \<Rightarrow> select f xs)"
  "select f (xs @ ys) = select f xs @ select f ys"
  by (simp_all add: select_def split: option.split)

definition fetched :: "('c, 's) event list \<Rightarrow> kafka_message list" where
  "fetched = select (\<lambda>ev. case ev of EvFetch (Inr m) \<Rightarrow> Some m | _ \<Rightarrow> None)"

definition commits :: "('c, 's) event list \<Rightarrow> (kafka_message \<times> goerr option) list" where
  "commits = select (\<lambda>ev. case ev of EvCommit m res \<Rightarrow> Some (m, res) | _ \<Rightarrow> None)"

definition delivered :: "('c, 's) event list \<Rightarrow> sqs_message list" where
  "delivered evs = concat (select (\<lambda>ev. case ev of EvReceive inp (Inr ms) \<Rightarrow> Some ms | _ \<Rightarrow> None) evs)"

definition deletes :: "('c, 's) event list \<Rightarrow> (delete_input \<times> goerr option) list" where
  "deletes = select (\<lambda>ev. case ev of EvDelete d res \<Rightarrow> Some (d, res) | _ \<Rightarrow> None)"

definition added :: "string \<Rightarrow> ('c, 's) event list \<Rightarrow> int" where
  "added name evs = sum_list (select (\<lambda>ev. case ev of EvAdd n i \<Rightarrow> if n = name then Some i else None | _ \<Rightarrow> None) evs)"

definition started :: "('c, 's) event list \<Rightarrow> 's list" where
  "started = select (\<lambda>ev. case ev of EvStart c n s \<Rightarrow> Some s | _ \<Rightarrow> None)"

definition ended :: "('c, 's) event list \<Rightarrow> 's list" where
  "ended = select (\<lambda>ev. case ev of EvEnd s \<Rightarrow> Some s | _ \<Rightarrow> None)"

definition processed_under :: "('c, 's) event list \<Rightarrow> 'c list" where
  "processed_under = select (\<lambda>ev. case ev of EvStart c n s \<Rightarrow> if n = ''ProcessMessage'' then Some c else None | _ \<Rightarrow> None)"

definition closes :: "('c, 's) event list \<Rightarrow> goerr option list" where
  "closes = select (\<lambda>ev. case ev of EvClose res \<Rightarrow> Some res | _ \<Rightarrow> None)"

definition spans_balanced :: "('c, 's) event list \<Rightarrow> bool" where
  "spans_balanced evs \<longleftrightarrow> (\<forall>s. count_list (started evs) s = count_list (ended evs) s)"

lemmas trace_defs = fetched_def commits_def delivered_def deletes_def added_def started_def ended_def
  processed_under_def closes_def

lemma log_events_unseen [simp]:
  "fetched (log_events lv lg ctx msg fs) = []" "commits (log_events lv lg ctx msg fs) = []"
  "delivered (log_events lv lg ctx msg fs) = []" "deletes (log_events lv lg ctx msg fs) = []"
  "added n (log_events lv lg ctx msg fs) = 0" "started (log_events lv lg ctx msg fs) = []"
  "ended (log_events lv lg ctx msg fs) = []" "processed_under (log_events lv lg ctx msg fs) = []"
  "closes (log_events lv lg ctx msg fs) = []"
  by (cases lg; simp add: log_events_def trace_defs)+

lemma projections_append [simp]:
  "fetched (a @ b) = fetched a @ fetched b" "commits (a @ b) = commits a @ commits b"
  "delivered (a @ b) = delivered a @ delivered b" "deletes (a @ b) = deletes a @ deletes b"
  "added n (a @ b) = added n a + added n b" "started (a @ b) = started a @ started b"
  "ended (a @ b) = ended a @ ended b" "processed_under (a @ b) = processed_under a @ processed_under b"
  "closes (a @ b) = closes a @ closes b"
  by (simp_all add: trace_defs)

lemma projections_list [simp]:
  "fetched [] = []" "commits [] = []" "delivered [] = []" "deletes [] = []" "added n [] = 0"
  "started [] = []" "ended [] = []" "processed_under [] = []" "closes [] = []"
  "fetched (ev # evs) = (case ev of EvFetch (Inr m) \<Rightarrow> m # fetched evs | _ \<Rightarrow> fetched evs)"
  "commits (ev # evs) = (case ev of EvCommit m res \<Rightarrow> (m, res) # commits evs | _ \<Rightarrow> commits evs)"
  "delivered (ev # evs) = (case ev of EvReceive inp (Inr ms) \<Rightarrow> ms @ delivered evs | _ \<Rightarrow> delivered evs)"
  "deletes (ev # evs) = (case ev of EvDelete d res \<Rightarrow> (d, res) # deletes evs | _ \<Rightarrow> deletes evs)"
  "added n (ev # evs) = (case ev of EvAdd m i \<Rightarrow> (if m = n then i else 0) + added n evs | _ \<Rightarrow> added n evs)"
  "started (ev # evs) = (case ev of EvStart c m s \<Rightarrow> s # started evs | _ \<Rightarrow> started evs)"
  "ended (ev # evs) = (case ev of EvEnd s \<Rightarrow> s # ended evs | _ \<Rightarrow> ended evs)"
  "processed_under (ev # evs) =
     (case ev of EvStart c m s \<Rightarrow> if m = ''ProcessMessage'' then c # processed_under evs else processed_under evs
      | _ \<Rightarrow> processed_under evs)"
  "closes (ev # evs) = (case ev of EvClose res \<Rightarrow> res # closes evs | _ \<Rightarrow> closes evs)"
  by (simp_all add: trace_defs split: event.split sum.split)

definition accounted :: "consumer_metrics \<Rightarrow> ('c, 's) event list \<Rightarrow> nat \<Rightarrow> goerr option list \<Rightarrow> bool" where
  "accounted mt evs received acks \<longleftrightarrow>
     added (Received mt) evs = int received \<and>
     added (Processed mt) evs = int (length (filter (\<lambda>r. r = None) acks)) \<and>
     added (Failed mt) evs = int (length (filter (\<lambda>r. r \<noteq> None) acks))"

lemma metric_names [simp]:
  "Received NewMetrics = ''provisioner.messages.received''" "Processed NewMetrics = ''provisioner.messages.processed''"
  "Failed NewMetrics = ''provisioner.messages.failed''"
  by (simp_all add: NewMetrics_def)

text \<open>One acknowledged message, on either transport.\<close>

lemma acked_projections [simp]:
  "fetched (acked_events mt lg ctx span good bad res) = []" "commits (acked_events mt lg ctx span good bad res) = []"
  "delivered (acked_events mt lg ctx span good bad res) = []" "deletes (acked_events mt lg ctx span good bad res) = []"
  "started (acked_events mt lg ctx span good bad res) = []" "ended (acked_events mt lg ctx span good bad res) = []"
  "processed_under (acked_events mt lg ctx span good bad res) = []" "closes (acked_events mt lg ctx span good bad res) = []"
  "added n (acked_events mt lg ctx span good bad res) = (if n = (if res = None then Processed mt else Failed mt) then 1 else 0)"
  by (simp_all add: acked_events_def split: option.split)

lemma kafka_trace_accounts:
  "kafka_trace ext NewMetrics lg ctx t \<Longrightarrow>
     map fst (commits t) = fetched t \<and> processed_under t = map (\<lambda>m. extractKafka ext ctx (km_headers m)) (fetched t) \<and>
     started t = ended t \<and> closes t = [] \<and> accounted NewMetrics t (length (fetched t)) (map snd (commits t))"
  by (induction t rule: kafka_trace.induct) (simp_all add: accounted_def kafka_round_def)

lemma sqs_rounds_accounts:
  "sqs_rounds ext NewMetrics lg url pc ms t \<Longrightarrow>
     map fst (deletes t) = map (\<lambda>m. \<lparr>di_queue = url, di_receipt = sq_receipt m\<rparr>) ms \<and>
     processed_under t = map (\<lambda>m. extractSQS ext pc (sq_attributes m)) ms \<and> delivered t = [] \<and>
     started t = ended t \<and> accounted NewMetrics t 0 (map snd (deletes t))"
  by (induction ms t rule: sqs_rounds.induct) (simp_all add: accounted_def sqs_round_def)

lemma sqs_trace_accounts:
  "sqs_trace ext NewMetrics lg url ctx t \<Longrightarrow>
     map fst (deletes t) = map (\<lambda>m. \<lparr>di_queue = url, di_receipt = sq_receipt m\<rparr>) (delivered t) \<and>
     spans_balanced t \<and> accounted NewMetrics t (length (delivered t)) (map snd (deletes t))"
proof (induction t rule: sqs_trace.induct)
  case (received pc ms rs t ps)
  then show ?case
    using sqs_rounds_accounts [OF received.hyps(1)] by (simp add: accounted_def spans_balanced_def)
qed (simp_all add: accounted_def spans_balanced_def)


subsection \<open>A whole run\<close>

definition kafka_run_ok where
  "kafka_run_ok ext lg ctx t \<longleftrightarrow>
     map fst (commits t) = fetched t \<and>
     processed_under t = map (\<lambda>m. extractKafka ext ctx (km_headers m)) (fetched t) \<and>
     started t = ended t \<and> length (closes t) = 1 \<and>
     accounted NewMetrics t (length (fetched t)) (map snd (commits t))"

context kafka_world
begin

lemma run_kafka:
  assumes "new_reader cfg = rd"
  shows "\<exists>t err e'. RunKafka new_reader ins ctx cfg NewMetrics lg e = Some (Some err, e') \<and> step t e e' \<and>
    stopped err e' \<and> kafka_run_ok (in_extract ins) lg ctx t"
proof -
  let ?fs = "[pF ''topic'' (AStr (kc_Topic cfg)), pF ''group'' (AStr (kc_GroupID cfg))]"
  let ?e1 = "log_ctx ins InfoLevel lg ctx ''consuming messages from Kafka'' ?fs e"
  note first = step_log [of InfoLevel lg ctx "''consuming messages from Kafka''" ?fs e]
  obtain e2 t err where loop: "kafka_loop ins rd NewMetrics lg ctx ?e1 = Some e2"
    "kafka_trace (in_extract ins) NewMetrics lg ctx t" "step t ?e1 e2" "stopped err e2"
    using kafka_loop_ends [of NewMetrics lg ctx ?e1] unfolding ends_run_def by blast
  obtain e3 where e3: "in_ctx_err ins e2 = (Some err, e3)" "step [] e2 e3" "stopped err e3"
    using ctx_err_stopped [OF loop(4)] by blast
  obtain res e4 where e4: "kr_close rd e3 = (res, e4)" by fastforce
  note until = moves_trans [OF first moves_trans [OF loop(3) moves_trans [OF e3(2) close [OF e4]]]]
  let ?warn = "case res of None \<Rightarrow> [] | Some cerr \<Rightarrow>
    log_events WarnLevel lg ctx ''failed to close Kafka reader'' [pF ''error'' (AStr (error_text cerr))]"
  let ?e5 = "case res of None \<Rightarrow> e4 | Some cerr \<Rightarrow>
    log_ctx ins WarnLevel lg ctx ''failed to close Kafka reader'' [pF ''error'' (AStr (error_text cerr))] e4"
  let ?t = "(log_events InfoLevel lg ctx ''consuming messages from Kafka'' ?fs @ t @ [] @ [EvClose res]) @ ?warn"
  have "step ?warn e4 ?e5" using step_log by (cases res) simp_all
  note whole = moves_trans [OF until this]
  have "RunKafka new_reader ins ctx cfg NewMetrics lg e = Some (Some err, ?e5)"
    using loop(1) e3(1) e4 by (simp add: RunKafka_def assms)
  moreover have "stopped err ?e5"
    using step_stopped [OF moves_trans [OF close [OF e4] \<open>step ?warn e4 ?e5\<close>] e3(3)] .
  moreover have "kafka_run_ok (in_extract ins) lg ctx ?t"
    using kafka_trace_accounts [OF loop(2)]
    by (cases res) (simp_all add: kafka_run_ok_def accounted_def)
  ultimately show ?thesis using whole by blast
qed

end

definition sqs_run_ok where
  "sqs_run_ok url t \<longleftrightarrow>
     map fst (deletes t) = map (\<lambda>m. \<lparr>di_queue = url, di_receipt = sq_receipt m\<rparr>) (delivered t) \<and>
     spans_balanced t \<and> accounted NewMetrics t (length (delivered t)) (map snd (deletes t))"

context sqs_world
begin

lemma run_sqs:
  "\<exists>t err e'. RunSQS ins ctx client url NewMetrics lg e = Some (Some err, e') \<and> step t e e' \<and>
    stopped err e' \<and> sqs_run_ok url t"
proof -
  let ?e1 = "log_ctx ins InfoLevel lg ctx ''polling messages from SQS queue'' [pF ''queue_url'' (AStr url)] e"
  note first = step_log [of InfoLevel lg ctx "''polling messages from SQS queue''" "[pF ''queue_url'' (AStr url)]" e]
  obtain e2 t err where loop: "sqs_loop ins client url NewMetrics lg ctx ?e1 = Some e2"
    "sqs_trace (in_extract ins) NewMetrics lg url ctx t" "step t ?e1 e2" "stopped err e2"
    using sqs_loop_ends [of NewMetrics lg url ctx ?e1] unfolding ends_run_def by blast
  obtain e3 where e3: "in_ctx_err ins e2 = (Some err, e3)" "step [] e2 e3" "stopped err e3"
    using ctx_err_stopped [OF loop(4)] by blast
  have "RunSQS ins ctx client url NewMetrics lg e = Some (Some err, e3)"
    using loop(1) e3(1) by (simp add: RunSQS_def)
  moreover have "sqs_run_ok url (log_events InfoLevel lg ctx ''polling messages from SQS queue'' [pF ''queue_url'' (AStr url)] @ t @ [])"
    using sqs_trace_accounts [OF loop(2)] by (simp add: sqs_run_ok_def accounted_def spans_balanced_def)
  ultimately show ?thesis using moves_trans [OF first moves_trans [OF loop(3) e3(2)]] e3(3) by blast
qed

end

subsection \<open>A scripted world\<close>

text \<open>
  An instance of the interfaces: messages and outcomes of acknowledgements come from lists; the
  signal arrives when the messages are used up, or after \<open>sc_left\<close> looks at the context.
\<close>

record script =
  sc_left :: nat
  sc_fetches :: "(goerr + kafka_message) list"
  sc_batches :: "(goerr + sqs_message list) list"
  sc_acks :: "goerr option list"
  sc_span :: nat
  sc_obs :: "(string list, nat) event list"

definition canceled :: goerr where
  "canceled = Opaque ''context canceled''"

definition observe :: "(string list, nat) event \<Rightarrow> script \<Rightarrow> script" where
  "observe ev e = e\<lparr>sc_obs := sc_obs e @ [ev]\<rparr>"

definition script_stopped :: "goerr \<Rightarrow> script \<Rightarrow> bool" where
  "script_stopped err e \<longleftrightarrow> sc_left e = 0 \<and> err = canceled"

definition script_ack :: "script \<Rightarrow> goerr option \<times> script" where
  "script_ack e = (case sc_acks e of [] \<Rightarrow> (None, e) | r # rs \<Rightarrow> (r, e\<lparr>sc_acks := rs\<rparr>))"

definition script_instruments :: "(string list, nat, script) instruments" where
  "script_instruments =
     \<lparr>in_ctx_err = (\<lambda>e. if sc_left e = 0 then (Some canceled, e) else (None, e\<lparr>sc_left := sc_left e - 1\<rparr>)),
      in_start = (\<lambda>c n e. (n # c, sc_span e, observe (EvStart c n (sc_span e)) (e\<lparr>sc_span := Suc (sc_span e)\<rparr>))),
      in_record_error = (\<lambda>s err. observe (EvError s err)),
      in_end = (\<lambda>s. observe (EvEnd s)),
      in_add = (\<lambda>n i c. observe (EvAdd n i)),
      in_write = (\<lambda>entry lv msg. observe (EvWrite entry lv msg)),
      in_extract = (\<lambda>get keys c. get ''traceparent'' # c)\<rparr>"

definition script_reader :: "kafka_config \<Rightarrow> (string list, script) kafka_reader" where
  "script_reader cfg =
     \<lparr>kr_fetch = (\<lambda>c e. case sc_fetches e of
         [] \<Rightarrow> (Inl canceled, observe (EvFetch (Inl canceled)) (e\<lparr>sc_left := 0\<rparr>))
       | f # fs \<Rightarrow> (f, observe (EvFetch f) (e\<lparr>sc_fetches := fs\<rparr>))),
      kr_commit = (\<lambda>c m e. let (res, e1) = script_ack e in (res, observe (EvCommit m res) e1)),
      kr_close = (\<lambda>e. (None, observe (EvClose None) e))\<rparr>"

definition script_client :: "(string list, script) sqs_client" where
  "script_client =
     \<lparr>sc_receive = (\<lambda>c inp e. case sc_batches e of
         [] \<Rightarrow> (Inl canceled, observe (EvReceive inp (Inl canceled)) (e\<lparr>sc_left := 0\<rparr>))
       | f # fs \<Rightarrow> (f, observe (EvReceive inp f) (e\<lparr>sc_batches := fs\<rparr>))),
      sc_delete = (\<lambda>c d e. let (res, e1) = script_ack e in (res, observe (EvDelete d res) e1))\<rparr>"

lemmas script_defs = script_instruments_def script_reader_def script_client_def script_ack_def observe_def
  script_stopped_def moves_def

interpretation script: observed_world script_instruments sc_obs sc_left script_stopped
  by unfold_locales (auto simp: script_defs split: if_splits)

interpretation script_kafka: kafka_world script_instruments sc_obs sc_left script_stopped "script_reader cfg"
  by unfold_locales (auto simp: script_defs Let_def split: if_splits list.splits)

interpretation script_sqs: sqs_world script_instruments sc_obs sc_left script_stopped script_client
  by unfold_locales (auto simp: script_defs Let_def split: if_splits list.splits)


lemma accounted_sum:
  assumes "accounted mt t n acks" "length acks = n"
  shows "added (Received mt) t = added (Processed mt) t + added (Failed mt) t"
proof -
  have "length (filter (\<lambda>r. r = None) acks) + length (filter (\<lambda>r. r \<noteq> None) acks) = length acks"
    by (rule sum_length_filter_compl)
  with assms show ?thesis by (simp add: accounted_def)
qed

subsection \<open>Properties\<close>

text \<open>C30: Over a run of the Kafka consumer every fetched message is committed exactly once, in the order of the
  fetches and under a span whose parent is the context its headers carry; the counters agree
  with what happened (received is processed plus failed, failed counts the commits that failed);
  every span that was started was ended, in the same order; and the reader is closed once.\<close>

theorem kafka_accounting:
  assumes "kafka_world ins obs left stopped (new_reader cfg)"
    and "RunKafka new_reader ins ctx cfg NewMetrics lg e = Some (r, e')"
  shows "\<exists>t. obs e' = obs e @ t \<and> map fst (commits t) = fetched t \<and>
    processed_under t = map (\<lambda>m. extractKafka (in_extract ins) ctx (km_headers m)) (fetched t) \<and>
    started t = ended t \<and> length (closes t) = 1 \<and>
    added (Received NewMetrics) t = added (Processed NewMetrics) t + added (Failed NewMetrics) t \<and>
    accounted NewMetrics t (length (fetched t)) (map snd (commits t))"
proof -
  obtain t where t: "moves obs left stopped t e e'" "kafka_run_ok (in_extract ins) lg ctx t"
    using kafka_world.run_kafka [OF assms(1), where new_reader = new_reader and cfg = cfg, OF refl, where lg = lg and ctx = ctx and e = e] assms(2) by auto
  then have "length (map snd (commits t)) = length (fetched t)"
    by (simp add: kafka_run_ok_def flip: length_map [of fst])
  from accounted_sum [OF _ this] t show ?thesis
    unfolding kafka_run_ok_def moves_def by blast
qed

text \<open>C31: Over a run of the SQS consumer every delivered message is deleted exactly once, with its own
  receipt and from the queue it came from, in the order of delivery; the counters agree with the
  deliveries and the outcomes of the deletions; and every span that was started was ended once.\<close>

theorem sqs_accounting:
  assumes "sqs_world ins obs left stopped client"
    and "RunSQS ins ctx client url NewMetrics lg e = Some (r, e')"
  shows "\<exists>t. obs e' = obs e @ t \<and>
    map fst (deletes t) = map (\<lambda>m. \<lparr>di_queue = url, di_receipt = sq_receipt m\<rparr>) (delivered t) \<and>
    spans_balanced t \<and>
    added (Received NewMetrics) t = added (Processed NewMetrics) t + added (Failed NewMetrics) t \<and>
    accounted NewMetrics t (length (delivered t)) (map snd (deletes t))"
proof -
  obtain t where t: "moves obs left stopped t e e'" "sqs_run_ok url t"
    using sqs_world.run_sqs [OF assms(1), where lg = lg and ctx = ctx and e = e and url = url] assms(2) by auto
  then have "map fst (deletes t) = map (\<lambda>m. \<lparr>di_queue = url, di_receipt = sq_receipt m\<rparr>) (delivered t)"
    by (simp add: sqs_run_ok_def)
  from arg_cong [OF this, of length] have "length (map snd (deletes t)) = length (delivered t)" by simp
  from accounted_sum [OF _ this] t show ?thesis
    unfolding sqs_run_ok_def moves_def by blast
qed

text \<open>C32: A consumer returns once the context is cancelled, whatever the queue answered before: with an
  error, never nil, and it is the one the context was cancelled with.\<close>

theorem consumers_return:
  assumes "kafka_world ins obs left stopped (new_reader cfg)" "sqs_world ins obs left stopped client"
  shows "(\<exists>err e'. RunKafka new_reader ins ctx cfg NewMetrics lg e = Some (Some err, e') \<and> stopped err e') \<and>
    (\<exists>err e'. RunSQS ins ctx client url NewMetrics lg e = Some (Some err, e') \<and> stopped err e')"
  using kafka_world.run_kafka [OF assms(1), where new_reader = new_reader and cfg = cfg, OF refl, where lg = lg and ctx = ctx and e = e]
    sqs_world.run_sqs [OF assms(2), where lg = lg and ctx = ctx and e = e and url = url] by blast

subsection \<open>Witnesses\<close>

definition sample_kafka_message :: kafka_message where
  "sample_kafka_message = \<lparr>km_key = ''vm-001'', km_value = ''{}'', km_headers = []\<rparr>"

definition sample_sqs_message :: sqs_message where
  "sample_sqs_message = \<lparr>sq_body = Some ''{}'', sq_receipt = Some ''r1'', sq_attributes = []\<rparr>"

text \<open>Two messages and an error of the queue between them; the first acknowledgement fails.\<close>

definition sample_script :: script where
  "sample_script = \<lparr>sc_left = 9,
     sc_fetches = [Inr sample_kafka_message, Inl (Opaque ''broker down''), Inr sample_kafka_message],
     sc_batches = [Inr [sample_sqs_message, sample_sqs_message]], sc_acks = [Some (Opaque ''timeout''), None],
     sc_span = 0, sc_obs = []\<rparr>"

definition sample_kafka_config :: kafka_config where
  "sample_kafka_config = \<lparr>kc_Brokers = [''localhost:9092''], kc_Topic = ''resource-provisioning'',
     kc_GroupID = ''resource-provisioner''\<rparr>"

definition sample_p_logger :: "string list p_logger" where
  "sample_p_logger = PNop"

declare kafka_loop.simps [code] sqs_loop.simps [code]

definition outcome :: "(goerr option \<times> script) option \<Rightarrow> (goerr option \<times> nat \<times> nat \<times> goerr option list \<times> goerr option list) option" where
  "outcome = map_option (\<lambda>(r, e'). (r, length (fetched (sc_obs e')), length (delivered (sc_obs e')),
     map snd (commits (sc_obs e')), map snd (deletes (sc_obs e'))))"

lemma sample_kafka_run:
  "outcome (RunKafka script_reader script_instruments [] sample_kafka_config NewMetrics sample_p_logger sample_script) =
     Some (Some canceled, 2, 0, [Some (Opaque ''timeout''), None], [])"
  by code_simp

lemma sample_sqs_run:
  "outcome (RunSQS script_instruments [] script_client ''url'' NewMetrics sample_p_logger sample_script) =
     Some (Some canceled, 0, 2, [], [Some (Opaque ''timeout''), None])"
  by code_simp

theorem kafka_accounting_witness:
  "\<exists>r e'. RunKafka script_reader script_instruments [] sample_kafka_config NewMetrics sample_p_logger sample_script = Some (r, e') \<and>
     map fst (commits (sc_obs e')) = fetched (sc_obs e') \<and> length (fetched (sc_obs e')) = 2 \<and>
     added (Failed NewMetrics) (sc_obs e') = 1"
proof -
  obtain e' where e': "RunKafka script_reader script_instruments [] sample_kafka_config NewMetrics sample_p_logger sample_script =
      Some (Some canceled, e')" "length (fetched (sc_obs e')) = 2" "map snd (commits (sc_obs e')) = [Some (Opaque ''timeout''), None]"
    using sample_kafka_run by (auto simp: outcome_def)
  have "sc_obs sample_script = []" by (simp add: sample_script_def)
  then show ?thesis
    using kafka_accounting [where new_reader = script_reader and cfg = sample_kafka_config,
        OF script_kafka.kafka_world_axioms e'(1)] e' by (auto simp: accounted_def)
qed

theorem sqs_accounting_witness:
  "\<exists>r e'. RunSQS script_instruments [] script_client ''url'' NewMetrics sample_p_logger sample_script = Some (r, e') \<and>
     length (deletes (sc_obs e')) = 2 \<and> spans_balanced (sc_obs e') \<and> added (Failed NewMetrics) (sc_obs e') = 1"
proof -
  obtain e' where e': "RunSQS script_instruments [] script_client ''url'' NewMetrics sample_p_logger sample_script =
      Some (Some canceled, e')" "length (delivered (sc_obs e')) = 2" "map snd (deletes (sc_obs e')) = [Some (Opaque ''timeout''), None]"
    using sample_sqs_run by (auto simp: outcome_def)
  have "sc_obs sample_script = []" by (simp add: sample_script_def)
  moreover have "length (deletes (sc_obs e')) = 2" using arg_cong [OF e'(3), of length] by simp
  ultimately show ?thesis
    using sqs_accounting [OF script_sqs.sqs_world_axioms e'(1)] e' by (auto simp: accounted_def)
qed

theorem consumers_return_witness:
  "(\<exists>err e'. RunKafka script_reader script_instruments [] sample_kafka_config NewMetrics sample_p_logger sample_script = Some (Some err, e') \<and> err = canceled) \<and>
   (\<exists>err e'. RunSQS script_instruments [] script_client ''url'' NewMetrics sample_p_logger sample_script = Some (Some err, e') \<and> err = canceled)"
  using consumers_return [of script_instruments sc_obs sc_left script_stopped script_reader sample_kafka_config script_client,
      OF script_kafka.kafka_world_axioms script_sqs.sqs_world_axioms,
      where ctx = "[]" and lg = sample_p_logger and e = sample_script and url = "''url''"]
  unfolding script_stopped_def by blast

end
