(* ===== verification/Api_Config.thy ===== *)
theory Api_Config
  imports Domain_Errors Go_Time
begin

text \<open>
  \<open>services/api/internal/config/config.go\<close>: the configuration read from the environment, its
  options and its validation, with the package's own \<open>splitString\<close> and \<open>trimSpace\<close> as the
  index loops they are; and the parsers of the standard library behind it. The environment is
  a finite map; \<open>os.Getenv\<close> gives the empty string for a name that is not in it. The float
  arithmetic of \<open>time.ParseDuration\<close> on digits behind a point is an argument.
\<close>

subsection \<open>strconv.ParseBool and time.ParseDuration\<close>

definition parse_bool :: "string \<Rightarrow> bool option" where
  "parse_bool s =
     (if s \<in> {''1'', ''t'', ''T'', ''true'', ''TRUE'', ''True''} then Some True
      else if s \<in> {''0'', ''f'', ''F'', ''false'', ''FALSE'', ''False''} then Some False
      else None)"

definition micro_signs :: "string list" where
  "micro_signs = [[char_of (0xC2::nat), char_of (0xB5::nat)], [char_of (0xCE::nat), char_of (0xBC::nat)]]"

definition unit_ns :: "string \<Rightarrow> nat option" where
  "unit_ns u =
     (if u = ''ns'' then Some 1
      else if u = ''us'' \<or> u \<in> set (map (\<lambda>m. m @ ''s'') micro_signs) then Some 1000
      else if u = ''ms'' then Some 1000000
      else if u = ''s'' then Some 1000000000
      else if u = ''m'' then Some 60000000000
      else if u = ''h'' then Some 3600000000000
      else None)"

text \<open>\<open>leadingInt\<close>: the value of the leading digits, an error above \<open>2 ^ 63\<close>.\<close>

fun leading_int :: "nat \<Rightarrow> string \<Rightarrow> (nat \<times> string) option" where
  "leading_int x [] = Some (x, [])"
| "leading_int x (c # s) =
     (if \<not> is_digit c then Some (x, c # s)
      else if x > 2 ^ 63 div 10 then None
      else let x' = 10 * x + (byte c - 48)
           in if x' > 2 ^ 63 then None else leading_int x' s)"

text \<open>\<open>leadingFraction\<close>: the digits kept, their number, the rest; digits that would overflow are skipped.\<close>

fun leading_fraction :: "nat \<Rightarrow> nat \<Rightarrow> bool \<Rightarrow> string \<Rightarrow> nat \<times> nat \<times> string" where
  "leading_fraction x k over [] = (x, k, [])"
| "leading_fraction x k over (c # s) =
     (if \<not> is_digit c then (x, k, c # s)
      else if over then leading_fraction x k True s
      else if x > (2 ^ 63 - 1) div 10 then leading_fraction x k True s
      else let y = 10 * x + (byte c - 48)
           in if y > 2 ^ 63 then leading_fraction x k True s else leading_fraction y (Suc k) False s)"

definition unit_char :: "char \<Rightarrow> bool" where
  "unit_char c \<longleftrightarrow> c \<noteq> CHR ''.'' \<and> \<not> is_digit c"

text \<open>
  One round of the loop: a number and its unit, in nanoseconds. \<open>frac f unit k\<close> is what the
  library computes for the \<open>k\<close> digits \<open>f\<close> behind the point, \<open>uint64(float64(f) * (float64(unit) / scale))\<close>.
\<close>

definition duration_part :: "(nat \<Rightarrow> nat \<Rightarrow> nat \<Rightarrow> nat) \<Rightarrow> string \<Rightarrow> (nat \<times> string) option" where
  "duration_part frac s =
     (case leading_int 0 s of
        None \<Rightarrow> None
      | Some (v, s1) \<Rightarrow>
          (let pre = (length s \<noteq> length s1);
               dot = (s1 \<noteq> [] \<and> hd s1 = CHR ''.'');
               (f, k, s2) = (if dot then leading_fraction 0 0 False (tl s1) else (0, 0, s1));
               post = (dot \<and> length (tl s1) \<noteq> length s2);
               u = takeWhile unit_char s2
           in if \<not> pre \<and> \<not> post then None
              else case unit_ns u of
                None \<Rightarrow> None
              | Some n \<Rightarrow>
                  if v > 2 ^ 63 div n then None
                  else let t = v * n + (if f > 0 then frac f n k else 0)
                       in if t > 2 ^ 63 then None else Some (t, dropWhile unit_char s2)))"

lemma leading_int_length: "leading_int x s = Some (v, t) \<Longrightarrow> length t \<le> length s"
  by (induction x s rule: leading_int.induct) (auto simp: Let_def split: if_splits)

lemma leading_fraction_length: "leading_fraction x k b s = (v, k', t) \<Longrightarrow> length t \<le> length s"
  by (induction x k b s rule: leading_fraction.induct) (force simp: Let_def le_Suc_eq split: if_splits)+

lemma unit_ns_nonempty: "unit_ns u = Some n \<Longrightarrow> u \<noteq> []"
  by (auto simp: unit_ns_def micro_signs_def)

lemma duration_part_shorter:
  assumes "duration_part frac s = Some (t, s')"
  shows "length s' < length s"
proof -
  have shorter: "length (dropWhile unit_char r) < length r" if "unit_ns (takeWhile unit_char r) = Some n" for r n
    using unit_ns_nonempty [OF that] by (cases r) (auto simp: length_dropWhile_le less_Suc_eq_le split: if_splits)
  show ?thesis
    using assms shorter
    by (fastforce simp: duration_part_def Let_def split: option.splits prod.splits if_splits
        dest: leading_int_length leading_fraction_length)
qed

function duration_parts :: "(nat \<Rightarrow> nat \<Rightarrow> nat \<Rightarrow> nat) \<Rightarrow> nat \<Rightarrow> string \<Rightarrow> nat option" where
  "duration_parts frac d s =
     (if s = [] then Some d
      else case duration_part frac s of
        None \<Rightarrow> None
      | Some (t, s') \<Rightarrow>
          (let d' = (d + t) mod 2 ^ 64 in if d' > 2 ^ 63 then None else duration_parts frac d' s'))"
  by pat_completeness auto
termination
  by (relation "measure (\<lambda>(frac, d, s). length s)") (auto dest: duration_part_shorter)

declare duration_parts.simps [simp del]

definition parse_duration :: "(nat \<Rightarrow> nat \<Rightarrow> nat \<Rightarrow> nat) \<Rightarrow> string \<Rightarrow> duration option" where
  "parse_duration frac s =
     (let neg = (s \<noteq> [] \<and> hd s = CHR ''-'');
          r = (if s \<noteq> [] \<and> hd s \<in> {CHR ''-'', CHR ''+''} then tl s else s)
      in if r = ''0'' then Some 0
         else if r = [] then None
         else case duration_parts frac 0 r of
           None \<Rightarrow> None
         | Some d \<Rightarrow> if neg then Some (- int d) else if d > 2 ^ 63 - 1 then None else Some (int d))"


text \<open>A parsed duration is an \<open>int64\<close>.\<close>

lemma duration_parts_bound:
  "duration_parts frac d s = Some n \<Longrightarrow> d \<le> 2 ^ 63 \<Longrightarrow> n \<le> 2 ^ 63"
proof (induction frac d s rule: duration_parts.induct)
  case (1 frac d s)
  show ?case
  proof (cases "s = []")
    case True
    with "1.prems" show ?thesis by (simp add: duration_parts.simps)
  next
    case False
    then obtain t s' where t: "duration_part frac s = Some (t, s')" "(d + t) mod 2 ^ 64 \<le> 2 ^ 63"
      "duration_parts frac ((d + t) mod 2 ^ 64) s' = Some n"
      using "1.prems"(1) by (subst (asm) duration_parts.simps) (auto simp: Let_def split: option.splits if_splits)
    then show ?thesis using "1.IH" [OF False t(1) refl refl] by simp
  qed
qed

lemma parse_duration_range: "parse_duration frac s = Some d \<Longrightarrow> go_int d"
  using duration_parts_bound [of frac 0 "if s \<noteq> [] \<and> hd s \<in> {CHR ''-'', CHR ''+''} then tl s else s"]
  by (auto simp: parse_duration_def go_int_def Let_def split: option.splits if_splits)

subsection \<open>splitString, trimSpace and splitAndTrim\<close>

text \<open>
  The loop of \<open>splitString\<close> with its variables \<open>start\<close>, \<open>i\<close> and \<open>result\<close>. The guard on the
  separator is the early return of the function: it is never empty here.
\<close>

function split_loop :: "string \<Rightarrow> string \<Rightarrow> nat \<Rightarrow> nat \<Rightarrow> string list \<Rightarrow> string list" where
  "split_loop s sep start i result =
     (if sep \<noteq> [] \<and> i + length sep \<le> length s
      then if take (length sep) (drop i s) = sep
           then split_loop s sep (i + length sep) (i + length sep) (result @ [take (i - start) (drop start s)])
           else split_loop s sep start (i + 1) result
      else result @ [drop start s])"
  by pat_completeness auto
termination
  by (relation "measure (\<lambda>(s, sep, start, i, result). length s + 1 - i)") (auto simp flip: length_greater_0_conv)

declare split_loop.simps [simp del]

definition splitString :: "string \<Rightarrow> string \<Rightarrow> string list" where
  "splitString s sep = (if length sep = 0 then [s] else split_loop s sep 0 0 [])"

definition space_byte :: "char \<Rightarrow> bool" where
  "space_byte c \<longleftrightarrow> c = CHR '' '' \<or> c = CHR 0x09 \<or> c = CHR 0x0A \<or> c = CHR 0x0D"

function trim_start :: "string \<Rightarrow> nat \<Rightarrow> nat \<Rightarrow> nat" where
  "trim_start s start e = (if start < e \<and> space_byte (s ! start) then trim_start s (start + 1) e else start)"
  by pat_completeness auto
termination by (relation "measure (\<lambda>(s, start, e). e - start)") auto

fun trim_end :: "string \<Rightarrow> nat \<Rightarrow> nat \<Rightarrow> nat" where
  "trim_end s start e = (if e > start \<and> space_byte (s ! (e - 1)) then trim_end s start (e - 1) else e)"

declare trim_start.simps [simp del] trim_end.simps [simp del]

definition trimSpace :: "string \<Rightarrow> string" where
  "trimSpace s =
     (let start = trim_start s 0 (length s); e = trim_end s start (length s)
      in take (e - start) (drop start s))"

definition splitAndTrim :: "string \<Rightarrow> string \<Rightarrow> string list" where
  "splitAndTrim s sep =
     fold (\<lambda>part result. let trimmed = trimSpace part
                         in if trimmed \<noteq> '''' then result @ [trimmed] else result)
       (splitString s sep) []"


subsection \<open>What splitting and trimming compute\<close>

fun join_str :: "string \<Rightarrow> string list \<Rightarrow> string" where
  "join_str sep [] = []"
| "join_str sep [p] = p"
| "join_str sep (p # ps) = p @ sep @ join_str sep ps"

lemma join_str_Cons: "ps \<noteq> [] \<Longrightarrow> join_str sep (p # ps) = p @ sep @ join_str sep ps"
  by (cases ps) auto

lemma no_occurrence:
  assumes "\<forall>j. start \<le> j \<and> j < i \<longrightarrow> take (length sep) (drop j s) \<noteq> sep"
    and "drop start s = p @ r" "start \<le> length s" "start + length p < i + length sep"
  shows "\<not> contains sep p"
proof
  assume "contains sep p"
  then obtain a b where p: "p = a @ sep @ b" by (auto simp: contains_sublist sublist_def)
  have "drop (start + length a) s = drop (length a) (drop start s)" by (simp add: add.commute)
  also have "\<dots> = sep @ b @ r" using assms(2) p by simp
  finally have "take (length sep) (drop (start + length a) s) = sep" by simp
  moreover have "start + length a < i" using assms(4) p by simp
  ultimately show False using assms(1) by simp
qed

lemma split_loop_pieces:
  assumes "sep \<noteq> []" "start \<le> i" "start \<le> length s"
    and "\<forall>j. start \<le> j \<and> j < i \<longrightarrow> take (length sep) (drop j s) \<noteq> sep"
  shows "\<exists>ps. split_loop s sep start i result = result @ ps \<and> ps \<noteq> [] \<and> join_str sep ps = drop start s \<and>
    (\<forall>p\<in>set ps. \<not> contains sep p)"
  using assms
proof (induction s sep start i result rule: split_loop.induct)
  case (1 s sep start i result)
  note nonempty = "1.prems"(1) and bounds = "1.prems"(2,3) and none = "1.prems"(4)
  show ?case
  proof (cases "i + length sep \<le> length s")
    case False
    moreover have "\<not> contains sep (drop start s)"
      by (rule no_occurrence [OF none, of _ "[]"]) (use False bounds in auto)
    ultimately show ?thesis by (subst split_loop.simps) auto
  next
    case True
    show ?thesis
    proof (cases "take (length sep) (drop i s) = sep")
      case False
      have "\<forall>j. start \<le> j \<and> j < i + 1 \<longrightarrow> take (length sep) (drop j s) \<noteq> sep"
        using none False by (metis less_Suc_eq Suc_eq_plus1)
      with "1.IH"(2) [OF _ False nonempty] True False nonempty bounds show ?thesis
        by (subst split_loop.simps) simp
    next
      case match: True
      let ?p = "take (i - start) (drop start s)" and ?next = "i + length sep"
      obtain ps where ps: "split_loop s sep ?next ?next (result @ [?p]) = (result @ [?p]) @ ps" "ps \<noteq> []"
        "join_str sep ps = drop ?next s" "\<forall>p\<in>set ps. \<not> contains sep p"
        using "1.IH"(1) [OF _ match nonempty] True nonempty by auto
      have rest: "drop i s = sep @ drop ?next s"
        using append_take_drop_id [of "length sep" "drop i s"] match by (simp add: add.commute)
      have whole: "drop start s = ?p @ drop i s"
        using append_take_drop_id [of "i - start" "drop start s"] bounds by simp
      have "\<not> contains sep ?p"
        by (rule no_occurrence [OF none whole]) (use bounds nonempty True in auto)
      moreover have "join_str sep (?p # ps) = drop start s"
        using ps(2,3) rest whole by (simp add: join_str_Cons)
      ultimately show ?thesis
        using ps(1,2,4) match True nonempty by (subst split_loop.simps) (auto intro!: exI [of _ "?p # ps"])
    qed
  qed
qed

lemma splitString_pieces:
  assumes "sep \<noteq> []"
  shows "splitString s sep \<noteq> []" "join_str sep (splitString s sep) = s"
    "p \<in> set (splitString s sep) \<Longrightarrow> \<not> contains sep p"
  using split_loop_pieces [OF assms, of 0 0 s "[]"] assms by (auto simp: splitString_def)

lemma split_join_byte:
  "ps \<noteq> [] \<Longrightarrow> \<forall>p\<in>set ps. \<not> contains [c] p \<Longrightarrow> split_byte c (join_str [c] ps) = ps"
proof (induction ps)
  case (Cons p ps)
  then have "c \<notin> set p" by (fastforce simp: contains_sublist sublist_def in_set_conv_decomp)
  with Cons show ?case
    by (cases "ps = []") (simp_all add: join_str_Cons split_byte_cons split_byte_single)
qed simp

lemma splitString_byte: "splitString s [c] = split_byte c s"
proof -
  have ne: "[c] \<noteq> []" by simp
  note pieces = splitString_pieces [OF ne]
  show ?thesis
    using split_join_byte [OF pieces(1), of s c] pieces(2,3) by auto
qed


text \<open>The two loops of \<open>trimSpace\<close> drop the white space of either end.\<close>

definition trim_both :: "(char \<Rightarrow> bool) \<Rightarrow> string \<Rightarrow> string" where
  "trim_both P s = rev (dropWhile P (rev (dropWhile P s)))"

lemma trim_start_le: "i \<le> length s \<Longrightarrow> trim_start s i (length s) \<le> length s"
  by (induction s i "length s" rule: trim_start.induct) (subst trim_start.simps, simp)

lemma trim_start_drop:
  "i \<le> length s \<Longrightarrow> drop (trim_start s i (length s)) s = dropWhile space_byte (drop i s)"
proof (induction s i "length s" rule: trim_start.induct)
  case (1 s i)
  show ?case
  proof (cases "i < length s")
    case True
    then have "drop i s = s ! i # drop (i + 1) s" by (simp add: Cons_nth_drop_Suc)
    with 1 True show ?thesis by (subst trim_start.simps) simp
  next
    case False
    with 1 show ?thesis by (subst trim_start.simps) simp
  qed
qed

lemma trim_end_take:
  assumes "start \<le> e" "e \<le> length s"
  shows "take (trim_end s start e - start) (drop start s) =
    rev (dropWhile space_byte (rev (take (e - start) (drop start s))))"
  using assms
proof (induction s start e rule: trim_end.induct)
  case (1 s start e)
  show ?case
  proof (cases "start < e")
    case True
    then obtain k where e: "e = Suc (start + k)" by (metis less_iff_Suc_add)
    have "take (Suc k) (drop start s) = take k (drop start s) @ [s ! (start + k)]"
      using 1 e by (simp add: take_Suc_conv_app_nth)
    with 1 True e show ?thesis by (subst trim_end.simps) simp
  next
    case False
    with 1 show ?thesis by (subst trim_end.simps) simp
  qed
qed

lemma trimSpace_both: "trimSpace s = trim_both space_byte s"
proof -
  let ?start = "trim_start s 0 (length s)"
  have "?start \<le> length s" using trim_start_le [of 0 s] by simp
  then show ?thesis
    using trim_end_take [of ?start "length s" s]
    by (simp add: trimSpace_def trim_both_def Let_def flip: trim_start_drop [of 0 s, simplified])
qed

lemma trim_both_ends:
  assumes "trim_both P s \<noteq> []"
  shows "\<not> P (hd (trim_both P s))" "\<not> P (last (trim_both P s))"
proof -
  let ?l = "dropWhile P s" and ?t = "dropWhile P (rev (dropWhile P s))"
  have t: "?t \<noteq> []" using assms by (simp add: trim_both_def)
  then show "\<not> P (last (trim_both P s))"
    using hd_dropWhile [of P "rev ?l"] by (simp add: trim_both_def last_rev)
  have l: "?l \<noteq> []" using t by (metis dropWhile.simps(1) rev.simps(1))
  obtain a where a: "rev ?l = a @ ?t" using suffix_dropWhile [of P "rev ?l"] by (auto simp: suffix_def)
  then have "?l = rev ?t @ rev a" by (metis rev_append rev_rev_ident)
  then have "hd ?l = hd (rev ?t)" using t by (metis hd_append2 rev_is_Nil_conv)
  then show "\<not> P (hd (trim_both P s))"
    using hd_dropWhile [of P s] l by (simp only: trim_both_def) simp
qed

lemma splitAndTrim_filter: "splitAndTrim s sep = filter (\<lambda>t. t \<noteq> []) (map trimSpace (splitString s sep))"
proof -
  have "fold (\<lambda>part result. let trimmed = trimSpace part
                            in if trimmed \<noteq> '''' then result @ [trimmed] else result) ps acc =
      acc @ filter (\<lambda>t. t \<noteq> []) (map trimSpace ps)" for ps acc
    by (induction ps arbitrary: acc) (simp_all add: Let_def)
  then show ?thesis by (simp add: splitAndTrim_def)
qed


subsection \<open>The environment\<close>

text \<open>The text of the environment and the parser of durations are what the readers below are given.\<close>

record environment =
  env_vars :: "string \<rightharpoonup> string"
  env_frac :: "nat \<Rightarrow> nat \<Rightarrow> nat \<Rightarrow> nat"

definition getenv :: "environment \<Rightarrow> string \<Rightarrow> string" where
  "getenv env key = (case env_vars env key of None \<Rightarrow> '''' | Some v \<Rightarrow> v)"

definition getEnvOrDefault :: "environment \<Rightarrow> string \<Rightarrow> string \<Rightarrow> string" where
  "getEnvOrDefault env key defaultValue =
     (let v = getenv env key in if v \<noteq> '''' then v else defaultValue)"

definition getDurationEnv :: "environment \<Rightarrow> string \<Rightarrow> duration \<Rightarrow> duration" where
  "getDurationEnv env key defaultValue =
     (let v = getenv env key
      in if v \<noteq> '''' then (case parse_duration (env_frac env) v of Some d \<Rightarrow> d | None \<Rightarrow> defaultValue)
         else defaultValue)"

definition getIntEnv :: "environment \<Rightarrow> string \<Rightarrow> int \<Rightarrow> int" where
  "getIntEnv env key defaultValue =
     (let v = getenv env key
      in if v \<noteq> '''' then (case read_int v of Some i \<Rightarrow> i | None \<Rightarrow> defaultValue) else defaultValue)"

definition getBoolEnv :: "environment \<Rightarrow> string \<Rightarrow> bool \<Rightarrow> bool" where
  "getBoolEnv env key defaultValue =
     (let v = getenv env key
      in if v \<noteq> '''' then (case parse_bool v of Some b \<Rightarrow> b | None \<Rightarrow> defaultValue) else defaultValue)"

definition getSliceEnv :: "environment \<Rightarrow> string \<Rightarrow> string list \<Rightarrow> string list" where
  "getSliceEnv env key defaultValue =
     (let v = getenv env key in if v \<noteq> '''' then splitAndTrim v '','' else defaultValue)"

subsection \<open>The configuration\<close>

record messaging_config =
  KafkaBrokers :: "string list"
  KafkaTopic :: string

record server_config =
  Port :: string
  ReadTimeout :: duration
  WriteTimeout :: duration
  IdleTimeout :: duration
  ShutdownTimeout :: duration

record aws_config =
  Region :: string
  ProvisionerQueueParamKey :: string
  CognitoClientIDParamKey :: string
  RedisAddrParamKey :: string

record idempotency_config =
  RedisAddr :: string
  RedisPassword :: string
  RedisDB :: int
  ic_TTL :: duration
  ic_DialTimeout :: duration
  ic_ReadTimeout :: duration
  ic_WriteTimeout :: duration

record app_config =
  Environment :: string
  LogLevel :: string
  AllowedOrigins :: "string list"
  EnableTracing :: bool
  ServiceName :: string
  Version :: string

record config =
  cfg_Server :: server_config
  cfg_AWS :: aws_config
  cfg_App :: app_config
  cfg_Idempotency :: idempotency_config
  cfg_Messaging :: messaging_config

type_synonym config_option = "config \<Rightarrow> config"

definition default_config :: "environment \<Rightarrow> config" where
  "default_config env =
     \<lparr>cfg_Server =
        \<lparr>Port = getEnvOrDefault env ''PORT'' ''8080'',
         ReadTimeout = getDurationEnv env ''SERVER_READ_TIMEOUT'' (15 * second),
         WriteTimeout = getDurationEnv env ''SERVER_WRITE_TIMEOUT'' (15 * second),
         IdleTimeout = getDurationEnv env ''SERVER_IDLE_TIMEOUT'' (60 * second),
         ShutdownTimeout = getDurationEnv env ''SERVER_SHUTDOWN_TIMEOUT'' (30 * second)\<rparr>,
      cfg_AWS =
        \<lparr>Region = getEnvOrDefault env ''AWS_REGION'' ''us-east-1'',
         ProvisionerQueueParamKey = getEnvOrDefault env ''PROVISIONER_QUEUE_PARAM_KEY''
           ''/INTERNAL_DEVELOPER_PLATFORM/PROVISIONER_QUEUE_URL'',
         CognitoClientIDParamKey = getEnvOrDefault env ''COGNITO_CLIENT_ID_PARAM_KEY''
           ''/INTERNAL_DEVELOPER_PLATFORM/COGNITO_CLIENT_ID'',
         RedisAddrParamKey = getEnvOrDefault env ''REDIS_ADDR_PARAM_KEY''
           ''/INTERNAL_DEVELOPER_PLATFORM/REDIS_ADDR''\<rparr>,
      cfg_App =
        \<lparr>Environment = getEnvOrDefault env ''ENVIRONMENT'' ''dev'',
         LogLevel = getEnvOrDefault env ''LOG_LEVEL'' ''info'',
         AllowedOrigins = getSliceEnv env ''ALLOWED_ORIGINS'' [''*''],
         EnableTracing = getBoolEnv env ''ENABLE_TRACING'' True,
         ServiceName = getEnvOrDefault env ''SERVICE_NAME'' ''internal-developer-platform.api'',
         Version = getEnvOrDefault env ''SERVICE_VERSION'' ''''\<rparr>,
      cfg_Idempotency =
        \<lparr>RedisAddr = getEnvOrDefault env ''REDIS_ADDR'' '''',
         RedisPassword = getEnvOrDefault env ''REDIS_PASSWORD'' '''',
         RedisDB = getIntEnv env ''REDIS_DB'' 0,
         ic_TTL = getDurationEnv env ''IDEMPOTENCY_TTL'' (24 * hour),
         ic_DialTimeout = getDurationEnv env ''REDIS_DIAL_TIMEOUT'' (2 * second),
         ic_ReadTimeout = getDurationEnv env ''REDIS_READ_TIMEOUT'' (1 * second),
         ic_WriteTimeout = getDurationEnv env ''REDIS_WRITE_TIMEOUT'' (1 * second)\<rparr>,
      cfg_Messaging =
        \<lparr>KafkaBrokers = getSliceEnv env ''KAFKA_BROKERS'' [],
         KafkaTopic = getEnvOrDefault env ''KAFKA_TOPIC'' ''resource-provisioning''\<rparr>\<rparr>"

definition NewConfig :: "environment \<Rightarrow> config_option list \<Rightarrow> config" where
  "NewConfig env opts = fold (\<lambda>opt cfg. opt cfg) opts (default_config env)"

definition missing_config :: "string \<Rightarrow> goerr" where
  "missing_config what = Wrapped '''' (Sentinel ErrMissingConfig) ('': '' @ what)"

definition config_Validate :: "config \<Rightarrow> goerr option" where
  "config_Validate c =
     (if Port (cfg_Server c) = '''' then Some (missing_config ''server port'')
      else if ProvisionerQueueParamKey (cfg_AWS c) = '''' then
        Some (missing_config ''provisioner queue param key'')
      else if CognitoClientIDParamKey (cfg_AWS c) = '''' then
        Some (missing_config ''cognito client id param key'')
      else None)"

definition WithPort :: "string \<Rightarrow> config_option" where
  "WithPort port c = c\<lparr>cfg_Server := (cfg_Server c)\<lparr>Port := port\<rparr>\<rparr>"

definition WithEnvironment :: "string \<Rightarrow> config_option" where
  "WithEnvironment env c = c\<lparr>cfg_App := (cfg_App c)\<lparr>Environment := env\<rparr>\<rparr>"

definition WithLogLevel :: "string \<Rightarrow> config_option" where
  "WithLogLevel level c = c\<lparr>cfg_App := (cfg_App c)\<lparr>LogLevel := level\<rparr>\<rparr>"


subsection \<open>Properties\<close>

text \<open>C28: The package's own splitting and trimming agree with the library functions they stand for. For any
  separator that is not empty the pieces joined by it are the text and none of them contains it;
  for a separator of one byte they are the pieces of \<open>strings.Split\<close>; and \<open>splitAndTrim\<close> keeps the
  pieces that are not blank, without the white space at their ends.\<close>

theorem split_and_trim_reference:
  assumes "sep \<noteq> []"
  shows "join_str sep (splitString s sep) = s \<and> (\<forall>p\<in>set (splitString s sep). \<not> contains sep p) \<and>
    (\<forall>c. sep = [c] \<longrightarrow> splitString s sep = split_byte c s) \<and>
    splitAndTrim s sep = filter (\<lambda>t. t \<noteq> []) (map (trim_both space_byte) (splitString s sep))"
proof -
  have "trimSpace = trim_both space_byte" by (rule ext) (rule trimSpace_both)
  then show ?thesis
    using splitString_pieces(2,3) [OF assms] by (simp add: splitAndTrim_filter splitString_byte)
qed

theorem split_and_trim_reference_witness:
  "join_str '', '' (splitString ''a, b,, c'' '', '') = ''a, b,, c'' \<and>
   splitAndTrim ''a , b,,c'' '','' = [''a'', ''b'', ''c'']"
proof -
  have "splitString ''a , b,,c'' '','' = [''a '', '' b'', '''', ''c'']"
    using split_and_trim_reference [of "'',''" "''a , b,,c''"] by simp
  then show ?thesis
    using split_and_trim_reference [of "'', ''" "''a, b,, c''"]
      split_and_trim_reference [of "'',''" "''a , b,,c''"] by (simp add: trim_both_def space_byte_def)
qed

text \<open>The values of the readers, whatever the environment holds.\<close>

definition trimmed_entries :: "string list \<Rightarrow> bool" where
  "trimmed_entries ps \<longleftrightarrow> (\<forall>p\<in>set ps. p \<noteq> [] \<and> \<not> space_byte (hd p) \<and> \<not> space_byte (last p) \<and> \<not> contains '','' p)"

definition config_in_range :: "config \<Rightarrow> bool" where
  "config_in_range c \<longleftrightarrow>
     list_all go_int [ReadTimeout (cfg_Server c), WriteTimeout (cfg_Server c), IdleTimeout (cfg_Server c),
       ShutdownTimeout (cfg_Server c), RedisDB (cfg_Idempotency c), ic_TTL (cfg_Idempotency c),
       ic_DialTimeout (cfg_Idempotency c), ic_ReadTimeout (cfg_Idempotency c), ic_WriteTimeout (cfg_Idempotency c)] \<and>
     trimmed_entries (AllowedOrigins (cfg_App c)) \<and> trimmed_entries (KafkaBrokers (cfg_Messaging c))"

lemma getDurationEnv_range: "go_int d \<Longrightarrow> go_int (getDurationEnv env key d)"
  by (auto simp: getDurationEnv_def Let_def dest: parse_duration_range split: option.splits)

lemma read_int_range: "read_int s = Some i \<Longrightarrow> go_int i"
  by (auto simp: read_int_def Let_def split: option.splits if_splits)

lemma getIntEnv_range: "go_int d \<Longrightarrow> go_int (getIntEnv env key d)"
  by (auto simp: getIntEnv_def Let_def dest: read_int_range split: option.splits)

lemma sublist_trim_both: "sublist (trim_both P s) s"
proof -
  have "prefix (trim_both P s) (dropWhile P s)"
    using suffix_dropWhile [of P "rev (dropWhile P s)"] by (simp add: trim_both_def suffix_to_prefix)
  then show ?thesis
    by (meson prefix_imp_sublist suffix_dropWhile suffix_imp_sublist sublist_order.order_trans)
qed

lemma splitAndTrim_entries: "trimmed_entries (splitAndTrim s '','')"
proof -
  have "p \<noteq> [] \<and> \<not> space_byte (hd p) \<and> \<not> space_byte (last p) \<and> \<not> contains '','' p"
    if "p \<in> set (splitAndTrim s '','')" for p
  proof -
    have "\<exists>q\<in>set (splitString s '',''). p = trim_both space_byte q \<and> p \<noteq> []"
      using that by (auto simp: splitAndTrim_filter trimSpace_both)
    then obtain q where q: "q \<in> set (splitString s '','')" "p = trim_both space_byte q" "p \<noteq> []"
      by blast
    have "\<not> contains '','' q" using splitString_pieces(3) [OF _ q(1)] by simp
    then have "\<not> contains '','' p"
      using sublist_trim_both [of space_byte q] q(2)
      unfolding contains_sublist by (meson sublist_order.order_trans)
    with q trim_both_ends [of space_byte q] show ?thesis by simp
  qed
  then show ?thesis by (simp add: trimmed_entries_def)
qed

lemma getSliceEnv_entries: "trimmed_entries ps \<Longrightarrow> trimmed_entries (getSliceEnv env key ps)"
  by (simp add: getSliceEnv_def Let_def splitAndTrim_entries)

lemma getEnvOrDefault_nonempty: "d \<noteq> '''' \<Longrightarrow> getEnvOrDefault env key d \<noteq> ''''"
  by (simp add: getEnvOrDefault_def Let_def)


text \<open>The options of the package touch neither the ranges nor the keys in Parameter Store.\<close>

definition package_options :: "config_option list \<Rightarrow> bool" where
  "package_options opts \<longleftrightarrow> set opts \<subseteq> range WithPort \<union> range WithEnvironment \<union> range WithLogLevel"

definition port_kept :: "config_option list \<Rightarrow> bool" where
  "port_kept opts \<longleftrightarrow> set opts \<subseteq> range WithEnvironment \<union> range WithLogLevel"

lemmas option_defs = WithPort_def WithEnvironment_def WithLogLevel_def

lemma options_keep:
  assumes "package_options opts"
  shows "cfg_AWS (fold (\<lambda>opt cfg. opt cfg) opts c) = cfg_AWS c \<and>
    (config_in_range (fold (\<lambda>opt cfg. opt cfg) opts c) \<longleftrightarrow> config_in_range c)"
  using assms
proof (induction opts arbitrary: c)
  case (Cons opt opts)
  then have "cfg_AWS (opt c) = cfg_AWS c \<and> (config_in_range (opt c) \<longleftrightarrow> config_in_range c)"
    by (auto simp: package_options_def option_defs config_in_range_def)
  moreover have "package_options opts" using Cons.prems by (simp add: package_options_def)
  ultimately show ?case using Cons.IH [of "opt c"] by simp
qed simp

lemma options_keep_port:
  "port_kept opts \<Longrightarrow> cfg_Server (fold (\<lambda>opt cfg. opt cfg) opts c) = cfg_Server c"
  by (induction opts arbitrary: c) (auto simp: port_kept_def option_defs)

lemma default_values_in_range:
  "go_int (15 * second)" "go_int (60 * second)" "go_int (30 * second)" "go_int (24 * hour)" "go_int (2 * second)"
  "go_int second" "go_int 0" "trimmed_entries [''*'']" "trimmed_entries []"
  by (simp_all add: go_int_def second_def hour_def trimmed_entries_def space_byte_def)

lemma default_config_in_range: "config_in_range (default_config env)"
  by (simp add: config_in_range_def default_config_def getDurationEnv_range getIntEnv_range
      getSliceEnv_entries default_values_in_range)

lemma default_config_keys:
  "Port (cfg_Server (default_config env)) \<noteq> '''' \<and>
   ProvisionerQueueParamKey (cfg_AWS (default_config env)) \<noteq> '''' \<and>
   CognitoClientIDParamKey (cfg_AWS (default_config env)) \<noteq> ''''"
  by (simp add: default_config_def getEnvOrDefault_nonempty)

lemma NewConfig_snoc_port:
  "NewConfig env (pre @ WithPort p # post) =
     fold (\<lambda>opt cfg. opt cfg) post (WithPort p (fold (\<lambda>opt cfg. opt cfg) pre (default_config env)))"
  by (simp add: NewConfig_def)

text \<open>C29: Whatever the environment holds, the configuration read from it is accepted by \<open>Validate\<close>, its
  durations and its database number are 64-bit integers, and its origins and brokers are trimmed
  texts without commas. Only an option can make it invalid: with the package's options \<open>Validate\<close>
  fails exactly when the last \<open>WithPort\<close> sets the empty port, and says which value is missing.\<close>

theorem environment_config_is_valid:
  assumes "package_options pre" "port_kept post"
  shows "config_Validate (NewConfig env post) = None \<and> config_in_range (NewConfig env post) \<and>
    config_in_range (NewConfig env (pre @ WithPort p # post)) \<and>
    Port (cfg_Server (NewConfig env (pre @ WithPort p # post))) = p \<and>
    config_Validate (NewConfig env (pre @ WithPort p # post)) =
      (if p = '''' then Some (missing_config ''server port'') else None)"
proof -
  have opts: "package_options post" "package_options (pre @ WithPort p # post)"
    using assms by (auto simp: package_options_def port_kept_def)
  note aws = options_keep [OF opts(1)] options_keep [OF opts(2)]
  note server = options_keep_port [OF assms(2)] default_config_keys
  have "cfg_Server (NewConfig env (pre @ WithPort p # post)) =
      cfg_Server (WithPort p (fold (\<lambda>opt cfg. opt cfg) pre (default_config env)))"
    unfolding NewConfig_snoc_port by (rule server)
  then have port: "Port (cfg_Server (NewConfig env (pre @ WithPort p # post))) = p"
    by (simp add: WithPort_def)
  show ?thesis
    using port aws [of "default_config env"] server default_config_in_range [of env]
    by (simp add: config_Validate_def NewConfig_def del: fold_append fold_simps)
qed

definition sample_environment :: environment where
  "sample_environment = \<lparr>env_vars = [''PORT'' \<mapsto> ''9000'', ''REDIS_DB'' \<mapsto> ''many'',
     ''ALLOWED_ORIGINS'' \<mapsto> '' https://a , ,https://b '', ''IDEMPOTENCY_TTL'' \<mapsto> ''1h30m''], env_frac = (\<lambda>f u k. 0)\<rparr>"

theorem environment_config_is_valid_witness:
  "config_Validate (NewConfig sample_environment [WithLogLevel ''debug'']) = None \<and>
   config_Validate (NewConfig sample_environment [WithPort '''']) = Some (missing_config ''server port'')"
  using environment_config_is_valid [of "[]" "[WithLogLevel ''debug'']" sample_environment "''x''"]
    environment_config_is_valid [of "[]" "[]" sample_environment "''''"]
  by (simp add: package_options_def port_kept_def)

text \<open>The readers on the sample: a malformed number falls back to the default, lists are trimmed.\<close>

lemma sample_environment_read:
  "getIntEnv sample_environment ''REDIS_DB'' 0 = 0"
  "getSliceEnv sample_environment ''ALLOWED_ORIGINS'' [''*''] = [''https://a'', ''https://b'']"
  by (simp_all add: sample_environment_def getIntEnv_def getSliceEnv_def getenv_def read_int_def read_nat_def
      in_range_def splitAndTrim_filter splitString_byte trimSpace_both trim_both_def space_byte_def)

lemma sample_durations:
  "parse_duration frac ''1h30m'' = Some (5400 * second)" "parse_duration frac ''-2us'' = Some (- 2000)"
  "parse_duration frac ''1h30'' = None" "parse_duration (\<lambda>f u k. f * u div 10 ^ k) ''1.5s'' = Some 1500000000"
  by (simp_all add: parse_duration_def duration_parts.simps duration_part_def unit_char_def in_range_def
      unit_ns_def micro_signs_def second_def)

end
