(* ===== verification/Telemetry_Setup.thy ===== *)
theory Telemetry_Setup
  imports Api_Config
begin

text \<open>
  The OpenTelemetry pipelines of both services: \<open>services/api/internal/telemetry\<close> (one file for
  each signal, and the resource they share) and \<open>services/provisioner/internal/telemetry\<close>
  (\<open>Setup\<close>). The SDK is an argument: its exporters, the merge of a resource, the registration of
  a global provider and the shutdown of one act on the state \<open>'e\<close> of the world. An exporter is
  \<open>'x\<close>, a resource \<open>'r\<close>; a metrics registry is a number.
\<close>

subsection \<open>The SDK\<close>

record view =
  vw_instrument :: string
  vw_bucket_millis :: "int list"

datatype ('x, 'r) provider =
    TracerProvider 'x 'r
  | MeterProvider 'x 'r "view list"
  | LoggerProvider 'x 'r

record ('x, 'r, 'e) otel_sdk =
  os_resource :: "(string \<times> string) list \<Rightarrow> 'e \<Rightarrow> (goerr + 'r) \<times> 'e"
  os_trace_exporter :: "'e \<Rightarrow> (goerr + 'x) \<times> 'e"
  os_metric_exporter :: "'e \<Rightarrow> (goerr + 'x) \<times> 'e"
  os_log_exporter :: "'e \<Rightarrow> (goerr + 'x) \<times> 'e"
  os_new_registry :: "'e \<Rightarrow> nat \<times> 'e"
  os_prometheus :: "nat \<Rightarrow> 'e \<Rightarrow> (goerr + 'x) \<times> 'e"
  os_set_provider :: "('x, 'r) provider \<Rightarrow> 'e \<Rightarrow> 'e"
  os_set_propagators :: "string list \<Rightarrow> 'e \<Rightarrow> 'e"
  os_shutdown :: "('x, 'r) provider \<Rightarrow> 'e \<Rightarrow> goerr option \<times> 'e"

text \<open>\<open>otellogrus.NewHook\<close>: a name and the provider the records go to.\<close>

datatype ('x, 'r) log_hook = LogHook string "('x, 'r) provider"

definition propagators :: "string list" where
  "propagators = [''tracecontext'', ''baggage'']"

subsection \<open>The API: resource.go\<close>

definition resource_attributes :: "string \<Rightarrow> string \<Rightarrow> string \<Rightarrow> (string \<times> string) list" where
  "resource_attributes serviceName serviceVersion environment =
     [(''service.name'', serviceName), (''deployment.environment'', environment)] @
     (if serviceVersion \<noteq> '''' then [(''service.version'', serviceVersion)] else [])"

definition newResource ::
    "('x, 'r, 'e) otel_sdk \<Rightarrow> string \<Rightarrow> string \<Rightarrow> string \<Rightarrow> 'e \<Rightarrow> (goerr + 'r) \<times> 'e" where
  "newResource sdk serviceName serviceVersion environment e =
     (case os_resource sdk (resource_attributes serviceName serviceVersion environment) e of
        (Inl err, e') \<Rightarrow> (Inl (Wrapped ''building telemetry resource: '' err ''''), e')
      | (Inr res, e') \<Rightarrow> (Inr res, e'))"

record telemetry_config =
  tc_service :: string
  tc_version :: string
  tc_environment :: string

subsection \<open>The API: tracing.go, metrics.go and logs.go\<close>

definition NewTracing ::
    "('x, 'r, 'e) otel_sdk \<Rightarrow> telemetry_config \<Rightarrow> 'e \<Rightarrow> (goerr + ('x, 'r) provider) \<times> 'e" where
  "NewTracing sdk cfg e =
     (case os_trace_exporter sdk e of
        (Inl err, e1) \<Rightarrow> (Inl (Wrapped ''creating otlp trace exporter: '' err ''''), e1)
      | (Inr exporter, e1) \<Rightarrow>
          (case newResource sdk (tc_service cfg) (tc_version cfg) (tc_environment cfg) e1 of
             (Inl err, e2) \<Rightarrow> (Inl err, e2)
           | (Inr res, e2) \<Rightarrow>
               (let provider = TracerProvider exporter res
                in (Inr provider, os_set_propagators sdk propagators (os_set_provider sdk provider e2)))))"

definition requestDurationBuckets :: "int list" where
  "requestDurationBuckets = [5, 10, 25, 50, 75, 100, 250, 500, 750, 1000, 2500, 5000, 7500, 10000]"

definition duration_view :: view where
  "duration_view = \<lparr>vw_instrument = ''http.server.request.duration'', vw_bucket_millis = requestDurationBuckets\<rparr>"

record ('x, 'r) api_metrics =
  am_provider :: "('x, 'r) provider"
  am_registry :: nat

definition NewMetricsProvider ::
    "('x, 'r, 'e) otel_sdk \<Rightarrow> telemetry_config \<Rightarrow> 'e \<Rightarrow> (goerr + ('x, 'r) api_metrics) \<times> 'e" where
  "NewMetricsProvider sdk cfg e =
     (case os_new_registry sdk e of
        (registry, e1) \<Rightarrow>
          (case os_prometheus sdk registry e1 of
             (Inl err, e2) \<Rightarrow> (Inl (Wrapped ''creating prometheus exporter: '' err ''''), e2)
           | (Inr exporter, e2) \<Rightarrow>
               (case newResource sdk (tc_service cfg) (tc_version cfg) (tc_environment cfg) e2 of
                  (Inl err, e3) \<Rightarrow> (Inl err, e3)
                | (Inr res, e3) \<Rightarrow>
                    (let provider = MeterProvider exporter res [duration_view]
                     in (Inr \<lparr>am_provider = provider, am_registry = registry\<rparr>, os_set_provider sdk provider e3)))))"

record ('x, 'r) api_logs =
  al_provider :: "('x, 'r) provider"
  al_hook :: "('x, 'r) log_hook"

definition NewLogs ::
    "('x, 'r, 'e) otel_sdk \<Rightarrow> telemetry_config \<Rightarrow> 'e \<Rightarrow> (goerr + ('x, 'r) api_logs) \<times> 'e" where
  "NewLogs sdk cfg e =
     (case os_log_exporter sdk e of
        (Inl err, e1) \<Rightarrow> (Inl (Wrapped ''creating otlp log exporter: '' err ''''), e1)
      | (Inr exporter, e1) \<Rightarrow>
          (case newResource sdk (tc_service cfg) (tc_version cfg) (tc_environment cfg) e1 of
             (Inl err, e2) \<Rightarrow> (Inl err, e2)
           | (Inr res, e2) \<Rightarrow>
               (let provider = LoggerProvider exporter res
                in (Inr \<lparr>al_provider = provider, al_hook = LogHook (tc_service cfg) provider\<rparr>,
                    os_set_provider sdk provider e2))))"

subsection \<open>The provisioner: telemetry.go\<close>

text \<open>\<open>errors.Join\<close>: nil when all are nil, else the texts on lines of their own.\<close>

definition errors_join :: "goerr option list \<Rightarrow> goerr option" where
  "errors_join errs =
     (case filter (\<lambda>x. x \<noteq> None) errs of
        [] \<Rightarrow> None
      | es \<Rightarrow> Some (Opaque (join_str [CHR 0x0A] (map (\<lambda>x. case x of Some err \<Rightarrow> error_text err | None \<Rightarrow> '''') es))))"

text \<open>The shutdown function \<open>Setup\<close> returns, as what it shuts down; \<open>[]\<close> is the one that does nothing.\<close>

type_synonym ('x, 'r) shutdown = "('x, 'r) provider list"

definition run_shutdown :: "('x, 'r, 'e) otel_sdk \<Rightarrow> ('x, 'r) shutdown \<Rightarrow> 'e \<Rightarrow> goerr option \<times> 'e" where
  "run_shutdown sdk ps e =
     (let (errs, e') = fold (\<lambda>p (errs, e). let (err, e') = os_shutdown sdk p e in (errs @ [err], e')) ps ([], e)
      in (errors_join errs, e'))"

definition prov_resource_attributes :: "telemetry_config \<Rightarrow> (string \<times> string) list" where
  "prov_resource_attributes cfg =
     [(''service.name'', tc_service cfg), (''deployment.environment'', tc_environment cfg)] @
     (if tc_version cfg \<noteq> '''' then [(''service.version'', tc_version cfg)] else [])"

definition prov_newResource ::
    "('x, 'r, 'e) otel_sdk \<Rightarrow> telemetry_config \<Rightarrow> 'e \<Rightarrow> (goerr + 'r) \<times> 'e" where
  "prov_newResource sdk cfg e =
     (case os_resource sdk (prov_resource_attributes cfg) e of
        (Inl err, e') \<Rightarrow> (Inl (Wrapped ''building telemetry resource: '' err ''''), e')
      | (Inr res, e') \<Rightarrow> (Inr res, e'))"

text \<open>\<open>Setup\<close>: the shutdown, the hook (\<open>None\<close> is nil) and the error.\<close>

definition Setup ::
    "environment \<Rightarrow> ('x, 'r, 'e) otel_sdk \<Rightarrow> telemetry_config \<Rightarrow> 'e \<Rightarrow>
     (('x, 'r) shutdown \<times> ('x, 'r) log_hook option \<times> goerr option) \<times> 'e" where
  "Setup env sdk cfg e =
     (if getenv env ''OTEL_EXPORTER_OTLP_ENDPOINT'' = '''' then (([], None, None), e)
      else
        case prov_newResource sdk cfg e of
          (Inl err, e1) \<Rightarrow> (([], None, Some err), e1)
        | (Inr res, e1) \<Rightarrow>
            (case os_trace_exporter sdk e1 of
               (Inl err, e2) \<Rightarrow> (([], None, Some (Wrapped ''creating otlp trace exporter: '' err '''')), e2)
             | (Inr tx, e2) \<Rightarrow>
                 (let tracerProvider = TracerProvider tx res;
                      e3 = os_set_propagators sdk propagators (os_set_provider sdk tracerProvider e2)
                  in case os_metric_exporter sdk e3 of
                       (Inl err, e4) \<Rightarrow> (([], None, Some (Wrapped ''creating otlp metric exporter: '' err '''')), e4)
                     | (Inr mx, e4) \<Rightarrow>
                         (let meterProvider = MeterProvider mx res [];
                              e5 = os_set_provider sdk meterProvider e4
                          in case os_log_exporter sdk e5 of
                               (Inl err, e6) \<Rightarrow> (([], None, Some (Wrapped ''creating otlp log exporter: '' err '''')), e6)
                             | (Inr lx, e6) \<Rightarrow>
                                 (let loggerProvider = LoggerProvider lx res
                                  in (([tracerProvider, meterProvider, loggerProvider],
                                       Some (LogHook (tc_service cfg) loggerProvider), None),
                                      os_set_provider sdk loggerProvider e6))))))"


subsection \<open>Who shuts a provider down\<close>

text \<open>The SDK's documented behaviour towards the global providers: only a registration adds one.\<close>

locale otel_laws =
  fixes sdk :: "('x, 'r, 'e) otel_sdk"
    and registered :: "'e \<Rightarrow> ('x, 'r) provider list"
  assumes set_provider: "registered (os_set_provider sdk p e) = registered e @ [p]"
    and others: "os_resource sdk attrs e = (rr, e1) \<Longrightarrow> registered e1 = registered e"
      "os_trace_exporter sdk e = (rx, e1) \<Longrightarrow> registered e1 = registered e"
      "os_metric_exporter sdk e = (rx, e1) \<Longrightarrow> registered e1 = registered e"
      "os_log_exporter sdk e = (rx, e1) \<Longrightarrow> registered e1 = registered e"
      "os_new_registry sdk e = (n, e1) \<Longrightarrow> registered e1 = registered e"
      "os_prometheus sdk m e = (rx, e1) \<Longrightarrow> registered e1 = registered e"
      "registered (os_set_propagators sdk ps e) = registered e"
begin

lemma resource_registers:
  "newResource sdk s v n e = (r, e1) \<Longrightarrow> registered e1 = registered e"
  "prov_newResource sdk cfg e = (r, e1) \<Longrightarrow> registered e1 = registered e"
  by (auto simp: newResource_def prov_newResource_def dest: others(1) split: prod.splits sum.splits)

lemmas registration = set_provider others(7)

lemma setup_registers:
  assumes "Setup env sdk cfg e = ((sd, hook, err), e')"
  shows "\<exists>new. registered e' = registered e @ new \<and> (err = None \<longrightarrow> sd = new) \<and> (err \<noteq> None \<longrightarrow> sd = [] \<and> hook = None)"
  using assms
  by (auto simp: Setup_def registration Let_def dest!: others(1-6) resource_registers(2)
      split: if_splits prod.splits sum.splits)

lemma signal_registers:
  "NewTracing sdk cfg e = (Inr p, e') \<Longrightarrow> registered e' = registered e @ [p]"
  "NewMetricsProvider sdk cfg e = (Inr m, e') \<Longrightarrow> registered e' = registered e @ [am_provider m]"
  "NewLogs sdk cfg e = (Inr l, e') \<Longrightarrow> registered e' = registered e @ [al_provider l]"
  by (auto simp: NewTracing_def NewMetricsProvider_def NewLogs_def registration Let_def
      dest!: others(1-6) resource_registers(1) split: prod.splits sum.splits)

lemma signal_fails:
  "NewTracing sdk cfg e = (Inl err, e') \<Longrightarrow> registered e' = registered e"
  "NewMetricsProvider sdk cfg e = (Inl err, e') \<Longrightarrow> registered e' = registered e"
  "NewLogs sdk cfg e = (Inl err, e') \<Longrightarrow> registered e' = registered e"
  by (auto simp: NewTracing_def NewMetricsProvider_def NewLogs_def Let_def
      dest!: others(1-6) resource_registers(1) split: prod.splits sum.splits)

end

text \<open>An instance: a list of what was registered and of what was shut down, and a broken metric exporter.\<close>

record otel_sim =
  ot_registered :: "(string, (string \<times> string) list) provider list"
  ot_closed :: "(string, (string \<times> string) list) provider list"
  ot_broken :: bool

definition sim_sdk :: "(string, (string \<times> string) list, 'm otel_sim_scheme) otel_sdk" where
  "sim_sdk =
     \<lparr>os_resource = (\<lambda>attrs e. (Inr attrs, e)),
      os_trace_exporter = (\<lambda>e. (Inr ''traces'', e)),
      os_metric_exporter = (\<lambda>e. (if ot_broken e then Inl (Opaque ''no metrics'') else Inr ''metrics'', e)),
      os_log_exporter = (\<lambda>e. (Inr ''logs'', e)),
      os_new_registry = (\<lambda>e. (0, e)),
      os_prometheus = (\<lambda>n e. (Inr ''prometheus'', e)),
      os_set_provider = (\<lambda>p e. e\<lparr>ot_registered := ot_registered e @ [p]\<rparr>),
      os_set_propagators = (\<lambda>ps e. e),
      os_shutdown = (\<lambda>p e. (None, e\<lparr>ot_closed := ot_closed e @ [p]\<rparr>))\<rparr>"

interpretation sim_otel: otel_laws sim_sdk ot_registered
  by unfold_locales (auto simp: sim_sdk_def)

subsection \<open>Property\<close>

text \<open>C33: The shutdown that \<open>Setup\<close> returns covers exactly the providers it registered when it succeeds, and
  nothing when it fails, although the providers registered before the failure stay registered; and
  each pipeline of the API registers the one provider it returns, or none. Both services describe
  themselves by the same attributes.\<close>

theorem setup_shutdown_covers:
  assumes "otel_laws sdk registered" "Setup env sdk cfg e = ((sd, hook, err), e')"
  shows "(\<exists>new. registered e' = registered e @ new \<and> (err = None \<longrightarrow> sd = new) \<and> (err \<noteq> None \<longrightarrow> sd = [] \<and> hook = None)) \<and>
    (\<forall>e0 p e1. NewTracing sdk cfg e0 = (Inr p, e1) \<longrightarrow> registered e1 = registered e0 @ [p]) \<and>
    (\<forall>e0 m e1. NewMetricsProvider sdk cfg e0 = (Inr m, e1) \<longrightarrow> registered e1 = registered e0 @ [am_provider m]) \<and>
    (\<forall>e0 l e1. NewLogs sdk cfg e0 = (Inr l, e1) \<longrightarrow> registered e1 = registered e0 @ [al_provider l]) \<and>
    prov_resource_attributes cfg = resource_attributes (tc_service cfg) (tc_version cfg) (tc_environment cfg)"
  using otel_laws.setup_registers [OF assms] otel_laws.signal_registers [OF assms(1)]
  by (simp add: prov_resource_attributes_def resource_attributes_def)

definition otlp_environment :: environment where
  "otlp_environment = \<lparr>env_vars = [''OTEL_EXPORTER_OTLP_ENDPOINT'' \<mapsto> ''collector:4317''], env_frac = (\<lambda>f u k. 0)\<rparr>"

definition sample_telemetry :: telemetry_config where
  "sample_telemetry = \<lparr>tc_service = ''resource-provisioner-consumer'', tc_version = '''', tc_environment = ''dev''\<rparr>"

theorem setup_shutdown_covers_witness:
  "\<exists>sd e' sd2 e2. Setup otlp_environment sim_sdk sample_telemetry \<lparr>ot_registered = [], ot_closed = [], ot_broken = False\<rparr> =
      ((sd, Some (LogHook ''resource-provisioner-consumer'' (last sd)), None), e') \<and> sd = ot_registered e' \<and> length sd = 3 \<and>
    Setup otlp_environment sim_sdk sample_telemetry \<lparr>ot_registered = [], ot_closed = [], ot_broken = True\<rparr> =
      ((sd2, None, Some (Wrapped ''creating otlp metric exporter: '' (Opaque ''no metrics'') '''')), e2) \<and>
    sd2 = [] \<and> length (ot_registered e2) = 1"
proof -
  let ?ok = "\<lparr>ot_registered = [], ot_closed = [], ot_broken = False\<rparr>" and ?bad = "\<lparr>ot_registered = [], ot_closed = [], ot_broken = True\<rparr>"
  note defs = Setup_def getenv_def otlp_environment_def sim_sdk_def sample_telemetry_def prov_newResource_def Let_def
  let ?attrs = "prov_resource_attributes sample_telemetry"
  let ?sd = "[TracerProvider ''traces'' ?attrs, MeterProvider ''metrics'' ?attrs [], LoggerProvider ''logs'' ?attrs]"
  obtain sd e' where ok: "Setup otlp_environment sim_sdk sample_telemetry ?ok =
      ((sd, Some (LogHook ''resource-provisioner-consumer'' (last sd)), None), e')" "length sd = 3"
    using that [of ?sd] by (simp add: defs)
  obtain e2 where bad: "Setup otlp_environment sim_sdk sample_telemetry ?bad =
      (([], None, Some (Wrapped ''creating otlp metric exporter: '' (Opaque ''no metrics'') '''')), e2)" "length (ot_registered e2) = 1"
    by (simp add: defs)
  show ?thesis
    using setup_shutdown_covers [OF sim_otel.otel_laws_axioms ok(1)] ok bad by auto
qed

end
