(* ===== verification/Api_Infrastructure.thy ===== *)
theory Api_Infrastructure
  imports Api_Adapters Redis_Contract Api_Config
begin

text \<open>
  \<open>services/api/internal/infrastructure\<close> (\<open>aws.go\<close>, \<open>redis.go\<close>) and \<open>services/api/internal/server\<close>
  (\<open>server.go\<close>). The SDK's clients are records of operations on the state of the world; a Redis
  client is what \<open>redis.NewClient\<close> gives: a \<open>PING\<close>, a \<open>Close\<close> and the commands of the store. Which
  of the events \<open>Start\<close> waits for comes is an argument.
\<close>

subsection \<open>aws.go\<close>

record get_parameter_input =
  gp_name :: string
  gp_decrypt :: bool

record 'e ssm_client =
  ssm_get :: "get_parameter_input \<Rightarrow> 'e \<Rightarrow> (goerr + string option option) \<times> 'e"
  ssm_get_many :: "string list \<Rightarrow> 'e \<Rightarrow> (goerr + (string option \<times> string option) list) \<times> 'e"

record 'e aws_clients =
  ac_ssm :: "'e ssm_client"
  ac_sqs :: "'e sqs_sender"
  ac_cognito :: "'e cognito_client"

text \<open>\<open>load\<close> is \<open>config.LoadDefaultConfig\<close> with the clients made from its result.\<close>

definition NewAWSClients :: "('e \<Rightarrow> (goerr + 'e aws_clients) \<times> 'e) \<Rightarrow> 'e \<Rightarrow> (goerr + 'e aws_clients) \<times> 'e" where
  "NewAWSClients load e =
     (case load e of
        (Inl err, e') \<Rightarrow> (Inl (Wrapped ''failed to load AWS config: '' err ''''), e')
      | (Inr clients, e') \<Rightarrow> (Inr clients, e'))"

text \<open>A nil parameter, or one with a nil value, is not found.\<close>

definition parameter_missing :: "string \<Rightarrow> goerr" where
  "parameter_missing name = Opaque (''parameter '' @ name @ '' not found or empty'')"

definition GetParameter :: "'e ssm_client \<Rightarrow> string \<Rightarrow> 'e \<Rightarrow> (goerr + string) \<times> 'e" where
  "GetParameter client name e =
     (case ssm_get client \<lparr>gp_name = name, gp_decrypt = False\<rparr> e of
        (Inl err, e') \<Rightarrow> (Inl (Wrapped (''failed to get parameter '' @ name @ '': '') err ''''), e')
      | (Inr (Some (Some v)), e') \<Rightarrow> (Inr v, e')
      | (Inr p, e') \<Rightarrow> (Inl (parameter_missing name), e'))"

definition GetSecureParameter :: "'e ssm_client \<Rightarrow> string \<Rightarrow> 'e \<Rightarrow> (goerr + string) \<times> 'e" where
  "GetSecureParameter client name e =
     (case ssm_get client \<lparr>gp_name = name, gp_decrypt = True\<rparr> e of
        (Inl err, e') \<Rightarrow> (Inl (Wrapped (''failed to get secure parameter '' @ name @ '': '') err ''''), e')
      | (Inr (Some (Some v)), e') \<Rightarrow> (Inr v, e')
      | (Inr p, e') \<Rightarrow> (Inl (parameter_missing name), e'))"

definition GetParameters ::
    "'e ssm_client \<Rightarrow> string list \<Rightarrow> 'e \<Rightarrow> (goerr + (string, string) gomap) \<times> 'e" where
  "GetParameters client names e =
     (if length names = 0 then (Inr [], e)
      else
        case ssm_get_many client names e of
          (Inl err, e') \<Rightarrow> (Inl (Wrapped ''failed to get parameters: '' err ''''), e')
        | (Inr found, e') \<Rightarrow>
            (Inr (fold (\<lambda>p params. case p of (Some n, Some v) \<Rightarrow> put n v params | _ \<Rightarrow> params) found []), e'))"

lemma GetParameter_Inr:
  "GetParameter client name e = (Inr v, e') \<longleftrightarrow> ssm_get client \<lparr>gp_name = name, gp_decrypt = False\<rparr> e = (Inr (Some (Some v)), e')"
  by (auto simp: GetParameter_def split: prod.splits sum.splits option.splits)

text \<open>The map has the last value of each name that has one.\<close>

lemma GetParameters_lookup:
  assumes "ssm_get_many client (n # names) e = (Inr found, e')"
  shows "\<exists>params. GetParameters client (n # names) e = (Inr params, e') \<and>
    map_of params k = map_of (rev (List.map_filter (\<lambda>p. case p of (Some a, Some v) \<Rightarrow> Some (a, v) | _ \<Rightarrow> None) found)) k"
proof -
  have "map_of (fold (\<lambda>p params. case p of (Some n, Some v) \<Rightarrow> put n v params | _ \<Rightarrow> params) found acc) k =
      (map_of acc ++ map_of (rev (List.map_filter (\<lambda>p. case p of (Some a, Some v) \<Rightarrow> Some (a, v) | _ \<Rightarrow> None) found))) k" for acc :: "(string, string) gomap"
    by (induction found arbitrary: acc) (auto simp: map_filter_simps map_add_def split: prod.splits option.splits)
  then show ?thesis using assms by (simp add: GetParameters_def)
qed

subsection \<open>redis.go\<close>

record redis_config =
  rd_Addr :: string
  rd_Password :: string
  rd_DB :: int
  rd_DialTimeout :: duration
  rd_ReadTimeout :: duration
  rd_WriteTimeout :: duration

record 'e redis_handle =
  rh_ping :: "duration \<Rightarrow> 'e \<Rightarrow> goerr option \<times> 'e"
  rh_close :: "'e \<Rightarrow> goerr option \<times> 'e"
  rh_client :: "'e redis_client"

definition NewRedisClient ::
    "(redis_config \<Rightarrow> 'e redis_handle) \<Rightarrow> redis_config \<Rightarrow> 'e \<Rightarrow> (goerr + 'e redis_handle) \<times> 'e" where
  "NewRedisClient new_client cfg e =
     (if rd_Addr cfg = '''' then (Inl (Opaque ''redis address is required''), e)
      else
        let client = new_client cfg
        in case rh_ping client (rd_DialTimeout cfg + rd_ReadTimeout cfg) e of
             (Some err, e1) \<Rightarrow> (Inl (Wrapped ''redis ping failed: '' err ''''), snd (rh_close client e1))
           | (None, e1) \<Rightarrow> (Inr client, e1))"

subsection \<open>server.go\<close>

record srv_config =
  sv_Port :: string
  sv_ReadTimeout :: duration
  sv_WriteTimeout :: duration
  sv_IdleTimeout :: duration
  sv_ShutdownTimeout :: duration

definition srv_DefaultConfig :: srv_config where
  "srv_DefaultConfig = \<lparr>sv_Port = ''8080'', sv_ReadTimeout = 15 * second, sv_WriteTimeout = 15 * second,
     sv_IdleTimeout = 60 * second, sv_ShutdownTimeout = 30 * second\<rparr>"

record 'e http_server =
  hs_addr :: string
  hs_handler :: "'e handler"
  hs_read :: duration
  hs_write :: duration
  hs_idle :: duration

record 'e api_server =
  as_http :: "'e http_server"
  as_config :: srv_config
  as_logger :: logger

definition NewServer :: "'e handler \<Rightarrow> srv_config \<Rightarrow> logger \<Rightarrow> 'e api_server" where
  "NewServer h cfg lg =
     \<lparr>as_http = \<lparr>hs_addr = CHR '':'' # sv_Port cfg, hs_handler = h, hs_read = sv_ReadTimeout cfg,
        hs_write = sv_WriteTimeout cfg, hs_idle = sv_IdleTimeout cfg\<rparr>,
      as_config = cfg, as_logger = lg\<rparr>"

definition server_addr :: "'e api_server \<Rightarrow> string" where
  "server_addr s = hs_addr (as_http s)"

text \<open>
  \<open>sl_serve\<close> runs the listener until one of the events of the \<open>select\<close> is there: the world with
  what was served meanwhile, and which event it was. \<open>sl_shutdown\<close> is \<open>http.Server.Shutdown\<close>.
\<close>

datatype server_event = ListenFailed goerr | Signal string | ContextDone

record 'e server_life =
  sl_serve :: "'e http_server \<Rightarrow> 'e \<Rightarrow> server_event \<times> 'e"
  sl_listen :: "'e http_server \<Rightarrow> 'e \<Rightarrow> goerr option \<times> 'e"
  sl_shutdown :: "duration \<Rightarrow> 'e http_server \<Rightarrow> 'e \<Rightarrow> goerr option \<times> 'e"

definition server_Shutdown :: "'e runtime \<Rightarrow> 'e server_life \<Rightarrow> 'e api_server \<Rightarrow> 'e \<Rightarrow> goerr option \<times> 'e" where
  "server_Shutdown rt sl s e =
     (let e1 = log_info rt (as_logger s) ''Initiating graceful shutdown'' [] e
      in case sl_shutdown sl (sv_ShutdownTimeout (as_config s)) (as_http s) e1 of
           (Some err, e2) \<Rightarrow>
             (Some (Wrapped ''server shutdown error: '' err ''''),
              log_error rt (as_logger s) ''Server forced to shutdown'' [F ''error'' (AStr (error_text err))] e2)
         | (None, e2) \<Rightarrow> (None, log_info rt (as_logger s) ''Server stopped gracefully'' [] e2))"

definition server_Start :: "'e runtime \<Rightarrow> 'e server_life \<Rightarrow> 'e api_server \<Rightarrow> 'e \<Rightarrow> goerr option \<times> 'e" where
  "server_Start rt sl s e =
     (let e1 = log_info rt (as_logger s) ''Starting HTTP server'' [F ''port'' (AStr (sv_Port (as_config s)))] e
      in case sl_serve sl (as_http s) e1 of
           (ListenFailed err, e2) \<Rightarrow> (Some (Wrapped ''server error: '' err ''''), e2)
         | (Signal sig, e2) \<Rightarrow>
             server_Shutdown rt sl s (log_info rt (as_logger s) ''Received shutdown signal'' [F ''signal'' (AStr sig)] e2)
         | (ContextDone, e2) \<Rightarrow>
             server_Shutdown rt sl s (log_info rt (as_logger s) ''Context cancelled'' [] e2))"

definition server_ListenAndServe :: "'e runtime \<Rightarrow> 'e server_life \<Rightarrow> 'e api_server \<Rightarrow> 'e \<Rightarrow> goerr option \<times> 'e" where
  "server_ListenAndServe rt sl s e =
     sl_listen sl (as_http s)
       (log_info rt (as_logger s) ''Starting HTTP server'' [F ''port'' (AStr (sv_Port (as_config s)))] e)"

end
