(* ===== verification/Prov_Main.thy ===== *)
theory Prov_Main
  imports Consumer_Properties Telemetry_Setup Api_Infrastructure
begin

text \<open>
  \<open>services/provisioner/cmd/consumer/main.go\<close>: the program that chooses a transport, runs its
  consumer and ends. How it ends is a value: falling off the end of \<open>main\<close> runs the deferred
  shutdown of the telemetry, \<open>os.Exit\<close> does not, a panic does and ends with status 2.
\<close>

subsection \<open>Helpers\<close>

definition envOrDefault :: "environment \<Rightarrow> string \<Rightarrow> string \<Rightarrow> string" where
  "envOrDefault env key fallback = (let v = getenv env key in if v \<noteq> '''' then v else fallback)"

definition splitBrokers :: "string \<Rightarrow> string list" where
  "splitBrokers csv =
     fold (\<lambda>b brokers. let t = trim_space b in if t \<noteq> '''' then brokers @ [t] else brokers)
       (split_byte (CHR '','') csv) []"

subsection \<open>The queue URL\<close>

text \<open>A call that may panic: \<open>getQueueURL\<close> reads a field of a parameter that may be nil.\<close>

datatype 'a call = Done 'a | Panic string

text \<open>What the program is given: its environment, its context, the SDKs and the logrus library.\<close>

record ('c, 's, 'x, 'r, 'e) prov_world =
  pw_env :: environment
  pw_ctx :: 'c
  pw_ins :: "('c, 's, 'e) instruments"
  pw_sdk :: "('x, 'r, 'e) otel_sdk"
  pw_reader :: "kafka_config \<Rightarrow> ('c, 'e) kafka_reader"
  pw_load_aws :: "string \<Rightarrow> 'e \<Rightarrow> (goerr + ('c \<Rightarrow> 'e ssm_client) \<times> ('c, 'e) sqs_client) \<times> 'e"
  pw_logrus :: logrus_logger
  pw_parse_level :: "string \<Rightarrow> log_level option"
  pw_shutdown_ctx :: 'c

definition getQueueURL ::
    "('c, 's, 'x, 'r, 'e) prov_world \<Rightarrow> ('c \<Rightarrow> 'e ssm_client) \<Rightarrow> 'e \<Rightarrow> (goerr + string) call \<times> 'e" where
  "getQueueURL pw ssm e =
     (case in_start (pw_ins pw) (pw_ctx pw) ''GetSQSQueueURL'' e of
        (ctx, span, e1) \<Rightarrow>
          (let key = envOrDefault (pw_env pw) ''PROVISIONER_QUEUE_PARAM_KEY''
                 ''/INTERNAL_DEVELOPER_PLATFORM/PROVISIONER_QUEUE_URL''
           in case ssm_get (ssm ctx) \<lparr>gp_name = key, gp_decrypt = False\<rparr> e1 of
                (Inl err, e2) \<Rightarrow>
                  (Done (Inl err), in_end (pw_ins pw) span (in_record_error (pw_ins pw) span err e2))
              | (Inr None, e2) \<Rightarrow> (Panic ''invalid memory address or nil pointer dereference'', in_end (pw_ins pw) span e2)
              | (Inr (Some v), e2) \<Rightarrow>
                  (let queueURL = to_string v
                   in (Done (if queueURL = '''' then Inl (Sentinel ErrEmptyQueueURL) else Inr queueURL),
                       in_end (pw_ins pw) span e2))))"

text \<open>\<open>runSQS\<close>; \<open>None\<close> is a consumer that never returns.\<close>

definition runSQS ::
    "('c, 's, 'x, 'r, 'e) prov_world \<Rightarrow> consumer_metrics \<Rightarrow> 'c p_logger \<Rightarrow> 'e \<Rightarrow> (goerr option call \<times> 'e) option" where
  "runSQS pw mt lg e =
     (case pw_load_aws pw ''us-east-1'' e of
        (Inl err, e1) \<Rightarrow> Some (Done (Some (Wrapped ''load AWS config: '' err '''')), e1)
      | (Inr (ssm, client), e1) \<Rightarrow>
          (case getQueueURL pw ssm e1 of
             (Panic v, e2) \<Rightarrow> Some (Panic v, e2)
           | (Done (Inl err), e2) \<Rightarrow> Some (Done (Some err), e2)
           | (Done (Inr queueURL), e2) \<Rightarrow>
               map_option (\<lambda>(r, e3). (Done r, e3)) (RunSQS (pw_ins pw) (pw_ctx pw) client queueURL mt lg e2)))"

subsection \<open>main\<close>

datatype ending = Finished | Exited int | Crashed string

definition prov_log ::
    "('c, 's, 'x, 'r, 'e) prov_world \<Rightarrow> log_level \<Rightarrow> 'c p_logger \<Rightarrow> 'c \<Rightarrow> string \<Rightarrow> goerr \<Rightarrow> 'e \<Rightarrow> 'e" where
  "prov_log pw lv lg ctx msg err = log_ctx (pw_ins pw) lv lg ctx msg [pF ''error'' (AStr (error_text err))]"

text \<open>The deferred function: flush the telemetry, log its error.\<close>

definition flush_telemetry ::
    "('c, 's, 'x, 'r, 'e) prov_world \<Rightarrow> 'c p_logger \<Rightarrow> ('x, 'r) shutdown \<Rightarrow> 'e \<Rightarrow> 'e" where
  "flush_telemetry pw lg sd e =
     (case run_shutdown (pw_sdk pw) sd e of
        (None, e1) \<Rightarrow> e1
      | (Some err, e1) \<Rightarrow> prov_log pw ErrorLevel lg (pw_shutdown_ctx pw) ''telemetry shutdown error'' err e1)"

text \<open>What \<open>main\<close> does with what a consumer returned.\<close>

definition prov_finish ::
    "('c, 's, 'x, 'r, 'e) prov_world \<Rightarrow> 'c p_logger \<Rightarrow> ('x, 'r) shutdown \<Rightarrow> string \<Rightarrow> goerr option call \<Rightarrow> 'e \<Rightarrow> ending \<times> 'e" where
  "prov_finish pw lg sd msg res e =
     (case res of
        Panic v \<Rightarrow> (Crashed v, flush_telemetry pw lg sd e)
      | Done None \<Rightarrow> (Finished, flush_telemetry pw lg sd e)
      | Done (Some err) \<Rightarrow>
          (case in_ctx_err (pw_ins pw) e of
             (None, e1) \<Rightarrow> (Exited 1, prov_log pw ErrorLevel lg (pw_ctx pw) msg err e1)
           | (Some stop, e1) \<Rightarrow> (Finished, flush_telemetry pw lg sd e1)))"

definition prov_telemetry_config :: "environment \<Rightarrow> telemetry_config" where
  "prov_telemetry_config env =
     \<lparr>tc_service = ''resource-provisioner-consumer'', tc_version = getenv env ''SERVICE_VERSION'',
      tc_environment = envOrDefault env ''ENVIRONMENT'' ''dev''\<rparr>"

definition prov_logger_config :: "('x, 'r) log_hook option \<Rightarrow> p_logger_config" where
  "prov_logger_config hook =
     (case hook of
        Some (LogHook name p) \<Rightarrow> p_default_config\<lparr>pl_hooks := [name]\<rparr>
      | None \<Rightarrow> p_default_config)"

definition prov_kafka_config :: "environment \<Rightarrow> string list \<Rightarrow> kafka_config" where
  "prov_kafka_config env brokers =
     \<lparr>kc_Brokers = brokers, kc_Topic = envOrDefault env ''KAFKA_TOPIC'' ''resource-provisioning'',
      kc_GroupID = envOrDefault env ''KAFKA_GROUP_ID'' ''resource-provisioner''\<rparr>"

definition prov_main :: "('c, 's, 'x, 'r, 'e) prov_world \<Rightarrow> 'e \<Rightarrow> (ending \<times> 'e) option" where
  "prov_main pw e =
     (case Setup (pw_env pw) (pw_sdk pw) (prov_telemetry_config (pw_env pw)) e of
        ((sd, hook, err), e1) \<Rightarrow>
          (let lg = p_new (pw_logrus pw) (pw_parse_level pw) (prov_logger_config hook)
           in case err of
                Some serr \<Rightarrow> Some (Exited 1, prov_log pw ErrorLevel lg (pw_ctx pw) ''unable to set up telemetry'' serr e1)
              | None \<Rightarrow>
                  (let brokers = splitBrokers (getenv (pw_env pw) ''KAFKA_BROKERS'')
                   in if length brokers > 0
                      then map_option (\<lambda>(r, e2). prov_finish pw lg sd ''kafka consumer error'' (Done r) e2)
                             (RunKafka (pw_reader pw) (pw_ins pw) (pw_ctx pw) (prov_kafka_config (pw_env pw) brokers) NewMetrics lg e1)
                      else map_option (\<lambda>(r, e2). prov_finish pw lg sd ''sqs consumer error'' r e2)
                             (runSQS pw NewMetrics lg e1))))"

end
