(* ===== verification/Prov_Properties.thy ===== *)
theory Prov_Properties
  imports Prov_Main
begin

text \<open>
  The provisioner as a whole: how it ends, and that it reads the list of brokers as the API does.
\<close>

subsection \<open>The brokers of both services\<close>

lemma drop_one_single: "c \<in> set cs \<Longrightarrow> drop_one (map (\<lambda>c. [c]) cs @ rest) (c # s) = Some s"
  by (induction cs) auto

lemma space_rune_first:
  assumes "ascii_space c"
  shows "drop_one space_runes (c # s) = Some s" "drop_one (map rev space_runes) (c # s) = Some s"
proof -
  let ?cs = "[CHR 0x09, CHR 0x0A, CHR 0x0B, CHR 0x0C, CHR 0x0D, CHR 0x20]"
  obtain rest where rest: "space_runes = map (\<lambda>c. [c]) ?cs @ rest" by (simp add: space_runes_def)
  have "c \<in> set ?cs" using assms by (auto simp: ascii_space_def)
  from drop_one_single [OF this] show "drop_one space_runes (c # s) = Some s" unfolding rest .
  have "map rev space_runes = map (\<lambda>c. [c]) ?cs @ map rev rest" unfolding rest by simp
  with drop_one_single [OF \<open>c \<in> set ?cs\<close>] show "drop_one (map rev space_runes) (c # s) = Some s" by metis
qed

lemma no_space_rune:
  assumes "is_ascii_byte c" "\<not> ascii_space c"
  shows "drop_one space_runes (c # s) = None" "drop_one (map rev space_runes) (c # s) = None"
proof -
  have other: "hd p \<noteq> c \<and> hd (rev p) \<noteq> c \<and> p \<noteq> []" if "p \<in> set space_runes" for p
    using space_rune_hd [OF that] space_rune_last [OF that] assms by (auto simp: hd_rev)
  have first: "hd p = c" if "prefix p (c # s)" "p \<noteq> []" for p
    using that by (cases p) auto
  show "drop_one space_runes (c # s) = None" "drop_one (map rev space_runes) (c # s) = None"
    unfolding drop_one_None using other first by auto
qed

lemma drop_one_empty: "drop_one ps [] = None"
  by (simp add: drop_one_None)

lemma strip_ascii:
  assumes drops: "\<And>c r. ascii_space c \<Longrightarrow> drop_one ps (c # r) = Some r"
    and keeps: "\<And>c r. is_ascii_byte c \<Longrightarrow> \<not> ascii_space c \<Longrightarrow> drop_one ps (c # r) = None"
    and "is_ascii s"
  shows "strip_left ps s = dropWhile ascii_space s"
  using assms(3)
proof (induction s)
  case Nil
  show ?case by (subst strip_left.simps) (simp add: drop_one_empty)
next
  case (Cons c s)
  then have "is_ascii_byte c" "is_ascii s" by (simp_all add: is_ascii_def)
  with Cons.IH show ?case by (subst strip_left.simps) (simp add: drops keeps)
qed

lemmas strip_space = strip_ascii [of space_runes, OF space_rune_first(1) no_space_rune(1)]
  strip_ascii [of "map rev space_runes", OF space_rune_first(2) no_space_rune(2)]

lemma trim_space_ascii: "is_ascii s \<Longrightarrow> trim_space s = trim_both ascii_space s"
proof -
  assume s: "is_ascii s"
  then have "is_ascii (rev (dropWhile ascii_space s))"
    by (auto simp: is_ascii_def list_all_iff dest: set_dropWhileD)
  with s show ?thesis by (simp add: trim_space_def strip_right_def strip_space trim_both_def)
qed

lemma trim_both_cong: "(\<And>c. c \<in> set s \<Longrightarrow> P c = Q c) \<Longrightarrow> trim_both P s = trim_both Q s"
  unfolding trim_both_def
  by (metis (no_types, lifting) dropWhile_cong set_dropWhileD set_rev)

lemma set_split_byte: "p \<in> set (split_byte c s) \<Longrightarrow> set p \<subseteq> set s"
  by (induction s arbitrary: p) (fastforce split: list.splits if_splits)+

subsection \<open>How the program ends\<close>












text \<open>C35: Both services read the same list of brokers from \<open>KAFKA_BROKERS\<close>, although the API trims with
  its own \<open>trimSpace\<close> and the provisioner with \<open>strings.TrimSpace\<close>: for any value of ASCII
  characters without vertical tabs and form feeds, which only the library takes for white space.\<close>

theorem brokers_agree:
  assumes "is_ascii csv" "CHR 0x0B \<notin> set csv" "CHR 0x0C \<notin> set csv" "getenv env ''KAFKA_BROKERS'' = csv"
  shows "KafkaBrokers (cfg_Messaging (NewConfig env [])) = splitBrokers csv"
proof -
  have trims: "trimSpace p = trim_space p" if "p \<in> set (split_byte (CHR '','') csv)" for p
  proof -
    have p: "set p \<subseteq> set csv" by (rule set_split_byte [OF that])
    then have "is_ascii p" using assms(1) by (auto simp: is_ascii_def list_all_iff)
    moreover have "trim_both space_byte p = trim_both ascii_space p"
      using p assms(2,3) by (intro trim_both_cong) (auto simp: space_byte_def ascii_space_def)
    ultimately show ?thesis by (simp add: trimSpace_both trim_space_ascii)
  qed
  have "splitBrokers csv = filter (\<lambda>t. t \<noteq> []) (map trim_space (split_byte (CHR '','') csv))"
  proof -
    have "fold (\<lambda>b brokers. let t = trim_space b in if t \<noteq> '''' then brokers @ [t] else brokers) ps acc =
        acc @ filter (\<lambda>t. t \<noteq> []) (map trim_space ps)" for ps acc
      by (induction ps arbitrary: acc) (simp_all add: Let_def)
    then show ?thesis by (simp add: splitBrokers_def)
  qed
  also have "map trim_space (split_byte (CHR '','') csv) = map trimSpace (split_byte (CHR '','') csv)"
    using trims by simp
  also have "filter (\<lambda>t. t \<noteq> []) \<dots> = splitAndTrim csv '',''"
    by (simp add: splitAndTrim_filter splitString_byte)
  also have "\<dots> = KafkaBrokers (cfg_Messaging (NewConfig env []))"
    using assms(4) by (cases "csv = []")
      (simp_all add: NewConfig_def default_config_def getSliceEnv_def Let_def splitAndTrim_filter splitString_byte trimSpace_both trim_both_def)
  finally show ?thesis ..
qed

theorem brokers_agree_witness:
  "KafkaBrokers (cfg_Messaging (NewConfig \<lparr>env_vars = [''KAFKA_BROKERS'' \<mapsto> '' a:9092, b:9092'']
     , env_frac = (\<lambda>f u k. 0)\<rparr> [])) = splitBrokers '' a:9092, b:9092''"
  by (rule brokers_agree) (simp_all add: is_ascii_def is_ascii_byte_def getenv_def)

end
