(* ===== verification/Api_Bootstrap.thy ===== *)
theory Api_Bootstrap
  imports Api_Router Api_Infrastructure Telemetry_Setup
begin

text \<open>
  \<open>services/api/internal/bootstrap/application.go\<close> and \<open>services/api/cmd/server/main.go\<close>: the
  composition root that wires every part of the API, its shutdown, and the program around it. An
  \<open>Application\<close> is a record whose pointers are options, \<open>None\<close> being nil; a step gives an error or
  the application it has changed. What the steps take from libraries is in \<open>boot_world\<close>.
\<close>

subsection \<open>What the wiring is given\<close>

record ('x, 'r, 'e) boot_world =
  bw_platform :: "'e platform"
  bw_sdk :: "('x, 'r, 'e) otel_sdk"
  bw_load_aws :: "'e \<Rightarrow> (goerr + 'e aws_clients) \<times> 'e"
  bw_redis :: "redis_config \<Rightarrow> 'e redis_handle"
  bw_commands :: "'e redis_commands"
  bw_clock :: "'e \<Rightarrow> gotime"
  bw_kafka :: "kafka_writer_config \<Rightarrow> 'e kafka_writer \<times> ('e \<Rightarrow> (goerr + unit) \<times> 'e)"
  bw_trace :: "'e \<Rightarrow> (string \<times> string) list"
  bw_validator :: validator
  bw_lower :: "string \<Rightarrow> string"
  bw_serve_file :: "string \<Rightarrow> 'e handler"
  bw_swagger_ui :: "'e handler"
  bw_scrape :: "nat \<Rightarrow> 'e handler"
  bw_otelhttp :: "'e handler \<Rightarrow> 'e handler"
  bw_life :: "'e server_life"

text \<open>A publisher, with its \<open>Close\<close> when it is an \<open>io.Closer\<close>.\<close>

record 'e resource_publisher =
  rp_publish :: "'e publisher"
  rp_close :: "('e \<Rightarrow> (goerr + unit) \<times> 'e) option"

record ('x, 'r, 'e) application =
  app_Config :: config
  app_Logger :: logger
  app_Hooks :: "('x, 'r) log_hook list"
  app_AWS :: "'e aws_clients option"
  app_Metrics :: "('x, 'r) api_metrics option"
  app_Tracing :: "('x, 'r) provider option"
  app_Logs :: "('x, 'r) api_logs option"
  app_QueueURL :: string
  app_ClientID :: string
  app_RedisAddr :: string
  app_Redis :: "'e redis_handle option"
  app_Store :: "'e idem_store option"
  app_Publisher :: "'e resource_publisher option"
  app_ResourceService :: "'e resource_service option"
  app_AuthService :: "'e auth_service option"
  app_Swagger :: "string option"
  app_Handlers :: "'e handlers option"
  app_Server :: "'e api_server option"

definition DefaultOptions :: string where
  "DefaultOptions = ''./docs/swagger.yaml''"

definition empty_app :: "config \<Rightarrow> ('x, 'r, 'e) application" where
  "empty_app cfg =
     \<lparr>app_Config = cfg, app_Logger = NopLogger, app_Hooks = [], app_AWS = None, app_Metrics = None,
      app_Tracing = None, app_Logs = None, app_QueueURL = '''', app_ClientID = '''', app_RedisAddr = '''',
      app_Redis = None, app_Store = None, app_Publisher = None, app_ResourceService = None,
      app_AuthService = None, app_Swagger = None, app_Handlers = None, app_Server = None\<rparr>"

abbreviation bw_runtime :: "('x, 'r, 'e) boot_world \<Rightarrow> 'e runtime" where
  "bw_runtime bw \<equiv> pf_runtime (bw_platform bw)"

definition app_info ::
    "('x, 'r, 'e) boot_world \<Rightarrow> ('x, 'r, 'e) application \<Rightarrow> string \<Rightarrow> (string \<times> attr_value) list \<Rightarrow> 'e \<Rightarrow> 'e" where
  "app_info bw a msg fs = log_info (bw_runtime bw) (app_Logger a) msg fs"

definition app_warn ::
    "('x, 'r, 'e) boot_world \<Rightarrow> ('x, 'r, 'e) application \<Rightarrow> string \<Rightarrow> (string \<times> attr_value) list \<Rightarrow> 'e \<Rightarrow> 'e" where
  "app_warn bw a msg fs = log_warn (bw_runtime bw) (app_Logger a) msg fs"

definition isLocalMode :: "('x, 'r, 'e) application \<Rightarrow> bool" where
  "isLocalMode a \<longleftrightarrow> Environment (cfg_App (app_Config a)) = ''local''"

definition otlp_enabled :: "('x, 'r, 'e) application \<Rightarrow> bool" where
  "otlp_enabled a \<longleftrightarrow> EnableTracing (cfg_App (app_Config a)) \<and> \<not> isLocalMode a"

definition app_telemetry :: "config \<Rightarrow> telemetry_config" where
  "app_telemetry cfg = \<lparr>tc_service = ServiceName (cfg_App cfg), tc_version = Version (cfg_App cfg),
     tc_environment = Environment (cfg_App cfg)\<rparr>"

text \<open>The error returns: go on with the value, or return the error; and \<open>fmt.Errorf\<close> around it.\<close>

type_synonym ('a, 'e) result = "(goerr + 'a) \<times> 'e"

definition go_on :: "('a, 'e) result \<Rightarrow> ('a \<Rightarrow> 'e \<Rightarrow> ('b, 'e) result) \<Rightarrow> ('b, 'e) result" where
  "go_on m f = (case m of (Inl err, e) \<Rightarrow> (Inl err, e) | (Inr a, e) \<Rightarrow> f a e)"

definition failing_as :: "string \<Rightarrow> ('a, 'e) result \<Rightarrow> ('a, 'e) result" where
  "failing_as msg m = (case m of (Inl err, e) \<Rightarrow> (Inl (Wrapped msg err ''''), e) | (Inr a, e) \<Rightarrow> (Inr a, e))"

subsection \<open>Logs, tracing, metrics\<close>

definition startLogs ::
    "('x, 'r, 'e) boot_world \<Rightarrow> ('x, 'r, 'e) application \<Rightarrow> 'e \<Rightarrow> (('x, 'r, 'e) application, 'e) result" where
  "startLogs bw a e =
     (if otlp_enabled a
      then go_on (failing_as ''failed to initialize logs pipeline: '' (NewLogs (bw_sdk bw) (app_telemetry (app_Config a)) e))
             (\<lambda>logs e1. (Inr (a\<lparr>app_Logs := Some logs, app_Hooks := [al_hook logs]\<rparr>), e1))
      else (Inr a, e))"

definition startLogger ::
    "('x, 'r, 'e) boot_world \<Rightarrow> ('x, 'r, 'e) application \<Rightarrow> 'e \<Rightarrow> (('x, 'r, 'e) application, 'e) result" where
  "startLogger bw a e =
     (let cfg = app_Config a;
          a1 = a\<lparr>app_Logger := new_logger \<lparr>lc_level = LogLevel (cfg_App cfg), lc_format = ''json'', lc_time_format = ''''\<rparr>\<rparr>
      in (Inr a1, app_info bw a1 ''Initializing application''
            [F ''environment'' (AStr (Environment (cfg_App cfg))), F ''service'' (AStr (ServiceName (cfg_App cfg)))] e))"

definition startTracing ::
    "('x, 'r, 'e) boot_world \<Rightarrow> ('x, 'r, 'e) application \<Rightarrow> 'e \<Rightarrow> (('x, 'r, 'e) application, 'e) result" where
  "startTracing bw a e =
     (if otlp_enabled a
      then go_on (failing_as ''failed to initialize tracing: '' (NewTracing (bw_sdk bw) (app_telemetry (app_Config a)) e))
             (\<lambda>tracing e1. (Inr (a\<lparr>app_Tracing := Some tracing\<rparr>),
                app_info bw a ''OpenTelemetry tracing initialized (OTLP exporter)'' [] e1))
      else (Inr a, e))"

definition initializeMetrics ::
    "('x, 'r, 'e) boot_world \<Rightarrow> ('x, 'r, 'e) application \<Rightarrow> 'e \<Rightarrow> (('x, 'r, 'e) application, 'e) result" where
  "initializeMetrics bw a e =
     go_on (NewMetricsProvider (bw_sdk bw) (app_telemetry (app_Config a)) e)
       (\<lambda>metrics e1. (Inr (a\<lparr>app_Metrics := Some metrics\<rparr>),
          app_info bw a ''OpenTelemetry metrics provider initialized (prometheus exporter)'' [] e1))"

subsection \<open>Parameter Store and Redis\<close>

definition loadAddr ::
    "'e ssm_client \<Rightarrow> config \<Rightarrow> 'e \<Rightarrow> (string, 'e) result" where
  "loadAddr ssm cfg e =
     (if RedisAddr (cfg_Idempotency cfg) \<noteq> '''' then (Inr (RedisAddr (cfg_Idempotency cfg)), e)
      else if RedisAddrParamKey (cfg_AWS cfg) \<noteq> ''''
      then failing_as ''failed to get Redis address: '' (GetParameter ssm (RedisAddrParamKey (cfg_AWS cfg)) e)
      else (Inr '''', e))"

definition loadRuntimeConfig ::
    "('x, 'r, 'e) boot_world \<Rightarrow> 'e ssm_client \<Rightarrow> ('x, 'r, 'e) application \<Rightarrow> 'e \<Rightarrow> (('x, 'r, 'e) application, 'e) result" where
  "loadRuntimeConfig bw ssm a e =
     (let cfg = app_Config a in
      go_on (failing_as ''failed to get provisioner queue URL: '' (GetParameter ssm (ProvisionerQueueParamKey (cfg_AWS cfg)) e)) (\<lambda>url e1.
      let a1 = a\<lparr>app_QueueURL := url\<rparr>; e2 = app_info bw a1 ''Loaded provisioner queue URL'' [F ''queue_url'' (AStr url)] e1 in
      go_on (failing_as ''failed to get Cognito client ID: '' (GetParameter ssm (CognitoClientIDParamKey (cfg_AWS cfg)) e2)) (\<lambda>client e3.
      let a2 = a1\<lparr>app_ClientID := client\<rparr>; e4 = app_info bw a2 ''Loaded Cognito client ID'' [F ''client_id'' (AStr client)] e3 in
      go_on (loadAddr ssm cfg e4) (\<lambda>addr e5.
        (Inr (a2\<lparr>app_RedisAddr := addr\<rparr>),
         if addr \<noteq> '''' then app_info bw a2 ''Loaded Redis address'' [F ''redis_addr'' (AStr addr)] e5 else e5)))))"

definition app_redis_config :: "('x, 'r, 'e) application \<Rightarrow> redis_config" where
  "app_redis_config a =
     (let i = cfg_Idempotency (app_Config a) in
      \<lparr>rd_Addr = app_RedisAddr a, rd_Password = RedisPassword i, rd_DB = RedisDB i,
       rd_DialTimeout = ic_DialTimeout i, rd_ReadTimeout = ic_ReadTimeout i, rd_WriteTimeout = ic_WriteTimeout i\<rparr>)"

definition initializeRedis ::
    "('x, 'r, 'e) boot_world \<Rightarrow> ('x, 'r, 'e) application \<Rightarrow> 'e \<Rightarrow> (('x, 'r, 'e) application, 'e) result" where
  "initializeRedis bw a e =
     (if app_RedisAddr a = ''''
      then (Inr a, app_warn bw a ''Redis address not configured; idempotency layer disabled'' [] e)
      else go_on (NewRedisClient (bw_redis bw) (app_redis_config a) e) (\<lambda>client e1.
        (Inr (a\<lparr>app_Redis := Some client,
            app_Store := Some (redis_store (rh_client client) (bw_commands bw) (bw_clock bw))\<rparr>),
         app_info bw a ''Idempotency layer enabled (redis)'' [] e1)))"


subsection \<open>Adapters, services and handlers\<close>

definition initializeAdapters :: "string \<Rightarrow> ('x, 'r, 'e) application \<Rightarrow> ('x, 'r, 'e) application" where
  "initializeAdapters opts a = a\<lparr>app_Swagger := Some opts\<rparr>"

text \<open>The AWS clients are there in every call: \<open>New\<close> has just set them.\<close>

definition initializeServices ::
    "('x, 'r, 'e) boot_world \<Rightarrow> 'e aws_clients \<Rightarrow> ('x, 'r, 'e) application \<Rightarrow> ('x, 'r, 'e) application" where
  "initializeServices bw aws a =
     (let publisher = \<lparr>rp_publish = sqs_publish (ac_sqs aws) (app_QueueURL a) (bw_trace bw), rp_close = None\<rparr>
      in a\<lparr>app_Publisher := Some publisher,
           app_ResourceService := Some (NewResourceService (bw_runtime bw) (rp_publish publisher) (Some (app_Logger a))),
           app_AuthService := Some (NewAuthService (NewCognitoAuthProvider (ac_cognito aws) (app_ClientID a)))\<rparr>)"

definition initializeKafkaResourceService ::
    "('x, 'r, 'e) boot_world \<Rightarrow> ('x, 'r, 'e) application \<Rightarrow> 'e \<Rightarrow> ('x, 'r, 'e) application \<times> 'e" where
  "initializeKafkaResourceService bw a e =
     (let m = cfg_Messaging (app_Config a) in
      if length (KafkaBrokers m) = 0
      then (a, app_warn bw a ''Resource publishing disabled: KAFKA_BROKERS not set in local mode'' [] e)
      else
        let (kwriter, close) = bw_kafka bw (kafka_publisher_config (KafkaBrokers m) (KafkaTopic m));
            publisher = \<lparr>rp_publish = kafka_publish kwriter (bw_trace bw), rp_close = Some (kafka_close close)\<rparr>;
            a1 = a\<lparr>app_Publisher := Some publisher,
                   app_ResourceService := Some (NewResourceService (bw_runtime bw) (rp_publish publisher) (Some (app_Logger a)))\<rparr>
        in (a1, app_info bw a1 ''Resource service enabled (kafka, local mode)''
              [F ''brokers'' (AStrs (KafkaBrokers m)), F ''topic'' (AStr (KafkaTopic m))] e))"

text \<open>
  A service that was not set is a nil pointer in an interface that is not nil: the handler decodes
  and validates as always, and the first access in the service panics.
\<close>

definition nil_pointer :: string where
  "nil_pointer = ''runtime error: invalid memory address or nil pointer dereference''"

definition with_nil_service :: "validator \<Rightarrow> (string \<Rightarrow> string) \<Rightarrow> 'a struct_type \<Rightarrow> 'e handler" where
  "with_nil_service vs ul ty r w e =
     (case DecodeAndValidate vs ul ty w r (getRequestID r) of
        (None, w1) \<Rightarrow> (Returned, r, w1, e)
      | (Some req, w1) \<Rightarrow> (Panicked nil_pointer, r, w1, e))"

definition auth_route ::
    "('x, 'r, 'e) boot_world \<Rightarrow> ('x, 'r, 'e) application \<Rightarrow> ('e auth_handler \<Rightarrow> 'e handler) \<Rightarrow> 'a struct_type \<Rightarrow> 'e handler" where
  "auth_route bw a serve ty =
     (case app_AuthService a of
        Some svc \<Rightarrow> serve (NewAuthHandler svc (app_Logger a))
      | None \<Rightarrow> with_nil_service (bw_validator bw) (bw_lower bw) ty)"

definition initializeHandlers :: "('x, 'r, 'e) boot_world \<Rightarrow> ('x, 'r, 'e) application \<Rightarrow> ('x, 'r, 'e) application" where
  "initializeHandlers bw a =
     (let rt = bw_runtime bw; vs = bw_validator bw; ul = bw_lower bw in
      a\<lparr>app_Handlers := Some
        \<lparr>hd_provision = (case app_ResourceService a of
             Some svc \<Rightarrow> Provision rt vs ul svc
           | None \<Rightarrow> with_nil_service vs ul resource_struct),
         hd_health = HealthCheck,
         hd_sign_up = auth_route bw a (SignUp rt vs ul) sign_up_type,
         hd_sign_in = auth_route bw a (SignIn rt vs ul) sign_in_type,
         hd_confirm = auth_route bw a (ConfirmSignUp rt vs ul) confirm_type,
         hd_swagger = SwaggerUI (bw_serve_file bw) (bw_swagger_ui bw)
           (case app_Swagger a of Some file \<Rightarrow> file | None \<Rightarrow> '''')\<rparr>\<rparr>)"

subsection \<open>The server\<close>

definition app_router_config ::
    "('x, 'r, 'e) boot_world \<Rightarrow> ('x, 'r, 'e) application \<Rightarrow> 'e router_config" where
  "app_router_config bw a =
     \<lparr>rc_origins = AllowedOrigins (cfg_App (app_Config a)), rc_store = app_Store a,
      rc_ttl = ic_TTL (cfg_Idempotency (app_Config a)),
      rc_metrics = map_option (\<lambda>m. bw_scrape bw (am_registry m)) (app_Metrics a), rc_logger = Some (app_Logger a)\<rparr>"

text \<open>
  \<open>http.StripPrefix\<close>, and the outer mux with its two patterns \<open>/<environment>/\<close> and \<open>/\<close>. A path
  that lacks only the final slash of the first is redirected to it, a path that is not clean to
  its clean form. Paths have no percent-escapes, so \<open>URL.RawPath\<close> is empty and the prefix is stripped of the
  path alone. An environment whose name is no pattern of a path makes \<open>Handle\<close> panic; it is
  taken to be one.
\<close>

definition StripPrefix :: "string \<Rightarrow> 'e handler \<Rightarrow> 'e handler" where
  "StripPrefix pre h r w e =
     (if pre = '''' then h r w e
      else
        let p = trim_prefix pre (rq_path r)
        in if length p < length (rq_path r)
           then (case h (r\<lparr>rq_path := p\<rparr>) w e of
                   (out, r2, w', e') \<Rightarrow> (out, r\<lparr>rq_header := rq_header r2\<rparr>, w', e'))
           else not_found_handler r w e)"

definition outer_mux :: "(string \<Rightarrow> 'e handler) \<Rightarrow> string \<Rightarrow> 'e handler \<Rightarrow> 'e handler" where
  "outer_mux redirect env router r w e =
     (let base = ''/'' @ env @ ''/''; path = mux_path r
      in if path @ ''/'' = base then redirect base r w e
         else if path \<noteq> rq_path r then redirect path r w e
         else if prefix base path then StripPrefix (''/'' @ env) router (r\<lparr>rq_pattern := base\<rparr>) w e
         else router (r\<lparr>rq_pattern := ''/''\<rparr>) w e)"

definition app_server_config :: "config \<Rightarrow> srv_config" where
  "app_server_config cfg =
     \<lparr>sv_Port = Port (cfg_Server cfg), sv_ReadTimeout = ReadTimeout (cfg_Server cfg),
      sv_WriteTimeout = WriteTimeout (cfg_Server cfg), sv_IdleTimeout = IdleTimeout (cfg_Server cfg),
      sv_ShutdownTimeout = ShutdownTimeout (cfg_Server cfg)\<rparr>"

definition app_handler :: "('x, 'r, 'e) boot_world \<Rightarrow> 'e handlers \<Rightarrow> ('x, 'r, 'e) application \<Rightarrow> 'e handler" where
  "app_handler bw hs a =
     (let router = NewRouterWithConfig (bw_platform bw) hs (app_router_config bw a)
      in if otlp_enabled a
         then bw_otelhttp bw (outer_mux (pf_redirect (bw_platform bw)) (Environment (cfg_App (app_Config a))) router)
         else router)"

definition initializeServer ::
    "('x, 'r, 'e) boot_world \<Rightarrow> ('x, 'r, 'e) application \<Rightarrow> 'e \<Rightarrow> (('x, 'r, 'e) application, 'e) result" where
  "initializeServer bw a e =
     (case app_Handlers a of
        Some hs \<Rightarrow> (Inr (a\<lparr>app_Server := Some (NewServer (app_handler bw hs a) (app_server_config (app_Config a)) (app_Logger a))\<rparr>), e)
      | None \<Rightarrow> (Inr a, e))"

subsection \<open>New\<close>

definition initializeLocal ::
    "('x, 'r, 'e) boot_world \<Rightarrow> string \<Rightarrow> ('x, 'r, 'e) application \<Rightarrow> 'e \<Rightarrow> (('x, 'r, 'e) application, 'e) result" where
  "initializeLocal bw opts a e =
     (let e1 = app_warn bw a ''Running in LOCAL mode: AWS, Parameter Store, and Cognito are disabled; queue transport is Kafka''
                 [F ''functional_endpoints'' (AStr ''/v1/provision, /metrics, /v1/health, /v1/swagger'')] e;
          (a2, e2) = initializeKafkaResourceService bw (initializeAdapters opts a) e1
      in go_on (failing_as ''failed to initialize server: '' (initializeServer bw (initializeHandlers bw a2) e2))
           (\<lambda>a3 e3. (Inr a3, app_info bw a3 ''Application initialized successfully (local mode)'' [] e3)))"

definition initializeRemote ::
    "('x, 'r, 'e) boot_world \<Rightarrow> string \<Rightarrow> ('x, 'r, 'e) application \<Rightarrow> 'e \<Rightarrow> (('x, 'r, 'e) application, 'e) result" where
  "initializeRemote bw opts a e =
     go_on (failing_as ''failed to initialize AWS clients: '' (NewAWSClients (bw_load_aws bw) e)) (\<lambda>aws e1.
     go_on (failing_as ''failed to load runtime configuration: ''
              (loadRuntimeConfig bw (ac_ssm aws) (a\<lparr>app_AWS := Some aws\<rparr>) e1)) (\<lambda>a2 e2.
     go_on (failing_as ''failed to initialize Redis: '' (initializeRedis bw a2 e2)) (\<lambda>a3 e3.
     go_on (failing_as ''failed to initialize server: ''
              (initializeServer bw (initializeHandlers bw (initializeServices bw aws (initializeAdapters opts a3))) e3)) (\<lambda>a4 e4.
       (Inr a4, app_info bw a4 ''Application initialized successfully'' [] e4)))))"

definition New ::
    "('x, 'r, 'e) boot_world \<Rightarrow> config \<Rightarrow> string \<Rightarrow> 'e \<Rightarrow> (('x, 'r, 'e) application, 'e) result" where
  "New bw cfg opts e =
     go_on (startLogs bw (empty_app cfg) e) (\<lambda>a1 e1.
     go_on (startLogger bw a1 e1) (\<lambda>a2 e2.
     go_on (startTracing bw a2 e2) (\<lambda>a3 e3.
     go_on (failing_as ''failed to initialize metrics: '' (initializeMetrics bw a3 e3)) (\<lambda>a4 e4.
       if isLocalMode a4 then initializeLocal bw opts a4 e4 else initializeRemote bw opts a4 e4))))"

subsection \<open>Run and Shutdown\<close>

definition Run :: "('x, 'r, 'e) boot_world \<Rightarrow> ('x, 'r, 'e) application \<Rightarrow> 'e api_server \<Rightarrow> 'e \<Rightarrow> goerr option \<times> 'e" where
  "Run bw a srv e =
     server_Start (bw_runtime bw) (bw_life bw) srv
       (app_info bw a ''Starting application'' [F ''port'' (AStr (Port (cfg_Server (app_Config a)))),
          F ''environment'' (AStr (Environment (cfg_App (app_Config a))))] e)"

text \<open>One step of the shutdown: an error is logged and the next step follows.\<close>

definition or_warn ::
    "('x, 'r, 'e) boot_world \<Rightarrow> ('x, 'r, 'e) application \<Rightarrow> string \<Rightarrow> goerr option \<times> 'e \<Rightarrow> 'e" where
  "or_warn bw a msg res =
     (case res of
        (None, e) \<Rightarrow> e
      | (Some err, e) \<Rightarrow> app_warn bw a msg [F ''error'' (AStr (error_text err))] e)"

definition closing :: "(goerr + unit) \<times> 'e \<Rightarrow> goerr option \<times> 'e" where
  "closing res = (case res of (Inl err, e) \<Rightarrow> (Some err, e) | (Inr u, e) \<Rightarrow> (None, e))"

definition closeRedis :: "('x, 'r, 'e) boot_world \<Rightarrow> ('x, 'r, 'e) application \<Rightarrow> 'e \<Rightarrow> 'e" where
  "closeRedis bw a e =
     (case app_Redis a of
        Some h \<Rightarrow> or_warn bw a ''Failed to close Redis client'' (rh_close h e)
      | None \<Rightarrow> e)"

definition closePublisher :: "('x, 'r, 'e) boot_world \<Rightarrow> ('x, 'r, 'e) application \<Rightarrow> 'e \<Rightarrow> 'e" where
  "closePublisher bw a e =
     (case app_Publisher a of
        Some p \<Rightarrow> (case rp_close p of
            Some close \<Rightarrow> or_warn bw a ''Failed to close resource publisher'' (closing (close e))
          | None \<Rightarrow> e)
      | None \<Rightarrow> e)"

definition stopProvider ::
    "('x, 'r, 'e) boot_world \<Rightarrow> ('x, 'r, 'e) application \<Rightarrow> string \<Rightarrow> ('x, 'r) provider option \<Rightarrow> 'e \<Rightarrow> 'e" where
  "stopProvider bw a msg p e =
     (case p of Some q \<Rightarrow> or_warn bw a msg (os_shutdown (bw_sdk bw) q e) | None \<Rightarrow> e)"

definition app_Shutdown :: "('x, 'r, 'e) boot_world \<Rightarrow> ('x, 'r, 'e) application \<Rightarrow> 'e \<Rightarrow> goerr option \<times> 'e" where
  "app_Shutdown bw a e =
     (let e1 = app_info bw a ''Shutting down application'' [] e;
          e2 = closeRedis bw a e1;
          e3 = closePublisher bw a e2;
          e4 = stopProvider bw a ''Failed to shut down metrics provider'' (map_option am_provider (app_Metrics a)) e3;
          e5 = stopProvider bw a ''Failed to shut down tracing provider'' (app_Tracing a) e4;
          e6 = stopProvider bw a ''Failed to shut down logs provider'' (map_option al_provider (app_Logs a)) e5
      in (None, e6))"

subsection \<open>cmd/server/main.go\<close>

text \<open>The exit status; \<open>log.Fatal\<close> logs and exits with 1.\<close>

definition fatal :: "('x, 'r, 'e) boot_world \<Rightarrow> string \<Rightarrow> goerr \<Rightarrow> 'e \<Rightarrow> int \<times> 'e" where
  "fatal bw msg err e =
     (1, log_fatal (bw_runtime bw) (new_logger DefaultConfig) msg [F ''error'' (AStr (error_text err))] e)"

definition server_main :: "('x, 'r, 'e) boot_world \<Rightarrow> environment \<Rightarrow> 'e \<Rightarrow> int \<times> 'e" where
  "server_main bw env e =
     (let cfg = NewConfig env []
      in case config_Validate cfg of
           Some err \<Rightarrow> fatal bw ''Configuration validation failed'' err e
         | None \<Rightarrow>
             (case New bw cfg DefaultOptions e of
                (Inl err, e1) \<Rightarrow> fatal bw ''Failed to initialize application'' err e1
              | (Inr app, e1) \<Rightarrow>
                  (case app_Server app of
                     None \<Rightarrow> (2, e1)
                   | Some srv \<Rightarrow>
                       (case Run bw app srv e1 of
                          (Some err, e2) \<Rightarrow>
                            (let e3 = log_error (bw_runtime bw) (app_Logger app) ''Application error'' [F ''error'' (AStr (error_text err))] e2;
                                 (serr, e4) = app_Shutdown bw app e3
                             in (1, case serr of
                                      Some x \<Rightarrow> log_error (bw_runtime bw) (app_Logger app) ''Shutdown error'' [F ''error'' (AStr (error_text x))] e4
                                    | None \<Rightarrow> e4))
                        | (None, e2) \<Rightarrow>
                            (case app_Shutdown bw app e2 of
                               (Some x, e3) \<Rightarrow> (1, log_error (bw_runtime bw) (app_Logger app) ''Shutdown error'' [F ''error'' (AStr (error_text x))] e3)
                             | (None, e3) \<Rightarrow> (0, e3))))))"

end
