(* ===== verification/Bootstrap_Properties.thy ===== *)
theory Bootstrap_Properties
  imports Api_Bootstrap Idempotency_Properties Router_Properties
begin

text \<open>
  The composition root as a whole: what local mode does without, what a deployed application is
  wired to and which errors its start can give, what its shutdown releases and how the program
  ends, and the prefix of the environment in front of the router.
\<close>

lemmas step_defs = go_on_def failing_as_def startLogs_def startLogger_def startTracing_def initializeMetrics_def

subsection \<open>Local mode\<close>

definition without_cloud ::
    "('e \<Rightarrow> (goerr + 'e aws_clients) \<times> 'e) \<Rightarrow> (redis_config \<Rightarrow> 'e redis_handle) \<Rightarrow> ('e \<Rightarrow> (goerr + 'x) \<times> 'e) \<Rightarrow>
     ('e \<Rightarrow> (goerr + 'x) \<times> 'e) \<Rightarrow> ('x, 'r, 'e) boot_world \<Rightarrow> ('x, 'r, 'e) boot_world" where
  "without_cloud aws dial tx lx bw = bw\<lparr>bw_load_aws := aws, bw_redis := dial,
     bw_sdk := (bw_sdk bw)\<lparr>os_trace_exporter := tx, os_log_exporter := lx\<rparr>\<rparr>"

lemma without_cloud_selectors [simp]:
  "bw_platform (without_cloud aws dial tx lx bw) = bw_platform bw" "bw_kafka (without_cloud aws dial tx lx bw) = bw_kafka bw"
  "bw_trace (without_cloud aws dial tx lx bw) = bw_trace bw" "bw_validator (without_cloud aws dial tx lx bw) = bw_validator bw"
  "bw_lower (without_cloud aws dial tx lx bw) = bw_lower bw" "bw_serve_file (without_cloud aws dial tx lx bw) = bw_serve_file bw"
  "bw_swagger_ui (without_cloud aws dial tx lx bw) = bw_swagger_ui bw" "bw_scrape (without_cloud aws dial tx lx bw) = bw_scrape bw"
  "bw_otelhttp (without_cloud aws dial tx lx bw) = bw_otelhttp bw"
  by (simp_all add: without_cloud_def)

lemma local_logs_offline:
  "app_info (without_cloud aws dial tx lx bw) = app_info bw" "app_warn (without_cloud aws dial tx lx bw) = app_warn bw"
  by (simp_all add: fun_eq_iff app_info_def app_warn_def)

lemma local_parts_offline:
  "auth_route (without_cloud aws dial tx lx bw) a serve ty = auth_route bw a serve ty"
  "app_router_config (without_cloud aws dial tx lx bw) = app_router_config bw"
  "startLogger (without_cloud aws dial tx lx bw) = startLogger bw"
  unfolding fun_eq_iff auth_route_def app_router_config_def startLogger_def local_logs_offline without_cloud_selectors
  by simp_all

lemma local_handlers_offline:
  "initializeKafkaResourceService (without_cloud aws dial tx lx bw) = initializeKafkaResourceService bw"
  "initializeHandlers (without_cloud aws dial tx lx bw) = initializeHandlers bw"
  "app_handler (without_cloud aws dial tx lx bw) = app_handler bw"
  unfolding fun_eq_iff initializeKafkaResourceService_def initializeHandlers_def app_handler_def local_logs_offline
    local_parts_offline without_cloud_selectors by simp_all

lemma local_server_offline:
  "initializeServer (without_cloud aws dial tx lx bw) = initializeServer bw"
  "initializeLocal (without_cloud aws dial tx lx bw) = initializeLocal bw"
proof -
  show "initializeServer (without_cloud aws dial tx lx bw) = initializeServer bw"
    unfolding fun_eq_iff initializeServer_def local_handlers_offline by simp
  then show "initializeLocal (without_cloud aws dial tx lx bw) = initializeLocal bw"
    unfolding fun_eq_iff initializeLocal_def local_logs_offline local_handlers_offline by simp
qed

lemma local_metrics_offline: "initializeMetrics (without_cloud aws dial tx lx bw) = initializeMetrics bw"
proof -
  let ?sdk = "bw_sdk (without_cloud aws dial tx lx bw)"
  have ops: "os_resource ?sdk = os_resource (bw_sdk bw)" "os_new_registry ?sdk = os_new_registry (bw_sdk bw)"
    "os_prometheus ?sdk = os_prometheus (bw_sdk bw)" "os_set_provider ?sdk = os_set_provider (bw_sdk bw)"
    by (simp_all add: without_cloud_def)
  have "NewMetricsProvider ?sdk = NewMetricsProvider (bw_sdk bw)"
    unfolding fun_eq_iff NewMetricsProvider_def newResource_def ops by simp
  then show ?thesis unfolding fun_eq_iff initializeMetrics_def local_logs_offline by simp
qed

lemma go_on_simps [simp]: "go_on (Inr a, e) f = f a e" "go_on (Inl err, e) f = (Inl err, e)"
  by (simp_all add: go_on_def)

lemma failing_as_simps [simp]:
  "failing_as msg (Inr a, e) = (Inr a, e)" "failing_as msg (Inl err, e) = (Inl (Wrapped msg err ''''), e)"
  by (simp_all add: failing_as_def)

lemma not_otlp: "isLocalMode a \<Longrightarrow> \<not> otlp_enabled a"
  by (simp add: otlp_enabled_def)

lemma local_of_config: "isLocalMode (empty_app cfg) \<longleftrightarrow> Environment (cfg_App cfg) = ''local''"
  by (simp add: isLocalMode_def empty_app_def)

lemma isLocalMode_logger [simp]: "isLocalMode (a\<lparr>app_Logger := lg\<rparr>) = isLocalMode a" "isLocalMode (a\<lparr>app_Metrics := m\<rparr>) = isLocalMode a"
  by (simp_all add: isLocalMode_def)

lemma result_cases:
  fixes m :: "('a, 'e) result"
  obtains (failed) err e' where "m = (Inl err, e')" | (went_on) x e' where "m = (Inr x, e')"
  by (metis sumE surj_pair)

text \<open>The logger every mode starts with.\<close>

definition logger_started :: "('x, 'r, 'e) application \<Rightarrow> ('x, 'r, 'e) application" where
  "logger_started a = a\<lparr>app_Logger := new_logger
     \<lparr>lc_level = LogLevel (cfg_App (app_Config a)), lc_format = ''json'', lc_time_format = ''''\<rparr>\<rparr>"

lemma startLogger_started: "\<exists>e'. startLogger bw a e = (Inr (logger_started a), e')"
  by (simp add: startLogger_def logger_started_def Let_def)

lemma New_local:
  fixes bw :: "('x, 'r, 'e) boot_world"
  assumes "Environment (cfg_App cfg) = ''local''"
  shows "New bw cfg opts e = go_on (startLogger bw (empty_app cfg) e) (\<lambda>a e.
    go_on (failing_as ''failed to initialize metrics: '' (initializeMetrics bw a e)) (initializeLocal bw opts))"
proof -
  have l: "isLocalMode (empty_app cfg :: ('x, 'r, 'e) application)" using assms by (simp add: local_of_config)
  obtain e1 where e1: "startLogger bw (empty_app cfg) e = (Inr (logger_started (empty_app cfg)), e1)"
    using startLogger_started [of bw "empty_app cfg" e] by blast
  have l1: "isLocalMode (logger_started (empty_app cfg :: ('x, 'r, 'e) application))" using l by (simp add: logger_started_def)
  show ?thesis
    by (cases "NewMetricsProvider (bw_sdk bw) (app_telemetry (app_Config (logger_started (empty_app cfg) :: ('x, 'r, 'e) application))) e1"
        rule: result_cases)
      (use l l1 e1 in \<open>simp_all add: New_def startLogs_def startTracing_def not_otlp initializeMetrics_def\<close>)
qed


lemma nil_service_panics:
  assumes "decode_body ty (rq_body r) = Some req" "ValidateStruct vs ul (sty_fields ty req) = []"
  shows "with_nil_service vs ul ty r w e = (Panicked nil_pointer, r, w, e)"
  using assms by (simp add: with_nil_service_def DecodeAndValidate_def)

text \<open>Handlers and server are made from the rest of the application, which they leave alone.\<close>

definition served :: "('x, 'r, 'e) boot_world \<Rightarrow> ('x, 'r, 'e) application \<Rightarrow> ('x, 'r, 'e) application \<Rightarrow> bool" where
  "served bw a app \<longleftrightarrow>
     (\<exists>hs srv. app = a\<lparr>app_Handlers := Some hs, app_Server := Some srv\<rparr> \<and> hs_handler (as_http srv) = app_handler bw hs a \<and>
        hd_provision hs = (case app_ResourceService a of
             Some svc \<Rightarrow> Provision (bw_runtime bw) (bw_validator bw) (bw_lower bw) svc
           | None \<Rightarrow> with_nil_service (bw_validator bw) (bw_lower bw) resource_struct) \<and>
        hd_sign_in hs = auth_route bw a (SignIn (bw_runtime bw) (bw_validator bw) (bw_lower bw)) sign_in_type \<and>
        hd_sign_up hs = auth_route bw a (SignUp (bw_runtime bw) (bw_validator bw) (bw_lower bw)) sign_up_type \<and>
        hd_confirm hs = auth_route bw a (ConfirmSignUp (bw_runtime bw) (bw_validator bw) (bw_lower bw)) confirm_type)"

lemma app_handler_handlers: "app_handler bw hs (a\<lparr>app_Handlers := h\<rparr>) = app_handler bw hs a"
  by (simp add: app_handler_def app_router_config_def otlp_enabled_def isLocalMode_def Let_def)

lemma server_served:
  obtains app where "initializeServer bw (initializeHandlers bw a) e = (Inr app, e)" "served bw a app"
proof -
  obtain hs where hs: "initializeHandlers bw a = a\<lparr>app_Handlers := Some hs\<rparr>"
    "hd_provision hs = (case app_ResourceService a of
       Some svc \<Rightarrow> Provision (bw_runtime bw) (bw_validator bw) (bw_lower bw) svc
     | None \<Rightarrow> with_nil_service (bw_validator bw) (bw_lower bw) resource_struct)"
    "hd_sign_in hs = auth_route bw a (SignIn (bw_runtime bw) (bw_validator bw) (bw_lower bw)) sign_in_type"
    "hd_sign_up hs = auth_route bw a (SignUp (bw_runtime bw) (bw_validator bw) (bw_lower bw)) sign_up_type"
    "hd_confirm hs = auth_route bw a (ConfirmSignUp (bw_runtime bw) (bw_validator bw) (bw_lower bw)) confirm_type"
    by (rule that [OF initializeHandlers_def [unfolded Let_def]]) (simp_all only: handlers.simps)
  let ?srv = "NewServer (app_handler bw hs a) (app_server_config (app_Config a)) (app_Logger a)"
  have "initializeServer bw (initializeHandlers bw a) e = (Inr (a\<lparr>app_Handlers := Some hs, app_Server := Some ?srv\<rparr>), e)"
    by (simp add: hs(1) initializeServer_def app_handler_handlers)
  moreover have "hs_handler (as_http ?srv) = app_handler bw hs a" by (simp add: NewServer_def)
  ultimately show thesis using that hs(2-) unfolding served_def by blast
qed

text \<open>What the local wiring sets.\<close>

definition local_publisher :: "('x, 'r, 'e) boot_world \<Rightarrow> config \<Rightarrow> 'e resource_publisher option" where
  "local_publisher bw cfg =
     (if KafkaBrokers (cfg_Messaging cfg) = [] then None
      else case bw_kafka bw (kafka_publisher_config (KafkaBrokers (cfg_Messaging cfg)) (KafkaTopic (cfg_Messaging cfg))) of
        (kwriter, close) \<Rightarrow> Some \<lparr>rp_publish = kafka_publish kwriter (bw_trace bw), rp_close = Some (kafka_close close)\<rparr>)"

definition local_wired :: "('x, 'r, 'e) boot_world \<Rightarrow> string \<Rightarrow> ('x, 'r, 'e) application \<Rightarrow> ('x, 'r, 'e) application" where
  "local_wired bw opts a =
     (case local_publisher bw (app_Config a) of
        None \<Rightarrow> a\<lparr>app_Swagger := Some opts\<rparr>
      | Some p \<Rightarrow> a\<lparr>app_Swagger := Some opts, app_Publisher := Some p,
          app_ResourceService := Some (NewResourceService (bw_runtime bw) (rp_publish p) (Some (app_Logger a)))\<rparr>)"

lemma local_wires:
  obtains app e' where "initializeLocal bw opts a e = (Inr app, e')" "served bw (local_wired bw opts a) app"
proof -
  have kafka: "\<exists>e2. initializeKafkaResourceService bw (initializeAdapters opts a) e1 = (local_wired bw opts a, e2)" for e1
    by (cases "bw_kafka bw (kafka_publisher_config (KafkaBrokers (cfg_Messaging (app_Config a))) (KafkaTopic (cfg_Messaging (app_Config a))))")
      (simp add: initializeKafkaResourceService_def initializeAdapters_def local_wired_def local_publisher_def Let_def)
  let ?e1 = "app_warn bw a ''Running in LOCAL mode: AWS, Parameter Store, and Cognito are disabled; queue transport is Kafka''
    [F ''functional_endpoints'' (AStr ''/v1/provision, /metrics, /v1/health, /v1/swagger'')] e"
  obtain e2 where e2: "initializeKafkaResourceService bw (initializeAdapters opts a) ?e1 = (local_wired bw opts a, e2)"
    using kafka by blast
  obtain app where app: "initializeServer bw (initializeHandlers bw (local_wired bw opts a)) e2 = (Inr app, e2)"
    "served bw (local_wired bw opts a) app"
    by (rule server_served)
  then show thesis using that e2 by (simp add: initializeLocal_def)
qed


lemma metrics_started:
  assumes "initializeMetrics bw a e = (Inr a', e')"
  shows "\<exists>m e1. NewMetricsProvider (bw_sdk bw) (app_telemetry (app_Config a)) e = (Inr m, e1) \<and> a' = a\<lparr>app_Metrics := Some m\<rparr>"
  using assms
  by (cases "NewMetricsProvider (bw_sdk bw) (app_telemetry (app_Config a)) e" rule: result_cases)
    (auto simp: initializeMetrics_def)

lemma go_on_Inr: "go_on m f = (Inr y, e') \<longleftrightarrow> (\<exists>x e1. m = (Inr x, e1) \<and> f x e1 = (Inr y, e'))"
  by (cases m rule: result_cases) auto

lemma failing_as_Inr: "failing_as msg m = (Inr y, e') \<longleftrightarrow> m = (Inr y, e')"
  by (cases m rule: result_cases) auto

lemma New_local_app:
  assumes "Environment (cfg_App cfg) = ''local''" "New bw cfg opts e = (Inr app, e')"
  shows "\<exists>m. served bw (local_wired bw opts ((logger_started (empty_app cfg))\<lparr>app_Metrics := Some m\<rparr>)) app"
proof -
  obtain a1 e1 a2 e2 where 1: "startLogger bw (empty_app cfg) e = (Inr a1, e1)" "initializeMetrics bw a1 e1 = (Inr a2, e2)"
    "initializeLocal bw opts a2 e2 = (Inr app, e')"
    using assms(2) unfolding New_local [OF assms(1)] go_on_Inr failing_as_Inr by blast
  have "a1 = logger_started (empty_app cfg)" using startLogger_started [of bw "empty_app cfg" e] 1(1) by simp
  moreover obtain m where "a2 = a1\<lparr>app_Metrics := Some m\<rparr>" using metrics_started [OF 1(2)] by blast
  moreover obtain app2 e3 where "initializeLocal bw opts a2 e2 = (Inr app2, e3)" "served bw (local_wired bw opts a2) app2"
    by (rule local_wires)
  ultimately show ?thesis using 1(3) by auto
qed

definition acceptable_body :: "('x, 'r, 'e) boot_world \<Rightarrow> 'a struct_type \<Rightarrow> http_request \<Rightarrow> bool" where
  "acceptable_body bw ty r \<longleftrightarrow>
     (\<exists>req. decode_body ty (rq_body r) = Some req \<and> ValidateStruct (bw_validator bw) (bw_lower bw) (sty_fields ty req) = [])"

text \<open>What \<open>main\<close> does in local mode does not depend on the cloud either.\<close>

lemma local_main_offline:
  assumes "Environment (cfg_App (NewConfig env [])) = ''local''"
  shows "server_main (without_cloud aws dial tx lx bw) env e = server_main bw env e"
proof -
  let ?bw = "without_cloud aws dial tx lx bw"
  have life: "bw_life ?bw = bw_life bw" "os_shutdown (bw_sdk ?bw) = os_shutdown (bw_sdk bw)"
    by (simp_all add: without_cloud_def)
  have new: "New ?bw (NewConfig env []) = New bw (NewConfig env [])"
    unfolding fun_eq_iff New_local [OF assms] local_parts_offline local_metrics_offline local_server_offline by simp
  have run: "Run ?bw = Run bw"
    unfolding fun_eq_iff Run_def life local_logs_offline without_cloud_selectors by simp
  have warn: "or_warn ?bw = or_warn bw"
    unfolding fun_eq_iff or_warn_def local_logs_offline by simp
  have stop: "app_Shutdown ?bw = app_Shutdown bw"
    unfolding fun_eq_iff app_Shutdown_def closeRedis_def closePublisher_def stopProvider_def warn life local_logs_offline by simp
  show ?thesis unfolding server_main_def fatal_def Let_def new run stop without_cloud_selectors ..
qed

text \<open>A request for a route whose service is missing, with a body that passes the validation.\<close>

definition unserved :: "('x, 'r, 'e) boot_world \<Rightarrow> config \<Rightarrow> http_request \<Rightarrow> bool" where
  "unserved bw cfg r \<longleftrightarrow> rq_method r = ''POST'' \<and>
     (rq_path r = ''/v1/auth/signin'' \<and> acceptable_body bw sign_in_type r \<or>
      rq_path r = ''/v1/auth/signup'' \<and> acceptable_body bw sign_up_type r \<or>
      rq_path r = ''/v1/auth/confirm'' \<and> acceptable_body bw confirm_type r \<or>
      rq_path r = ''/v1/provision'' \<and> local_publisher bw cfg = None \<and> acceptable_body bw resource_struct r)"

lemma unserved_same:
  "rq_method r1 = rq_method r \<Longrightarrow> rq_path r1 = rq_path r \<Longrightarrow> rq_body r1 = rq_body r \<Longrightarrow>
     unserved bw cfg r1 = unserved bw cfg r"
  by (simp add: unserved_def acceptable_body_def)

lemma unserved_clean: "unserved bw cfg r \<Longrightarrow> mux_path r = rq_path r"
proof -
  have "\<forall>p\<in>{''/v1/auth/signin'', ''/v1/auth/signup'', ''/v1/auth/confirm'', ''/v1/provision''}. clean_path p = p"
    by code_simp
  then show "unserved bw cfg r \<Longrightarrow> mux_path r = rq_path r" by (auto simp: unserved_def mux_path_def)
qed

lemma nil_handler_panics:
  assumes "acceptable_body bw ty r" "rq_body r1 = rq_body r"
  shows "with_nil_service (bw_validator bw) (bw_lower bw) ty r1 w e = (Panicked nil_pointer, r1, w, e)"
  using assms unfolding acceptable_body_def by (elim exE conjE) (rule nil_service_panics; simp)

lemma local_mux_panics:
  assumes served: "served bw a app" and "app_AuthService a = None" "app_Store a = None"
    and "app_ResourceService a = None \<longleftrightarrow> local_publisher bw cfg = None" "app_Handlers app = Some hs" "unserved bw cfg r"
  shows "\<exists>v r2. serve_mux redirect (api_routes pf hs (app_router_config bw a)) r w e = (Panicked v, r2, w, e)"
proof -
  let ?cfg = "app_router_config bw a"
  have hs: "hd_sign_in hs = with_nil_service (bw_validator bw) (bw_lower bw) sign_in_type"
    "hd_sign_up hs = with_nil_service (bw_validator bw) (bw_lower bw) sign_up_type"
    "hd_confirm hs = with_nil_service (bw_validator bw) (bw_lower bw) confirm_type"
    "local_publisher bw cfg = None \<Longrightarrow> hd_provision hs = with_nil_service (bw_validator bw) (bw_lower bw) resource_struct"
    using served assms(2,4,5) by (auto simp: served_def auth_route_def)
  have "rc_store ?cfg = None" by (simp add: app_router_config_def assms(3))
  then obtain pat h where h: "served_by pf hs ?cfg (rq_method r) (rq_path r) = Some (pat, h)"
    "\<forall>w e. h (r\<lparr>rq_pattern := pat\<rparr>) w e = (Panicked nil_pointer, r\<lparr>rq_pattern := pat\<rparr>, w, e)"
    using assms(6) hs unfolding unserved_def by (elim conjE disjE) (auto simp: served_by_def nil_handler_panics)
  from h(1) obtain t where "find (route_matches (rq_method r) (rq_path r)) (api_routes pf hs ?cfg) = Some t"
    "pattern_of t = pat" "mr_handler t = h"
    unfolding find_served [symmetric] by auto
  then show ?thesis using h(2) unserved_clean [OF assms(6)] by (simp add: serve_mux_def Let_def)
qed

text \<open>C36: In local mode the whole program, from the start to the exit, is the same whatever AWS, Redis and the OTLP
  exporters for traces and logs would answer, and the application holds none of them; it publishes to
  Kafka when brokers are configured and nowhere otherwise. A sign-in, a sign-up or a confirmation that
  passes the validation panics on the service that was not wired, and so does a provisioning
  request when there are no brokers: the server's handler answers each of them 500 and returns.\<close>

theorem local_mode_is_offline:
  assumes "Environment (cfg_App (NewConfig env [])) = ''local''"
  shows "server_main (without_cloud aws dial tx lx bw) env e = server_main bw env e \<and>
    (\<forall>app e'. New bw (NewConfig env []) opts e = (Inr app, e') \<longrightarrow>
       app_AWS app = None \<and> app_Redis app = None \<and> app_Store app = None \<and> app_Tracing app = None \<and> app_Logs app = None \<and>
       app_Publisher app = local_publisher bw (NewConfig env []) \<and>
       (\<exists>srv. app_Server app = Some srv \<and>
          (\<forall>r w e1. unserved bw (NewConfig env []) r \<and> fresh_writer w \<longrightarrow>
             (\<exists>r' w' e2. hs_handler (as_http srv) r w e1 = (Returned, r', w', e2) \<and> response_status w' = Some 500))))"
proof (intro conjI allI impI)
  show "server_main (without_cloud aws dial tx lx bw) env e = server_main bw env e"
    by (rule local_main_offline [OF assms])
next
  let ?cfg = "NewConfig env []"
  fix app e' assume new: "New bw ?cfg opts e = (Inr app, e')"
  obtain m where m: "served bw (local_wired bw opts ((logger_started (empty_app ?cfg))\<lparr>app_Metrics := Some m\<rparr>)) app"
    using New_local_app [OF assms new] by blast
  let ?a = "local_wired bw opts ((logger_started (empty_app ?cfg))\<lparr>app_Metrics := Some m\<rparr>)"
  have a: "app_AWS ?a = None" "app_Redis ?a = None" "app_Store ?a = None" "app_Tracing ?a = None" "app_Logs ?a = None"
    "app_AuthService ?a = None" "app_Publisher ?a = local_publisher bw ?cfg" "app_Config ?a = ?cfg"
    "app_ResourceService ?a = None \<longleftrightarrow> local_publisher bw ?cfg = None"
    by (cases "local_publisher bw ?cfg"; simp add: local_wired_def logger_started_def empty_app_def)+
  obtain hs srv where app: "app = ?a\<lparr>app_Handlers := Some hs, app_Server := Some srv\<rparr>" "hs_handler (as_http srv) = app_handler bw hs ?a"
    using m unfolding served_def by blast
  show "app_AWS app = None" "app_Redis app = None" "app_Store app = None" "app_Tracing app = None" "app_Logs app = None"
    "app_Publisher app = local_publisher bw ?cfg"
    by (simp_all add: app(1) a)
  have handler: "hs_handler (as_http srv) = router_chain (bw_platform bw) (app_router_config bw ?a)
      (serve_mux (pf_redirect (bw_platform bw)) (api_routes (bw_platform bw) hs (app_router_config bw ?a)))"
    using assms by (simp add: app(2) app_handler_def otlp_enabled_def isLocalMode_def a(8) NewRouterWithConfig_def)
  have "\<exists>r' w' e2. hs_handler (as_http srv) r w e1 = (Returned, r', w', e2) \<and> response_status w' = Some 500"
    if u: "unserved bw ?cfg r" and w: "fresh_writer w" for r w e1
    unfolding handler
  proof (rule router_answers_panics)
    show "rq_method r \<noteq> ''OPTIONS''" using u by (simp add: unserved_def)
    show "coherent w" "c_status (w_conn w) = None" using w by (auto simp: fresh_writer_def)
    fix r1 :: http_request and w1 e1
    assume "rq_method r1 = rq_method r" "rq_path r1 = rq_path r" "rq_body r1 = rq_body r"
    then have "unserved bw ?cfg r1" using u unserved_same by blast
    moreover have "app_Handlers app = Some hs" by (simp add: app(1))
    ultimately show "\<exists>v r2 e2. serve_mux (pf_redirect (bw_platform bw)) (api_routes (bw_platform bw) hs (app_router_config bw ?a)) r1 w1 e1 =
        (Panicked v, r2, w1, e2)"
      using local_mux_panics [OF m a(6,3,9)] by blast
  qed
  then show "\<exists>srv. app_Server app = Some srv \<and>
      (\<forall>r w e1. unserved bw ?cfg r \<and> fresh_writer w \<longrightarrow>
         (\<exists>r' w' e2. hs_handler (as_http srv) r w e1 = (Returned, r', w', e2) \<and> response_status w' = Some 500))"
    using app(1) by auto
qed


subsection \<open>A deployed application\<close>

text \<open>The steps before the two modes part.\<close>

definition observed :: "('x, 'r, 'e) boot_world \<Rightarrow> config \<Rightarrow> 'e \<Rightarrow> ('x, 'r, 'e) application \<Rightarrow> 'e \<Rightarrow> bool" where
  "observed bw cfg e a e' \<longleftrightarrow>
     (\<exists>a1 e1 a2 e2 a3 e3. startLogs bw (empty_app cfg) e = (Inr a1, e1) \<and> startLogger bw a1 e1 = (Inr a2, e2) \<and>
        startTracing bw a2 e2 = (Inr a3, e3) \<and> initializeMetrics bw a3 e3 = (Inr a, e'))"

lemma New_Inr:
  "New bw cfg opts e = (Inr app, e') \<longleftrightarrow>
     (\<exists>a e1. observed bw cfg e a e1 \<and>
        (if isLocalMode a then initializeLocal bw opts a e1 else initializeRemote bw opts a e1) = (Inr app, e'))"
  unfolding New_def observed_def go_on_Inr failing_as_Inr by blast

lemma startLogs_Inr:
  "startLogs bw a e = (Inr a', e') \<longleftrightarrow>
     (if otlp_enabled a then \<exists>l. NewLogs (bw_sdk bw) (app_telemetry (app_Config a)) e = (Inr l, e') \<and>
        a' = a\<lparr>app_Logs := Some l, app_Hooks := [al_hook l]\<rparr>
      else a' = a \<and> e' = e)"
  by (auto simp: startLogs_def go_on_Inr failing_as_Inr)

lemma startTracing_Inr:
  "startTracing bw a e = (Inr a', e') \<longleftrightarrow>
     (if otlp_enabled a then \<exists>t e1. NewTracing (bw_sdk bw) (app_telemetry (app_Config a)) e = (Inr t, e1) \<and>
        a' = a\<lparr>app_Tracing := Some t\<rparr> \<and> e' = app_info bw a ''OpenTelemetry tracing initialized (OTLP exporter)'' [] e1
      else a' = a \<and> e' = e)"
  by (auto simp: startTracing_def go_on_Inr failing_as_Inr)

lemma startLogger_Inr: "startLogger bw a e = (Inr a', e') \<Longrightarrow> a' = logger_started a"
  using startLogger_started [of bw a e] by auto

text \<open>What an application is after them.\<close>

lemma observed_app:
  assumes "observed bw cfg e a e'"
  obtains lg logs tracing m where
    "a = (empty_app cfg)\<lparr>app_Logger := lg, app_Hooks := (case logs of None \<Rightarrow> [] | Some l \<Rightarrow> [al_hook l]), app_Logs := logs,
       app_Tracing := tracing, app_Metrics := Some m\<rparr>"
    "(logs \<noteq> None) = (EnableTracing (cfg_App cfg) \<and> Environment (cfg_App cfg) \<noteq> ''local'')"
    "(tracing \<noteq> None) = (EnableTracing (cfg_App cfg) \<and> Environment (cfg_App cfg) \<noteq> ''local'')"
proof -
  obtain a1 e1 a2 e2 a3 e3 where 1: "startLogs bw (empty_app cfg) e = (Inr a1, e1)" "startLogger bw a1 e1 = (Inr a2, e2)"
    "startTracing bw a2 e2 = (Inr a3, e3)" "initializeMetrics bw a3 e3 = (Inr a, e')"
    using assms unfolding observed_def by blast
  note a2 = startLogger_Inr [OF 1(2)]
  obtain m where m: "a = a3\<lparr>app_Metrics := Some m\<rparr>" using metrics_started [OF 1(4)] by blast
  show thesis
  proof (cases "EnableTracing (cfg_App cfg) \<and> Environment (cfg_App cfg) \<noteq> ''local''")
    case True
    then have "otlp_enabled (empty_app cfg :: ('a, 'b, 'c) application)"
      by (simp add: otlp_enabled_def isLocalMode_def empty_app_def)
    then obtain l where l: "a1 = (empty_app cfg)\<lparr>app_Logs := Some l, app_Hooks := [al_hook l]\<rparr>"
      using 1(1) by (auto simp: startLogs_Inr)
    have "otlp_enabled a2" using True by (simp add: a2 l logger_started_def otlp_enabled_def isLocalMode_def empty_app_def)
    then obtain t where t: "a3 = a2\<lparr>app_Tracing := Some t\<rparr>" using 1(3) by (auto simp: startTracing_Inr)
    show thesis
      using True by (intro that [where lg = "app_Logger a2" and logs = "Some l" and tracing = "Some t" and m = m]) (simp_all add: m t a2 l logger_started_def empty_app_def)
  next
    case False
    then have "\<not> otlp_enabled (empty_app cfg :: ('a, 'b, 'c) application)"
      by (simp add: otlp_enabled_def isLocalMode_def empty_app_def)
    then have l: "a1 = empty_app cfg" using 1(1) by (simp add: startLogs_Inr)
    have "\<not> otlp_enabled a2" using False by (simp add: a2 l logger_started_def otlp_enabled_def isLocalMode_def empty_app_def)
    then have t: "a3 = a2" using 1(3) by (simp add: startTracing_Inr)
    show thesis
      using False by (intro that [where lg = "app_Logger a2" and logs = None and tracing = None and m = m]) (simp_all add: m t a2 l logger_started_def empty_app_def)
  qed
qed

lemma observed_local:
  assumes "observed bw cfg e a e'"
  shows "isLocalMode a \<longleftrightarrow> Environment (cfg_App cfg) = ''local''"
  by (rule observed_app [OF assms]) (simp add: isLocalMode_def empty_app_def)


lemma loadAddr_Inr:
  "loadAddr ssm cfg e = (Inr addr, e') \<Longrightarrow> RedisAddr (cfg_Idempotency cfg) \<noteq> '''' \<Longrightarrow> addr = RedisAddr (cfg_Idempotency cfg)"
  "loadAddr ssm cfg e = (Inr addr, e') \<Longrightarrow> RedisAddr (cfg_Idempotency cfg) = '''' \<Longrightarrow> RedisAddrParamKey (cfg_AWS cfg) \<noteq> '''' \<Longrightarrow>
     ssm_get ssm \<lparr>gp_name = RedisAddrParamKey (cfg_AWS cfg), gp_decrypt = False\<rparr> e = (Inr (Some (Some addr)), e')"
  by (auto simp: loadAddr_def failing_as_Inr GetParameter_Inr split: if_splits)

lemma loadRuntimeConfig_Inr:
  assumes "loadRuntimeConfig bw ssm a e = (Inr a', e')"
  shows "\<exists>url client addr e1 e2 e3 e4 e5. a' = a\<lparr>app_QueueURL := url, app_ClientID := client, app_RedisAddr := addr\<rparr> \<and>
    ssm_get ssm \<lparr>gp_name = ProvisionerQueueParamKey (cfg_AWS (app_Config a)), gp_decrypt = False\<rparr> e = (Inr (Some (Some url)), e1) \<and>
    ssm_get ssm \<lparr>gp_name = CognitoClientIDParamKey (cfg_AWS (app_Config a)), gp_decrypt = False\<rparr> e2 = (Inr (Some (Some client)), e3) \<and>
    loadAddr ssm (app_Config a) e4 = (Inr addr, e5)"
  using assms unfolding loadRuntimeConfig_def Let_def go_on_Inr failing_as_Inr GetParameter_Inr prod.inject sum.inject by blast

lemma NewRedisClient_Inr:
  "NewRedisClient dial cfg e = (Inr h, e') \<Longrightarrow> h = dial cfg \<and> rd_Addr cfg \<noteq> ''''"
  by (auto simp: NewRedisClient_def Let_def split: if_splits prod.splits option.splits)

definition with_redis :: "('x, 'r, 'e) boot_world \<Rightarrow> ('x, 'r, 'e) application \<Rightarrow> ('x, 'r, 'e) application" where
  "with_redis bw a =
     (if app_RedisAddr a = '''' then a
      else a\<lparr>app_Redis := Some (bw_redis bw (app_redis_config a)),
             app_Store := Some (redis_store (rh_client (bw_redis bw (app_redis_config a))) (bw_commands bw) (bw_clock bw))\<rparr>)"

lemma initializeRedis_Inr:
  assumes "initializeRedis bw a e = (Inr a', e')"
  shows "a' = with_redis bw a"
  using assms unfolding initializeRedis_def go_on_Inr with_redis_def
  by (auto dest!: NewRedisClient_Inr simp: app_redis_config_def Let_def go_on_Inr split: if_splits)

text \<open>The application a successful start in the cloud ends with.\<close>

lemma initializeRemote_Inr:
  assumes "initializeRemote bw opts a e = (Inr app, e')"
  obtains aws e1 url client addr where "bw_load_aws bw e = (Inr aws, e1)"
    "served bw (initializeServices bw aws (initializeAdapters opts
       (with_redis bw (a\<lparr>app_AWS := Some aws, app_QueueURL := url, app_ClientID := client, app_RedisAddr := addr\<rparr>)))) app"
    "\<exists>e2 e3. ssm_get (ac_ssm aws) \<lparr>gp_name = ProvisionerQueueParamKey (cfg_AWS (app_Config a)), gp_decrypt = False\<rparr> e2 = (Inr (Some (Some url)), e3)"
    "\<exists>e2 e3. ssm_get (ac_ssm aws) \<lparr>gp_name = CognitoClientIDParamKey (cfg_AWS (app_Config a)), gp_decrypt = False\<rparr> e2 = (Inr (Some (Some client)), e3)"
    "\<exists>e2 e3. loadAddr (ac_ssm aws) (app_Config a) e2 = (Inr addr, e3)"
proof -
  obtain aws e1 a2 e2 a3 e3 a4 e4 where 1: "NewAWSClients (bw_load_aws bw) e = (Inr aws, e1)"
    "loadRuntimeConfig bw (ac_ssm aws) (a\<lparr>app_AWS := Some aws\<rparr>) e1 = (Inr a2, e2)"
    "initializeRedis bw a2 e2 = (Inr a3, e3)"
    "initializeServer bw (initializeHandlers bw (initializeServices bw aws (initializeAdapters opts a3))) e3 = (Inr a4, e4)"
    "app = a4"
    using assms unfolding initializeRemote_def go_on_Inr failing_as_Inr by auto
  have aws: "bw_load_aws bw e = (Inr aws, e1)"
    using 1(1) by (auto simp: NewAWSClients_def split: prod.splits sum.splits)
  obtain url client addr where rc: "a2 = a\<lparr>app_AWS := Some aws, app_QueueURL := url, app_ClientID := client, app_RedisAddr := addr\<rparr>"
    "\<exists>e2 e3. ssm_get (ac_ssm aws) \<lparr>gp_name = ProvisionerQueueParamKey (cfg_AWS (app_Config a)), gp_decrypt = False\<rparr> e2 = (Inr (Some (Some url)), e3)"
    "\<exists>e2 e3. ssm_get (ac_ssm aws) \<lparr>gp_name = CognitoClientIDParamKey (cfg_AWS (app_Config a)), gp_decrypt = False\<rparr> e2 = (Inr (Some (Some client)), e3)"
    "\<exists>e2 e3. loadAddr (ac_ssm aws) (app_Config a) e2 = (Inr addr, e3)"
    using loadRuntimeConfig_Inr [OF 1(2), simplified] by blast
  obtain app2 where app2: "initializeServer bw (initializeHandlers bw (initializeServices bw aws (initializeAdapters opts a3))) e3 = (Inr app2, e3)"
    "served bw (initializeServices bw aws (initializeAdapters opts a3)) app2"
    by (rule server_served)
  with 1(4,5) have "served bw (initializeServices bw aws (initializeAdapters opts a3)) app" by simp
  then show thesis
    using that [OF aws, where url = url and client = client and addr = addr] rc initializeRedis_Inr [OF 1(3)] by simp
qed


text \<open>The errors of a start say which step failed.\<close>

definition start_failures :: "string list" where
  "start_failures = [''failed to initialize logs pipeline: '', ''failed to initialize tracing: '',
     ''failed to initialize metrics: '', ''failed to initialize AWS clients: '',
     ''failed to load runtime configuration: '', ''failed to initialize Redis: '', ''failed to initialize server: '']"

definition start_failure :: "('a, 'e) result \<Rightarrow> bool" where
  "start_failure m \<longleftrightarrow> (\<forall>err. fst m = Inl err \<longrightarrow> (\<exists>pre\<in>set start_failures. \<exists>cause. err = Wrapped pre cause ''''))"



lemma start_failure_done [simp]: "start_failure (Inr x, e)"
  by (simp add: start_failure_def)


text \<open>A value that Parameter Store gave, and where the application has its Redis address from.\<close>

definition parameter_read :: "'e aws_clients \<Rightarrow> string \<Rightarrow> string \<Rightarrow> bool" where
  "parameter_read aws key v \<longleftrightarrow>
     (\<exists>e1 e2. ssm_get (ac_ssm aws) \<lparr>gp_name = key, gp_decrypt = False\<rparr> e1 = (Inr (Some (Some v)), e2))"

definition redis_address :: "'e aws_clients \<Rightarrow> config \<Rightarrow> string \<Rightarrow> bool" where
  "redis_address aws cfg addr \<longleftrightarrow>
     (if RedisAddr (cfg_Idempotency cfg) \<noteq> '''' then addr = RedisAddr (cfg_Idempotency cfg)
      else if RedisAddrParamKey (cfg_AWS cfg) \<noteq> '''' then parameter_read aws (RedisAddrParamKey (cfg_AWS cfg)) addr
      else addr = '''')"

lemma loaded_address: "loadAddr (ac_ssm aws) cfg e = (Inr addr, e') \<Longrightarrow> redis_address aws cfg addr"
  by (cases "RedisAddr (cfg_Idempotency cfg) = ''''"; cases "RedisAddrParamKey (cfg_AWS cfg) = ''''")
    (auto simp: redis_address_def parameter_read_def loadAddr_Inr dest: loadAddr_Inr, simp add: loadAddr_def)

text \<open>Services over the queue and the user pool a deployed application was told of.\<close>

definition wired_services ::
    "('x, 'r, 'e) boot_world \<Rightarrow> 'e aws_clients \<Rightarrow> string \<Rightarrow> string \<Rightarrow> ('x, 'r, 'e) application \<Rightarrow> bool" where
  "wired_services bw aws url client app \<longleftrightarrow>
     (let publish = sqs_publish (ac_sqs aws) url (bw_trace bw);
          service = NewResourceService (bw_runtime bw) publish (Some (app_Logger app));
          auth = NewAuthService (NewCognitoAuthProvider (ac_cognito aws) client);
          h = NewAuthHandler auth (app_Logger app);
          rt = bw_runtime bw; vs = bw_validator bw; ul = bw_lower bw
      in app_Publisher app = Some \<lparr>rp_publish = publish, rp_close = None\<rparr> \<and>
         app_ResourceService app = Some service \<and> app_AuthService app = Some auth \<and>
         (\<exists>hs srv. app_Handlers app = Some hs \<and> app_Server app = Some srv \<and>
            hs_handler (as_http srv) = app_handler bw hs app \<and>
            hd_provision hs = Provision rt vs ul service \<and> hd_sign_in hs = SignIn rt vs ul h \<and>
            hd_sign_up hs = SignUp rt vs ul h \<and> hd_confirm hs = ConfirmSignUp rt vs ul h))"

lemma served_wired:
  assumes "served bw (initializeServices bw aws a) app" "app_QueueURL a = url" "app_ClientID a = client"
  shows "wired_services bw aws url client app"
proof -
  obtain hs srv where app: "app = (initializeServices bw aws a)\<lparr>app_Handlers := Some hs, app_Server := Some srv\<rparr>"
    "hs_handler (as_http srv) = app_handler bw hs (initializeServices bw aws a)"
    using assms(1) unfolding served_def by blast
  have same: "app_handler bw hs app = app_handler bw hs (initializeServices bw aws a)"
    unfolding app(1) by (simp add: app_handler_def app_router_config_def otlp_enabled_def isLocalMode_def Let_def)
  have parts: "app_Handlers app = Some hs" "app_Server app = Some srv" by (simp_all add: app(1))
  then show ?thesis
    using assms app(2) same
    by (auto simp: served_def wired_services_def initializeServices_def auth_route_def Let_def)
qed

lemma deployed_app:
  assumes env: "Environment (cfg_App cfg) \<noteq> ''local''" and new: "New bw cfg opts e = (Inr app, e')"
  shows "(\<exists>aws url client. app_AWS app = Some aws \<and>
         parameter_read aws (ProvisionerQueueParamKey (cfg_AWS cfg)) url \<and>
         parameter_read aws (CognitoClientIDParamKey (cfg_AWS cfg)) client \<and>
         wired_services bw aws url client app \<and> redis_address aws cfg (app_RedisAddr app)) \<and>
      app_Store app = (if app_RedisAddr app = '''' then None
         else Some (redis_store (rh_client (bw_redis bw (app_redis_config app))) (bw_commands bw) (bw_clock bw))) \<and>
      (app_Redis app = None \<longleftrightarrow> app_RedisAddr app = '''') \<and>
      (app_Tracing app = None \<longleftrightarrow> \<not> EnableTracing (cfg_App cfg)) \<and> (app_Logs app = None \<longleftrightarrow> \<not> EnableTracing (cfg_App cfg)) \<and>
      app_Hooks app = (case app_Logs app of None \<Rightarrow> [] | Some l \<Rightarrow> [al_hook l])"
proof -
  obtain a e1 where a: "observed bw cfg e a e1" "initializeRemote bw opts a e1 = (Inr app, e')"
    using new env unfolding New_Inr by (auto simp: observed_local)
  obtain lg logs tracing m where app: "a = (empty_app cfg)\<lparr>app_Logger := lg, app_Hooks := (case logs of None \<Rightarrow> [] | Some l \<Rightarrow> [al_hook l]),
       app_Logs := logs, app_Tracing := tracing, app_Metrics := Some m\<rparr>"
    "(logs \<noteq> None) = EnableTracing (cfg_App cfg)" "(tracing \<noteq> None) = EnableTracing (cfg_App cfg)"
    by (rule observed_app [OF a(1)]) (use env in auto)
  obtain aws e2 url client addr where w: "bw_load_aws bw e1 = (Inr aws, e2)"
    "served bw (initializeServices bw aws (initializeAdapters opts
       (with_redis bw (a\<lparr>app_AWS := Some aws, app_QueueURL := url, app_ClientID := client, app_RedisAddr := addr\<rparr>)))) app"
    "\<exists>e2 e3. ssm_get (ac_ssm aws) \<lparr>gp_name = ProvisionerQueueParamKey (cfg_AWS (app_Config a)), gp_decrypt = False\<rparr> e2 = (Inr (Some (Some url)), e3)"
    "\<exists>e2 e3. ssm_get (ac_ssm aws) \<lparr>gp_name = CognitoClientIDParamKey (cfg_AWS (app_Config a)), gp_decrypt = False\<rparr> e2 = (Inr (Some (Some client)), e3)"
    "\<exists>e2 e3. loadAddr (ac_ssm aws) (app_Config a) e2 = (Inr addr, e3)"
    by (rule initializeRemote_Inr [OF a(2)]) (rule that; assumption)
  let ?a = "a\<lparr>app_AWS := Some aws, app_QueueURL := url, app_ClientID := client, app_RedisAddr := addr\<rparr>"
  have cfg: "app_Config a = cfg" by (simp add: app(1) empty_app_def)
  obtain hs srv where app_is: "app = (initializeServices bw aws (initializeAdapters opts (with_redis bw ?a)))
         \<lparr>app_Handlers := Some hs, app_Server := Some srv\<rparr>"
    using w(2) unfolding served_def by blast
  have parts: "app_AWS app = Some aws" "app_RedisAddr app = addr" "app_Config app = cfg"
    "app_Tracing app = tracing" "app_Logs app = logs" "app_Hooks app = (case logs of None \<Rightarrow> [] | Some l \<Rightarrow> [al_hook l])"
    by (simp_all add: app_is app initializeServices_def initializeAdapters_def with_redis_def empty_app_def Let_def)
  have "app_QueueURL (initializeAdapters opts (with_redis bw ?a)) = url" "app_ClientID (initializeAdapters opts (with_redis bw ?a)) = client"
    by (simp_all add: initializeAdapters_def with_redis_def)
  note wired = served_wired [OF w(2) this]
  have read: "parameter_read aws (ProvisionerQueueParamKey (cfg_AWS cfg)) url"
    "parameter_read aws (CognitoClientIDParamKey (cfg_AWS cfg)) client"
    using w(3,4) unfolding cfg parameter_read_def by blast+
  have address: "redis_address aws cfg addr" using w(5) unfolding cfg by (elim exE) (rule loaded_address)
  have rcfg: "app_redis_config ?a = app_redis_config app"
    by (simp add: app_redis_config_def parts cfg)
  have none: "app_Store ?a = None" "app_Redis ?a = None" "app_RedisAddr ?a = addr" by (simp_all add: app empty_app_def)
  have "app_Store app = app_Store (with_redis bw ?a)" "app_Redis app = app_Redis (with_redis bw ?a)"
    by (simp_all add: app_is initializeServices_def initializeAdapters_def Let_def)
  then have redis_parts: "app_Store app = (if addr = '''' then None
       else Some (redis_store (rh_client (bw_redis bw (app_redis_config app))) (bw_commands bw) (bw_clock bw)))"
    "app_Redis app = None \<longleftrightarrow> addr = ''''"
    unfolding with_redis_def rcfg none(3) using none(1,2) by simp_all
  show ?thesis
  proof (intro conjI)
    show "\<exists>aws url client. app_AWS app = Some aws \<and> parameter_read aws (ProvisionerQueueParamKey (cfg_AWS cfg)) url \<and>
        parameter_read aws (CognitoClientIDParamKey (cfg_AWS cfg)) client \<and> wired_services bw aws url client app \<and>
        redis_address aws cfg (app_RedisAddr app)"
      using parts(1) read wired address unfolding parts(2) by blast
    show "app_Tracing app = None \<longleftrightarrow> \<not> EnableTracing (cfg_App cfg)" "app_Logs app = None \<longleftrightarrow> \<not> EnableTracing (cfg_App cfg)"
      using app(2,3) unfolding parts by blast+
    show "app_Hooks app = (case app_Logs app of None \<Rightarrow> [] | Some l \<Rightarrow> [al_hook l])" unfolding parts ..
  qed (rule redis_parts [folded parts(2)])+
qed



subsection \<open>What a shutdown releases\<close>

datatype ('x, 'r) released = RedisClosed | PublisherClosed | ProviderStopped "('x, 'r) provider"

text \<open>The libraries' part: closing releases, writing a log line does not.\<close>

locale boot_laws =
  fixes bw :: "('x, 'r, 'e) boot_world"
    and rel :: "'e \<Rightarrow> ('x, 'r) released list"
  assumes close_redis: "rel (snd (rh_close (bw_redis bw c) e)) = rel e @ [RedisClosed]"
    and close_kafka: "rel (snd (snd (bw_kafka bw k) e)) = rel e @ [PublisherClosed]"
    and stop_provider: "rel (snd (os_shutdown (bw_sdk bw) p e)) = rel e @ [ProviderStopped p]"
    and emit: "rel (rt_emit (pf_runtime (bw_platform bw)) lv msg fs e) = rel e"

text \<open>Everything an application holds that has to be closed, in the order of \<open>Shutdown\<close>.\<close>

definition held :: "('x, 'r, 'e) application \<Rightarrow> ('x, 'r) released list" where
  "held a =
     (case app_Redis a of Some h \<Rightarrow> [RedisClosed] | None \<Rightarrow> []) @
     (case app_Publisher a of Some p \<Rightarrow> (case rp_close p of Some c \<Rightarrow> [PublisherClosed] | None \<Rightarrow> []) | None \<Rightarrow> []) @
     (case app_Metrics a of Some m \<Rightarrow> [ProviderStopped (am_provider m)] | None \<Rightarrow> []) @
     (case app_Tracing a of Some t \<Rightarrow> [ProviderStopped t] | None \<Rightarrow> []) @
     (case app_Logs a of Some l \<Rightarrow> [ProviderStopped (al_provider l)] | None \<Rightarrow> [])"

text \<open>Where an application has its Redis client and its publisher from.\<close>

definition from_world :: "('x, 'r, 'e) boot_world \<Rightarrow> ('x, 'r, 'e) application \<Rightarrow> bool" where
  "from_world bw a \<longleftrightarrow>
     (\<forall>h. app_Redis a = Some h \<longrightarrow> (\<exists>c. h = bw_redis bw c)) \<and>
     (\<forall>p close. app_Publisher a = Some p \<and> rp_close p = Some close \<longrightarrow> (\<exists>k. close = snd (bw_kafka bw k))) \<and>
     app_Server a \<noteq> None"

context boot_laws
begin

lemma log_keeps: "rel (log_at (pf_runtime (bw_platform bw)) lv lg msg fs e) = rel e"
  by (cases lg) (simp_all add: log_at_def emit)

lemma or_warn_keeps: "rel (or_warn bw a msg res) = rel (snd res)"
  by (cases res; cases "fst res") (simp_all add: or_warn_def app_warn_def log_keeps)

lemma close_redis_releases:
  "from_world bw a \<Longrightarrow> rel (closeRedis bw a e) = rel e @ (case app_Redis a of Some h \<Rightarrow> [RedisClosed] | None \<Rightarrow> [])"
  by (cases "app_Redis a") (auto simp: closeRedis_def or_warn_keeps from_world_def close_redis)

lemma close_publisher_releases:
  assumes "from_world bw a"
  shows "rel (closePublisher bw a e) =
    rel e @ (case app_Publisher a of Some p \<Rightarrow> (case rp_close p of Some c \<Rightarrow> [PublisherClosed] | None \<Rightarrow> []) | None \<Rightarrow> [])"
proof (cases "\<exists>p close. app_Publisher a = Some p \<and> rp_close p = Some close")
  case True
  then obtain p close where p: "app_Publisher a = Some p" "rp_close p = Some close" by blast
  then obtain k where "close = snd (bw_kafka bw k)" using assms by (auto simp: from_world_def)
  moreover have "snd (closing res) = snd res" for res :: "(goerr + unit) \<times> 'e"
    by (cases res; cases "fst res") (simp_all add: closing_def)
  ultimately show ?thesis using p close_kafka [of k e] by (simp add: closePublisher_def or_warn_keeps)
next
  case False
  then show ?thesis by (auto simp: closePublisher_def split: option.splits)
qed

lemma stop_provider_releases:
  "rel (stopProvider bw a msg p e) = rel e @ (case p of Some q \<Rightarrow> [ProviderStopped q] | None \<Rightarrow> [])"
  by (cases p) (simp_all add: stopProvider_def or_warn_keeps stop_provider)

lemma shutdown_releases:
  assumes "from_world bw a"
  shows "fst (app_Shutdown bw a e) = None \<and> rel (snd (app_Shutdown bw a e)) = rel e @ held a"
  using close_redis_releases [OF assms] close_publisher_releases [OF assms]
  by (simp add: app_Shutdown_def Let_def stop_provider_releases app_info_def log_keeps held_def option.case_eq_if option.map_sel)

end

lemma local_publisher_close:
  assumes "local_publisher bw cfg = Some p" "rp_close p = Some close"
  shows "\<exists>k. close = snd (bw_kafka bw k)"
proof -
  let ?k = "kafka_publisher_config (KafkaBrokers (cfg_Messaging cfg)) (KafkaTopic (cfg_Messaging cfg))"
  obtain kwriter c where k: "bw_kafka bw ?k = (kwriter, c)" by fastforce
  have "kafka_close c = c" by (simp add: fun_eq_iff kafka_close_def)
  then have "close = c" using assms k by (auto simp: local_publisher_def split: if_splits)
  then have "close = snd (bw_kafka bw ?k)" using k by simp
  then show ?thesis by blast
qed

lemma New_from_world:
  assumes "New bw cfg opts e = (Inr app, e')"
  shows "from_world bw app"
proof (cases "Environment (cfg_App cfg) = ''local''")
  case True
  obtain m where "served bw (local_wired bw opts ((logger_started (empty_app cfg))\<lparr>app_Metrics := Some m\<rparr>)) app"
    using New_local_app [OF True assms] by blast
  then obtain hs srv where app: "app = (local_wired bw opts ((logger_started (empty_app cfg))\<lparr>app_Metrics := Some m\<rparr>))
      \<lparr>app_Handlers := Some hs, app_Server := Some srv\<rparr>"
    unfolding served_def by blast
  have "app_Publisher app = local_publisher bw cfg" "app_Redis app = None" "app_Server app = Some srv"
    by (cases "local_publisher bw cfg"; simp add: app local_wired_def logger_started_def empty_app_def)+
  then show ?thesis
    using local_publisher_close [of bw cfg] by (simp add: from_world_def)
next
  case False
  then obtain a e1 where a: "observed bw cfg e a e1" "initializeRemote bw opts a e1 = (Inr app, e')"
    using assms unfolding New_Inr by (auto simp: observed_local)
  have none: "app_Redis a = None"
    by (rule observed_app [OF a(1)]) (simp add: empty_app_def)
  obtain aws url client addr where "served bw (initializeServices bw aws (initializeAdapters opts
      (with_redis bw (a\<lparr>app_AWS := Some aws, app_QueueURL := url, app_ClientID := client, app_RedisAddr := addr\<rparr>)))) app"
    by (rule initializeRemote_Inr [OF a(2)]) (rule that)
  then show ?thesis
    by (auto simp: served_def from_world_def initializeServices_def initializeAdapters_def with_redis_def Let_def none split: if_splits)
qed


text \<open>C38: The program never stops at the validation of its configuration. When the start fails it exits
  with status 1 and the error logged, and shuts nothing down of what the start had opened.
  Otherwise it runs the server, and whether that fails or not, then closes what the application
  holds, each once: Redis, a publisher that can be closed, and the providers of metrics, traces
  and, last, logs; an error of one does not keep the next from being closed. The status is 0
  exactly when the server returned without an error.\<close>

theorem server_main_releases:
  assumes "boot_laws bw rel"
  shows "case New bw (NewConfig env []) DefaultOptions e of
      (Inl err, e1) \<Rightarrow> server_main bw env e = fatal bw ''Failed to initialize application'' err e1
    | (Inr app, e1) \<Rightarrow>
        (\<exists>srv result e2 e'. app_Server app = Some srv \<and> Run bw app srv e1 = (result, e2) \<and>
           server_main bw env e = ((if result = None then 0 else 1), e') \<and> rel e' = rel e2 @ held app)"
proof (cases "New bw (NewConfig env []) DefaultOptions e" rule: result_cases)
  have valid: "config_Validate (NewConfig env []) = None"
    using default_config_keys [of env] by (simp add: config_Validate_def NewConfig_def)
  case (failed err e1)
  then show ?thesis by (simp add: server_main_def valid)
next
  have valid: "config_Validate (NewConfig env []) = None"
    using default_config_keys [of env] by (simp add: config_Validate_def NewConfig_def)
  case (went_on app e1)
  note world = New_from_world [OF went_on]
  then obtain srv where srv: "app_Server app = Some srv" by (auto simp: from_world_def)
  obtain result e2 where run: "Run bw app srv e1 = (result, e2)" by fastforce
  note releases = boot_laws.shutdown_releases [OF assms world]
  show ?thesis
  proof (cases result)
    case None
    then show ?thesis
      using went_on srv run releases [of e2] by (cases "app_Shutdown bw app e2") (simp add: server_main_def valid)
  next
    case (Some err)
    let ?e3 = "log_error (bw_runtime bw) (app_Logger app) ''Application error'' [F ''error'' (AStr (error_text err))] e2"
    show ?thesis
      using Some went_on srv run releases [of ?e3] boot_laws.log_keeps [OF assms]
      by (cases "app_Shutdown bw app ?e3") (simp add: server_main_def valid)
  qed
qed

subsection \<open>The prefix of the environment\<close>

text \<open>C39: With tracing enabled the environment's name is an optional first segment of every path: a request
  for a clean path behind it is served by the router as the request without it, and a path that
  does not begin with it reaches the router as it is.\<close>

theorem environment_prefix_is_optional:
  assumes "mux_path r = rq_path r"
  shows "(\<forall>p. rq_path r = ''/'' @ env @ ''/'' @ p \<longrightarrow>
      outer_mux redirect env router r w e =
        (case router (r\<lparr>rq_pattern := ''/'' @ env @ ''/'', rq_path := ''/'' @ p\<rparr>) w e of
           (out, r2, w', e') \<Rightarrow>
             (out, r\<lparr>rq_pattern := ''/'' @ env @ ''/'', rq_header := rq_header r2\<rparr>, w', e'))) \<and>
    (\<not> prefix (''/'' @ env @ ''/'') (rq_path r @ ''/'') \<longrightarrow>
      outer_mux redirect env router r w e = router (r\<lparr>rq_pattern := ''/''\<rparr>) w e)"
proof (intro conjI allI impI)
  fix p assume p: "rq_path r = ''/'' @ env @ ''/'' @ p"
  have "rq_path r @ ''/'' \<noteq> ''/'' @ env @ ''/''" using p by (metis append.assoc append_is_Nil_conv list.simps(3) self_append_conv)
  moreover have "trim_prefix (''/'' @ env) (rq_path r) = ''/'' @ p"
    using p by (simp add: trim_prefix_def)
  ultimately show "outer_mux redirect env router r w e =
      (case router (r\<lparr>rq_pattern := ''/'' @ env @ ''/'', rq_path := ''/'' @ p\<rparr>) w e of
         (out, r2, w', e') \<Rightarrow>
             (out, r\<lparr>rq_pattern := ''/'' @ env @ ''/'', rq_header := rq_header r2\<rparr>, w', e'))"
    using p assms by (simp add: outer_mux_def StripPrefix_def Let_def split: prod.split)
next
  assume n: "\<not> prefix (''/'' @ env @ ''/'') (rq_path r @ ''/'')"
  then have "rq_path r @ ''/'' \<noteq> ''/'' @ env @ ''/''" by auto
  moreover have "\<not> prefix (''/'' @ env @ ''/'') (rq_path r)" using n by (meson prefix_prefix)
  ultimately show "outer_mux redirect env router r w e = router (r\<lparr>rq_pattern := ''/''\<rparr>) w e"
    using assms by (simp add: outer_mux_def Let_def)
qed


subsection \<open>A sample world and the witnesses\<close>

definition quiet_runtime :: "'e runtime" where
  "quiet_runtime = \<lparr>rt_now = (\<lambda>e. (0, e)), rt_uuid = (\<lambda>e. ('''', e)), rt_add = (\<lambda>n i a e. e),
     rt_record = (\<lambda>n d a e. e), rt_emit = (\<lambda>lv msg a e. e)\<rparr>"

text \<open>The state counts nothing but what was released.\<close>

type_synonym boot_state = "(string, string) released list"

definition sample_sdk :: "(string, string, boot_state) otel_sdk" where
  "sample_sdk = \<lparr>os_resource = (\<lambda>a e. (Inr '''', e)), os_trace_exporter = (\<lambda>e. (Inr ''traces'', e)),
     os_metric_exporter = (\<lambda>e. (Inr ''metrics'', e)), os_log_exporter = (\<lambda>e. (Inr ''logs'', e)),
     os_new_registry = (\<lambda>e. (0, e)), os_prometheus = (\<lambda>n e. (Inr ''prometheus'', e)), os_set_provider = (\<lambda>p e. e),
     os_set_propagators = (\<lambda>ps e. e), os_shutdown = (\<lambda>p e. (Some (Opaque ''timeout''), e @ [ProviderStopped p]))\<rparr>"

definition sample_aws :: "boot_state aws_clients" where
  "sample_aws = \<lparr>ac_ssm = \<lparr>ssm_get = (\<lambda>inp e. (Inr (Some (Some (gp_name inp))), e)), ssm_get_many = (\<lambda>ns e. (Inr [], e))\<rparr>,
     ac_sqs = (\<lambda>m e. (Inr (), e)),
     ac_cognito = \<lparr>cc_sign_up = (\<lambda>i e. (Inr (), e)), cc_initiate_auth = (\<lambda>i e. (Inr None, e)), cc_confirm = (\<lambda>i e. (Inr (), e))\<rparr>\<rparr>"

definition teapot :: "'e handler" where
  "teapot r w e = (Returned, r, w, e)"

definition sample_boot :: "(string, string, boot_state) boot_world" where
  "sample_boot =
     \<lparr>bw_platform = \<lparr>pf_runtime = quiet_runtime, pf_uuid_ok = (\<lambda>k. True), pf_sha256 = id, pf_stack = '''',
        pf_redirect = (\<lambda>p. teapot), pf_gauge_ok = True, pf_histogram_ok = True\<rparr>,
      bw_sdk = sample_sdk, bw_load_aws = (\<lambda>e. (Inr sample_aws, e)),
      bw_redis = (\<lambda>c. \<lparr>rh_ping = (\<lambda>d e. (None, e)), rh_close = (\<lambda>e. (None, e @ [RedisClosed])),
        rh_client = \<lparr>r_setnx = (\<lambda>k v d e. (Inr True, e)), r_get = (\<lambda>k e. (Inr None, e)), r_eval = (\<lambda>f e. f e)\<rparr>\<rparr>),
      bw_commands = \<lparr>c_exists = (\<lambda>k e. False), c_get = (\<lambda>k e. None), c_set_px = (\<lambda>k v d e. Inr e), c_del = (\<lambda>k e. e)\<rparr>,
      bw_clock = (\<lambda>e. 0), bw_kafka = (\<lambda>k. (\<lambda>m e. (Inr (), e), \<lambda>e. (Inr (), e @ [PublisherClosed]))),
      bw_trace = (\<lambda>e. []), bw_validator = (\<lambda>fs. []), bw_lower = id, bw_serve_file = (\<lambda>f. teapot),
      bw_swagger_ui = teapot, bw_scrape = (\<lambda>n. teapot), bw_otelhttp = id,
      bw_life = \<lparr>sl_serve = (\<lambda>s e. (Signal ''terminated'', e)), sl_listen = (\<lambda>s e. (None, e)), sl_shutdown = (\<lambda>d s e. (None, e))\<rparr>\<rparr>"

interpretation sample_boot: boot_laws sample_boot id
  by unfold_locales (auto simp: sample_boot_def sample_sdk_def quiet_runtime_def)

definition boot_environment :: "string \<Rightarrow> environment" where
  "boot_environment name = \<lparr>env_vars = [''ENVIRONMENT'' \<mapsto> name, ''REDIS_ADDR'' \<mapsto> ''redis:6379''], env_frac = (\<lambda>f u k. 0)\<rparr>"

lemma boot_environment_name:
  "name \<noteq> '''' \<Longrightarrow> Environment (cfg_App (NewConfig (boot_environment name) [])) = name"
  by (simp add: NewConfig_def default_config_def getEnvOrDefault_def getenv_def boot_environment_def)

lemma boot_environment_redis: "RedisAddr (cfg_Idempotency (NewConfig (boot_environment name) [])) = ''redis:6379''"
  by (simp add: NewConfig_def default_config_def getEnvOrDefault_def getenv_def boot_environment_def)

definition request_of :: "string \<Rightarrow> http_request" where
  "request_of b = \<lparr>rq_method = ''POST'', rq_path = ''/v1/provision'', rq_header = [], rq_body = Body b, rq_pattern = ''''\<rparr>"

lemma empty_request_acceptable: "acceptable_body sample_boot resource_struct (request_of ''{}'')"
proof -
  have "decode_body resource_struct (Body ''{}'') = Some empty_resource" by code_simp
  then show ?thesis
    by (simp add: acceptable_body_def request_of_def ValidateStruct_def sample_boot_def)
qed

lemma sample_starts:
  "\<exists>app e'. New sample_boot cfg opts e = (Inr app, e')"
proof -
  have logs: "\<exists>a' e'. startLogs sample_boot a e = (Inr a', e')" "\<exists>a' e'. startTracing sample_boot a e = (Inr a', e')"
    "\<exists>a' e'. initializeMetrics sample_boot a e = (Inr a', e')" for a e
    by (simp_all add: startLogs_def startTracing_def initializeMetrics_def sample_boot_def sample_sdk_def NewLogs_def
        NewTracing_def NewMetricsProvider_def newResource_def Let_def)
  obtain a1 e1 where 1: "startLogs sample_boot (empty_app cfg) e = (Inr a1, e1)" using logs(1) by blast
  obtain e2 where 2: "startLogger sample_boot a1 e1 = (Inr (logger_started a1), e2)"
    using startLogger_started [of sample_boot a1 e1] by (elim exE)
  obtain a3 e3 where 3: "startTracing sample_boot (logger_started a1) e2 = (Inr a3, e3)" using logs(2) by blast
  obtain a4 e4 where 4: "initializeMetrics sample_boot a3 e3 = (Inr a4, e4)" using logs(3) by blast
  have load: "\<exists>a' e'. loadRuntimeConfig sample_boot (ac_ssm sample_aws) a e = (Inr a', e')" for a e
    by (simp add: loadRuntimeConfig_def GetParameter_def sample_aws_def loadAddr_def Let_def)
  have redis: "\<exists>a' e'. initializeRedis sample_boot a e = (Inr a', e')" for a e
    by (simp add: initializeRedis_def NewRedisClient_def sample_boot_def app_redis_config_def Let_def)
  have "\<exists>app e'. (if isLocalMode a4 then initializeLocal sample_boot opts a4 e4 else initializeRemote sample_boot opts a4 e4) = (Inr app, e')"
  proof (cases "isLocalMode a4")
    case True
    obtain app e' where "initializeLocal sample_boot opts a4 e4 = (Inr app, e')" by (rule local_wires)
    with True show ?thesis by simp
  next
    case False
    have aws: "NewAWSClients (bw_load_aws sample_boot) e4 = (Inr sample_aws, e4)" by (simp add: NewAWSClients_def sample_boot_def)
    obtain a5 e5 where 5: "loadRuntimeConfig sample_boot (ac_ssm sample_aws) (a4\<lparr>app_AWS := Some sample_aws\<rparr>) e4 = (Inr a5, e5)"
      using load by blast
    obtain a6 e6 where 6: "initializeRedis sample_boot a5 e5 = (Inr a6, e6)" using redis by blast
    obtain app where "initializeServer sample_boot (initializeHandlers sample_boot
        (initializeServices sample_boot sample_aws (initializeAdapters opts a6))) e6 = (Inr app, e6)"
      by (rule server_served)
    with False aws 5 6 show ?thesis by (simp add: initializeRemote_def)
  qed
  with 1 2 3 4 show ?thesis by (simp add: New_def)
qed

theorem local_mode_is_offline_witness:
  "\<exists>app e' srv r' w' e2. New sample_boot (NewConfig (boot_environment ''local'') []) DefaultOptions [] = (Inr app, e') \<and>
     app_Redis app = None \<and> app_Publisher app = None \<and> app_Server app = Some srv \<and>
     hs_handler (as_http srv) (request_of ''{}'') new_writer [] = (Returned, r', w', e2) \<and> response_status w' = Some 500"
proof -
  let ?cfg = "NewConfig (boot_environment ''local'') []"
  have env: "Environment (cfg_App ?cfg) = ''local''" by (rule boot_environment_name) simp
  obtain app e' where new: "New sample_boot ?cfg DefaultOptions [] = (Inr app, e')" using sample_starts by blast
  have "KafkaBrokers (cfg_Messaging ?cfg) = []"
    by (simp add: NewConfig_def default_config_def getSliceEnv_def getenv_def boot_environment_def)
  then have none: "local_publisher sample_boot ?cfg = None" by (simp add: local_publisher_def)
  have "unserved sample_boot ?cfg (request_of ''{}'')"
    using empty_request_acceptable none by (simp add: unserved_def request_of_def)
  with local_mode_is_offline [OF env, THEN conjunct2, rule_format, OF new] new_writer_fresh none new
  show ?thesis by metis
qed



theorem server_main_releases_witness:
  "\<exists>e2 rest. server_main sample_boot (boot_environment ''dev'') [] = (0, e2 @ RedisClosed # rest)"
proof -
  let ?cfg = "NewConfig (boot_environment ''dev'') []"
  have env: "Environment (cfg_App ?cfg) \<noteq> ''local''" by (simp add: boot_environment_name)
  obtain app e1 where new: "New sample_boot ?cfg DefaultOptions [] = (Inr app, e1)" using sample_starts by blast
  have addr: "app_RedisAddr app = ''redis:6379''" "app_Redis app = None \<longleftrightarrow> app_RedisAddr app = ''''"
    using deployed_app [OF env new] boot_environment_redis [of "''dev''"] by (auto simp: redis_address_def)
  have run: "fst (Run sample_boot app srv e) = None" for srv e
    by (simp add: Run_def server_Start_def server_Shutdown_def sample_boot_def Let_def)
  obtain srv result e2 e' where main: "Run sample_boot app srv e1 = (result, e2)"
    "server_main sample_boot (boot_environment ''dev'') [] = ((if result = None then 0 else 1), e')" "id e' = id e2 @ held app"
    using server_main_releases [OF sample_boot.boot_laws_axioms, of "boot_environment ''dev''" "[]"] new by auto
  have "result = None" using run [of srv e1] main(1) by simp
  then have "server_main sample_boot (boot_environment ''dev'') [] = (0, e')" using main(2) by simp
  moreover obtain h where "app_Redis app = Some h" using addr by auto
  then obtain rest where "held app = RedisClosed # rest" by (simp add: held_def)
  then have "e' = e2 @ RedisClosed # rest" using main(3) by simp
  ultimately show ?thesis by blast
qed

theorem environment_prefix_is_optional_witness:
  "outer_mux (\<lambda>p. teapot) ''dev'' HealthCheck ((request_of '''')\<lparr>rq_path := ''/dev/v1/health''\<rparr>) new_writer [] =
     (Returned, (request_of '''')\<lparr>rq_path := ''/dev/v1/health'', rq_pattern := ''/dev/''\<rparr>,
      w_write ''OK'' (w_write_header 200 new_writer), [])"
proof -
  let ?r = "(request_of '''')\<lparr>rq_path := ''/dev/v1/health''\<rparr>"
  have "mux_path ?r = rq_path ?r"
    by (simp add: request_of_def mux_path_def clean_path_def path_clean_def Let_def)
  from environment_prefix_is_optional [OF this, of "''dev''" "\<lambda>p. teapot" HealthCheck new_writer "[]"]
  show ?thesis by (simp add: HealthCheck_def)
qed

end
