(* ===== verification/Queue_Pipeline.thy ===== *)
theory Queue_Pipeline
  imports Handler_Properties Consumer_Properties
begin

text \<open>
  The two services over one queue: requests are served by the API one after the other, and the
  provisioner's consumer runs over what they left. The queue is the library's: it may take a
  message more than once, and may have taken one it reports as failed, so it holds at least the
  accepted requests, in their order, and nothing but messages of valid requests. The locale
  \<open>resource_queue\<close> is what the API relies on; Kafka's topic and the SQS queue are two of its kind.
\<close>

subsection \<open>Serving requests\<close>

fun serve_all :: "'e handler \<Rightarrow> (http_request \<times> writer) list \<Rightarrow> 'e \<Rightarrow> (http_request \<times> writer) list \<times> 'e" where
  "serve_all h [] e = ([], e)"
| "serve_all h ((r, w) # rs) e =
     (case h r w e of (out, r', w', e1) \<Rightarrow> case serve_all h rs e1 of (answers, e2) \<Rightarrow> ((r, w') # answers, e2))"

definition sent_resource :: "body \<Rightarrow> resource option" where
  "sent_resource b = decode_body resource_struct b"

text \<open>The resources of the requests that were answered 202.\<close>

definition accepted_resources :: "(http_request \<times> writer) list \<Rightarrow> resource list" where
  "accepted_resources answers =
     map (\<lambda>(r, w). the (sent_resource (rq_body r))) (filter (\<lambda>(r, w). response_status w = Some 202) answers)"

lemma accepted_simps [simp]:
  "accepted_resources [] = []"
  "accepted_resources ((r, w) # answers) =
     (if response_status w = Some 202 then [the (sent_resource (rq_body r))] else []) @ accepted_resources answers"
  by (simp_all add: accepted_resources_def)

definition valid_request :: "validator \<Rightarrow> (string \<Rightarrow> string) \<Rightarrow> resource \<Rightarrow> http_request \<Rightarrow> bool" where
  "valid_request vs ul x r \<longleftrightarrow> sent_resource (rq_body r) = Some x \<and> ValidateStruct vs ul (resource_tags x) = []"

lemma valid_request_utf8: "valid_request vs ul x r \<Longrightarrow> utf8_resource x"
  by (auto simp: valid_request_def sent_resource_def dest: decoded_resource_utf8)

lemma provision_refused:
  assumes "fresh_writer w" "unacceptable vs ul resource_struct r"
  obtains w' where "Provision rt vs ul svc r w e = (Returned, r, w', e)" "response_status w' = Some 400"
proof -
  obtain out r' w' e' where p: "Provision rt vs ul svc r w e = (out, r', w', e')" by (rule prod_cases4)
  have "turned_away (Provision rt vs ul svc) r w e"
    unfolding Provision_def by (rule unacceptable_turned_away [OF assms])
  with p have "out = Returned" "r' = r" "e' = e" "response_status w' = Some 400" by (simp_all add: turned_away_def)
  with p that show thesis by simp
qed

subsection \<open>A queue of resources\<close>

locale resource_queue =
  fixes rt :: "'e runtime" and publish :: "'e publisher"
    and queue :: "'e \<Rightarrow> 'm list" and message :: "'e \<Rightarrow> resource \<Rightarrow> 'm"
  assumes published: "publish x e = (Inr u, e') \<Longrightarrow> \<exists>k. 0 < k \<and> queue e' = queue e @ replicate k (message e x)"
    and uncertain: "publish x e = (Inl err, e') \<Longrightarrow> \<exists>k. queue e' = queue e @ replicate k (message e x)"
    and elsewhere: "queue (snd (rt_now rt e)) = queue e" "queue (rt_emit rt lv msg fs e) = queue e"
begin

lemma queue_log: "queue (log_at rt lv lg msg fs e) = queue e"
  by (cases lg) (simp_all add: log_at_def elsewhere)

definition of_request :: "validator \<Rightarrow> (string \<Rightarrow> string) \<Rightarrow> http_request set \<Rightarrow> 'm \<Rightarrow> bool" where
  "of_request vs ul rs m \<longleftrightarrow> (\<exists>r\<in>rs. \<exists>x e. valid_request vs ul x r \<and> m = message e x)"

definition carries :: "resource \<Rightarrow> 'm \<Rightarrow> bool" where
  "carries x m \<longleftrightarrow> utf8_resource x \<and> (\<exists>e. m = message e x)"

text \<open>One request adds nothing, or copies of its message; a 202 adds at least one.\<close>

lemma provision_step:
  assumes "fresh_writer w"
    and h: "Provision rt vs ul (NewResourceService rt publish lg) r w e = (out, r', w', e')"
  shows "\<exists>ms xs. queue e' = queue e @ ms \<and> (\<forall>m\<in>set ms. of_request vs ul {r} m) \<and> list_all2 carries xs ms \<and>
    (response_status w' = Some 202 \<longrightarrow> the (sent_resource (rq_body r)) \<in> set xs)"
proof (cases "unacceptable vs ul resource_struct r")
  case True
  obtain w'' where w'': "Provision rt vs ul (NewResourceService rt publish lg) r w e = (Returned, r, w'', e)"
    "response_status w'' = Some 400"
    by (rule provision_refused [OF assms(1) True])
  from trans [OF h [symmetric] w''(1)] w''(2) show ?thesis by simp
next
  case False
  then obtain x where x: "decode_body resource_struct (rq_body r) = Some x" "ValidateStruct vs ul (resource_tags x) = []"
    by (auto simp: unacceptable_def split: option.splits)
  then have s: "sent_resource (rq_body r) = Some x" and v: "valid_request vs ul x r"
    by (simp_all add: sent_resource_def valid_request_def)
  let ?e1 = "publishing_logged rt lg x e"
  obtain res e2 where k: "publish x ?e1 = (res, e2)" by fastforce
  note served = provision_served [OF assms(1) x, where publish = publish and rt = rt and lg = lg and e = e, unfolded k prod.case h]
  have start: "queue ?e1 = queue e" by (simp add: publishing_logged_def queue_log)
  have added: ?thesis if "queue e' = queue e @ replicate n (message ?e1 x)" "response_status w' = Some 202 \<Longrightarrow> 0 < n" for n
  proof (intro exI conjI)
    show "queue e' = queue e @ replicate n (message ?e1 x)" by (rule that(1))
    show "\<forall>m\<in>set (replicate n (message ?e1 x)). of_request vs ul {r} m" using v by (auto simp: of_request_def)
    show "list_all2 carries (replicate n x) (replicate n (message ?e1 x))"
      using valid_request_utf8 [OF v] by (auto simp: list_all2_conv_all_nth carries_def)
    show "response_status w' = Some 202 \<longrightarrow> the (sent_resource (rq_body r)) \<in> set (replicate n x)"
      using that(2) s by auto
  qed
  show ?thesis
  proof (cases res)
    case (Inl err)
    with served have "e' = e2" "response_status w' = Some 500" by auto
    moreover obtain n where "queue e2 = queue e @ replicate n (message ?e1 x)" using uncertain k Inl start by metis
    ultimately show ?thesis using added [of n] by simp
  next
    case (Inr u)
    with served have "e' = snd (rt_now rt e2)" by auto
    moreover obtain n where "0 < n" "queue e2 = queue e @ replicate n (message ?e1 x)" using published k Inr start by metis
    ultimately show ?thesis using added [of n] by (simp add: elsewhere)
  qed
qed

lemma queue_after:
  assumes "serve_all (Provision rt vs ul (NewResourceService rt publish lg)) rs e = (answers, e')"
    and "\<forall>(r, w)\<in>set rs. fresh_writer w"
  shows "\<exists>ms xs. queue e' = queue e @ ms \<and> (\<forall>m\<in>set ms. of_request vs ul (fst ` set rs) m) \<and>
    list_all2 carries xs ms \<and> subseq (accepted_resources answers) xs"
  using assms
proof (induction rs arbitrary: e answers)
  case (Cons rw rs)
  obtain r w where rw: "rw = (r, w)" by (cases rw)
  obtain out r' w' e1 where h: "Provision rt vs ul (NewResourceService rt publish lg) r w e = (out, r', w', e1)"
    by (metis prod_cases4)
  obtain answers' where rest: "serve_all (Provision rt vs ul (NewResourceService rt publish lg)) rs e1 = (answers', e')"
    "answers = (r, w') # answers'"
    using Cons.prems(1) rw h by (auto split: prod.splits)
  obtain ms xs where ms: "queue e1 = queue e @ ms" "\<forall>m\<in>set ms. of_request vs ul {r} m" "list_all2 carries xs ms"
    "response_status w' = Some 202 \<longrightarrow> the (sent_resource (rq_body r)) \<in> set xs"
    using provision_step [OF _ h] Cons.prems(2) rw by auto
  obtain ns ys where ns: "queue e' = queue e1 @ ns" "\<forall>m\<in>set ns. of_request vs ul (fst ` set rs) m" "list_all2 carries ys ns"
    "subseq (accepted_resources answers') ys"
    using Cons.IH [OF rest(1)] Cons.prems(2) by auto
  have "subseq (if response_status w' = Some 202 then [the (sent_resource (rq_body r))] else []) xs"
    using ms(4) by (simp add: subseq_singleton_left)
  from list_emb_append_mono [OF this ns(4)]
  have "subseq (accepted_resources answers) (xs @ ys)" by (simp add: rest(2))
  moreover have "list_all2 carries (xs @ ys) (ms @ ns)" using ms(3) ns(3) by (rule list_all2_appendI)
  moreover have "\<forall>m\<in>set (ms @ ns). of_request vs ul (fst ` set (rw # rs)) m"
    using ms(2) ns(2) unfolding of_request_def rw by auto
  ultimately show ?case using ms(1) ns(1) by (intro exI [of _ "ms @ ns"] exI [of _ "xs @ ys"]) simp
qed simp

end

subsection \<open>Kafka and SQS\<close>

text \<open>The writer and the sender: what was taken is there at least once, what was reported as failed may be.\<close>

locale kafka_topic =
  fixes rt :: "'e runtime" and kwriter :: "'e kafka_writer" and topic :: "'e \<Rightarrow> kafka_message list"
  assumes written: "kwriter m e = (Inr u, e') \<Longrightarrow> \<exists>k. 0 < k \<and> topic e' = topic e @ replicate k m"
    and unwritten: "kwriter m e = (Inl err, e') \<Longrightarrow> \<exists>k. topic e' = topic e @ replicate k m"
    and untouched: "topic (snd (rt_now rt e)) = topic e" "topic (rt_emit rt lv msg fs e) = topic e"

sublocale kafka_topic \<subseteq> to_topic: resource_queue rt "kafka_publish kwriter trace" topic "\<lambda>e. provisioning_message (trace e)" for trace
proof unfold_locales
  fix x e u e' assume "kafka_publish kwriter trace x e = (Inr u, e')"
  then show "\<exists>k. 0 < k \<and> topic e' = topic e @ replicate k (provisioning_message (trace e) x)"
    by (auto simp: kafka_publish_message split: prod.splits sum.splits dest: written)
next
  fix x e err e' assume "kafka_publish kwriter trace x e = (Inl err, e')"
  then show "\<exists>k. topic e' = topic e @ replicate k (provisioning_message (trace e) x)"
    by (auto simp: kafka_publish_message split: prod.splits sum.splits dest: unwritten)
qed (rule untouched)+

definition provisioning_input :: "string \<Rightarrow> (string \<times> string) list \<Rightarrow> resource \<Rightarrow> sqs_message_input" where
  "provisioning_input url ps x =
     \<lparr>sm_body = print_json (resource_json x), sm_queue = url,
      sm_attributes = (if sqs_inject ps [] \<noteq> [] then Some (sqs_inject ps []) else None)\<rparr>"

lemma sqs_publish_message:
  "sqs_publish send url trace x e = (case send (provisioning_input url (trace e) x) e of
     (Inl err, e') \<Rightarrow> (Inl (failed_with ErrCodeQueueError (''failed to publish resource '' @ rs_id x @ '' to queue'') err), e')
   | (Inr u, e') \<Rightarrow> (Inr (), e'))"
  by (simp add: sqs_publish_def marshal_resource_def provisioning_input_def Let_def)

locale sqs_queue =
  fixes rt :: "'e runtime" and send :: "'e sqs_sender" and queue :: "'e \<Rightarrow> sqs_message_input list"
  assumes sent: "send m e = (Inr u, e') \<Longrightarrow> \<exists>k. 0 < k \<and> queue e' = queue e @ replicate k m"
    and unsent: "send m e = (Inl err, e') \<Longrightarrow> \<exists>k. queue e' = queue e @ replicate k m"
    and untouched: "queue (snd (rt_now rt e)) = queue e" "queue (rt_emit rt lv msg fs e) = queue e"

sublocale sqs_queue \<subseteq> to_queue: resource_queue rt "sqs_publish send url trace" queue "\<lambda>e. provisioning_input url (trace e)" for url trace
proof unfold_locales
  fix x e u e' assume "sqs_publish send url trace x e = (Inr u, e')"
  then show "\<exists>k. 0 < k \<and> queue e' = queue e @ replicate k (provisioning_input url (trace e) x)"
    by (auto simp: sqs_publish_message split: prod.splits sum.splits dest: sent)
next
  fix x e err e' assume "sqs_publish send url trace x e = (Inl err, e')"
  then show "\<exists>k. queue e' = queue e @ replicate k (provisioning_input url (trace e) x)"
    by (auto simp: sqs_publish_message split: prod.splits sum.splits dest: unsent)
qed (rule untouched)+

subsection \<open>From the request to the acknowledgement\<close>

text \<open>What a message of either queue is: a valid resource of one of the requests, with what
  \<open>trace\<close> gave in some state of the API: the context a request carries is part of the world here.\<close>

definition message_for ::
    "validator \<Rightarrow> (string \<Rightarrow> string) \<Rightarrow> ('e \<Rightarrow> (string \<times> string) list) \<Rightarrow> http_request set \<Rightarrow>
     string \<Rightarrow> (string \<Rightarrow> string) \<Rightarrow> bool" where
  "message_for vs ul trace rs body header \<longleftrightarrow>
     (\<exists>r\<in>rs. \<exists>x e. valid_request vs ul x r \<and> sent_resource (Body body) = Some x \<and> header = injected (trace e))"

lemma body_decodes: "utf8_resource x \<Longrightarrow> sent_resource (Body (print_json (resource_json x))) = Some x"
  using message_decodes [of x] by (simp add: sent_resource_def provisioning_message_def)

context kafka_topic
begin

lemma topic_after:
  assumes "serve_all (Provision rt vs ul (NewResourceService rt (kafka_publish kwriter trace) lg)) rs e = (answers, e')"
    and "\<forall>(r, w)\<in>set rs. fresh_writer w"
  obtains ms where "topic e' = topic e @ ms"
    "\<forall>m\<in>set ms. message_for vs ul trace (fst ` set rs) (km_value m) (recv_kafka_get (km_headers m))"
    "subseq (map Some (accepted_resources answers)) (map (\<lambda>m. sent_resource (Body (km_value m))) ms)"
proof -
  obtain ms xs where ms: "topic e' = topic e @ ms" "\<forall>m\<in>set ms. to_topic.of_request trace vs ul (fst ` set rs) m"
    "list_all2 (to_topic.carries trace) xs ms" "subseq (accepted_resources answers) xs"
    using to_topic.queue_after [OF assms] by blast
  have "message_for vs ul trace (fst ` set rs) (km_value m) (recv_kafka_get (km_headers m))" if m: "m \<in> set ms" for m
  proof -
    obtain r x e1 where "r \<in> fst ` set rs" "valid_request vs ul x r" "m = provisioning_message (trace e1) x"
      using ms(2) m unfolding to_topic.of_request_def by blast
    then show ?thesis
      using body_decodes [OF valid_request_utf8] unfolding message_for_def
      by (intro bexI [of _ r] exI [of _ x] exI [of _ e1]) (simp_all add: provisioning_message_def recv_kafka_injected)
  qed
  moreover have "to_topic.carries trace x m \<longrightarrow> sent_resource (Body (km_value m)) = Some x" for x m
    by (auto simp: to_topic.carries_def provisioning_message_def body_decodes)
  then have "map (\<lambda>m. sent_resource (Body (km_value m))) ms = map Some xs"
    using ms(3) by (auto simp: list_all2_conv_all_nth intro: nth_equalityI)
  then have "subseq (map Some (accepted_resources answers)) (map (\<lambda>m. sent_resource (Body (km_value m))) ms)"
    using subseq_map [OF ms(4), of Some] by simp
  ultimately show thesis using that [OF ms(1)] by blast
qed

end

context sqs_queue
begin

lemma queue_after_all:
  assumes "serve_all (Provision rt vs ul (NewResourceService rt (sqs_publish send url trace) lg)) rs e = (answers, e')"
    and "\<forall>(r, w)\<in>set rs. fresh_writer w"
  obtains ms where "queue e' = queue e @ ms"
    "\<forall>m\<in>set ms. sm_queue m = url \<and>
       message_for vs ul trace (fst ` set rs) (sm_body m) (recv_sqs_get (case sm_attributes m of Some c \<Rightarrow> c | None \<Rightarrow> []))"
    "subseq (map Some (accepted_resources answers)) (map (\<lambda>m. sent_resource (Body (sm_body m))) ms)"
proof -
  obtain ms xs where ms: "queue e' = queue e @ ms" "\<forall>m\<in>set ms. to_queue.of_request url trace vs ul (fst ` set rs) m"
    "list_all2 (to_queue.carries url trace) xs ms" "subseq (accepted_resources answers) xs"
    using to_queue.queue_after [OF assms] by blast
  have "sm_queue m = url \<and> message_for vs ul trace (fst ` set rs) (sm_body m)
      (recv_sqs_get (case sm_attributes m of Some c \<Rightarrow> c | None \<Rightarrow> []))" if m: "m \<in> set ms" for m
  proof -
    obtain r x e1 where r: "r \<in> fst ` set rs" "valid_request vs ul x r" "m = provisioning_input url (trace e1) x"
      using ms(2) m unfolding to_queue.of_request_def by blast
    have "(case sm_attributes m of Some c \<Rightarrow> c | None \<Rightarrow> []) = sqs_inject (trace e1) []"
      by (simp add: r(3) provisioning_input_def)
    then show ?thesis
      using r body_decodes [OF valid_request_utf8 [OF r(2)]] unfolding message_for_def
      by (intro conjI bexI [of _ r] exI [of _ x] exI [of _ e1]) (simp_all add: provisioning_input_def recv_sqs_injected)
  qed
  moreover have "to_queue.carries url trace x m \<longrightarrow> sent_resource (Body (sm_body m)) = Some x" for x m
    by (auto simp: to_queue.carries_def provisioning_input_def body_decodes)
  then have "map (\<lambda>m. sent_resource (Body (sm_body m))) ms = map Some xs"
    using ms(3) by (auto simp: list_all2_conv_all_nth intro: nth_equalityI)
  then have "subseq (map Some (accepted_resources answers)) (map (\<lambda>m. sent_resource (Body (sm_body m))) ms)"
    using subseq_map [OF ms(4), of Some] by simp
  ultimately show thesis using that [OF ms(1)] by blast
qed

end

text \<open>C4: Whatever requests the API is sent, one after the other, in local mode: the topic then has the
  resources of those it answered 202, in their order, possibly with repetitions and with resources
  whose request it answered 500, and each message decodes to the valid resource of one of the
  requests and carries the trace context the propagator gave in some state of the API. A run of the provisioner's consumer that fetches them
  commits each exactly once and in order, under the trace context of its message.\<close>

theorem accepted_requests_are_consumed:
  assumes "kafka_topic rt kwriter topic" "\<forall>(r, w)\<in>set rs. fresh_writer w"
    and "serve_all (Provision rt vs ul (NewResourceService rt (kafka_publish kwriter trace) lg)) rs e = (answers, e')"
    and "kafka_world ins obs left stopped (new_reader cfg)"
  shows "\<exists>ms. topic e' = topic e @ ms \<and>
    (\<forall>m\<in>set ms. message_for vs ul trace (fst ` set rs) (km_value m) (recv_kafka_get (km_headers m))) \<and>
    subseq (map Some (accepted_resources answers)) (map (\<lambda>m. sent_resource (Body (km_value m))) ms) \<and>
    (\<exists>t err d'. RunKafka new_reader ins ctx cfg NewMetrics plg d = Some (Some err, d') \<and> obs d' = obs d @ t \<and>
       (fetched t = ms \<longrightarrow> map fst (commits t) = ms \<and>
          processed_under t = map (\<lambda>m. extractKafka (in_extract ins) ctx (km_headers m)) ms))"
proof -
  obtain ms where ms: "topic e' = topic e @ ms"
    "\<forall>m\<in>set ms. message_for vs ul trace (fst ` set rs) (km_value m) (recv_kafka_get (km_headers m))"
    "subseq (map Some (accepted_resources answers)) (map (\<lambda>m. sent_resource (Body (km_value m))) ms)"
    by (rule kafka_topic.topic_after [OF assms(1,3,2)])
  obtain t err d' where t: "RunKafka new_reader ins ctx cfg NewMetrics plg d = Some (Some err, d')"
    "moves obs left stopped t d d'" "kafka_run_ok (in_extract ins) plg ctx t"
    using kafka_world.run_kafka [OF assms(4), where new_reader = new_reader and cfg = cfg, OF refl,
        where lg = plg and ctx = ctx and e = d] by blast
  then have "obs d' = obs d @ t" "fetched t = ms \<longrightarrow> map fst (commits t) = ms \<and>
      processed_under t = map (\<lambda>m. extractKafka (in_extract ins) ctx (km_headers m)) ms"
    by (auto simp: moves_def kafka_run_ok_def)
  with ms t(1) show ?thesis by blast
qed

text \<open>What SQS hands to a receiver for an input it took: the same body and attributes, with a receipt.\<close>

definition delivery_of :: "sqs_message_input \<Rightarrow> sqs_message \<Rightarrow> bool" where
  "delivery_of m d \<longleftrightarrow> sq_body d = Some (sm_body m) \<and>
     sq_attributes d = (case sm_attributes m of Some c \<Rightarrow> c | None \<Rightarrow> [])"

text \<open>C5: The same of a deployed system: the SQS queue has every resource whose request was answered 202,
  and nothing but valid resources of the requests. When the queue has delivered each of its new
  messages to a run of the provisioner's consumer, at least once and in whatever order, then for
  every accepted resource a message that decodes to it was deleted with its own receipt.\<close>

theorem accepted_requests_are_deleted:
  assumes "sqs_queue rt send queue" "\<forall>(r, w)\<in>set rs. fresh_writer w"
    and "serve_all (Provision rt vs ul (NewResourceService rt (sqs_publish send url trace) lg)) rs e = (answers, e')"
    and "sqs_world ins obs left stopped client"
  shows "\<exists>ms. queue e' = queue e @ ms \<and>
    (\<forall>m\<in>set ms. sm_queue m = url \<and> message_for vs ul trace (fst ` set rs) (sm_body m)
       (recv_sqs_get (case sm_attributes m of Some c \<Rightarrow> c | None \<Rightarrow> []))) \<and>
    (\<exists>t err d'. RunSQS ins ctx client url NewMetrics plg d = Some (Some err, d') \<and> obs d' = obs d @ t \<and>
       ((\<forall>m\<in>set ms. \<exists>dm\<in>set (delivered t). delivery_of m dm) \<longrightarrow>
        (\<forall>x\<in>set (accepted_resources answers). \<exists>dm\<in>set (delivered t).
           sent_resource (Body (to_string (sq_body dm))) = Some x \<and>
           message_for vs ul trace (fst ` set rs) (to_string (sq_body dm)) (recv_sqs_get (sq_attributes dm)) \<and>
           \<lparr>di_queue = url, di_receipt = sq_receipt dm\<rparr> \<in> set (map fst (deletes t)))))"
proof -
  obtain ms where ms: "queue e' = queue e @ ms"
    "\<forall>m\<in>set ms. sm_queue m = url \<and> message_for vs ul trace (fst ` set rs) (sm_body m)
       (recv_sqs_get (case sm_attributes m of Some c \<Rightarrow> c | None \<Rightarrow> []))"
    "subseq (map Some (accepted_resources answers)) (map (\<lambda>m. sent_resource (Body (sm_body m))) ms)"
    by (rule sqs_queue.queue_after_all [OF assms(1,3,2)])
  obtain t err d' where t: "RunSQS ins ctx client url NewMetrics plg d = Some (Some err, d')"
    "moves obs left stopped t d d'" "sqs_run_ok url t"
    using sqs_world.run_sqs [OF assms(4), where lg = plg and ctx = ctx and e = d and url = url] by blast
  have "\<exists>dm\<in>set (delivered t). sent_resource (Body (to_string (sq_body dm))) = Some x \<and>
      message_for vs ul trace (fst ` set rs) (to_string (sq_body dm)) (recv_sqs_get (sq_attributes dm)) \<and>
      \<lparr>di_queue = url, di_receipt = sq_receipt dm\<rparr> \<in> set (map fst (deletes t))"
    if all: "\<forall>m\<in>set ms. \<exists>dm\<in>set (delivered t). delivery_of m dm" and x: "x \<in> set (accepted_resources answers)" for x
  proof -
    have "Some x \<in> set (map Some (accepted_resources answers))" using x by simp
    then have "Some x \<in> set (map (\<lambda>m. sent_resource (Body (sm_body m))) ms)"
      by (rule list_emb_set [OF ms(3)]) simp
    then obtain m where m: "m \<in> set ms" "sent_resource (Body (sm_body m)) = Some x" by auto
    with all obtain dm where dm: "dm \<in> set (delivered t)" "delivery_of m dm" by blast
    then have "to_string (sq_body dm) = sm_body m"
      "sq_attributes dm = (case sm_attributes m of Some c \<Rightarrow> c | None \<Rightarrow> [])"
      by (simp_all add: delivery_of_def to_string_def)
    moreover have "\<lparr>di_queue = url, di_receipt = sq_receipt dm\<rparr> \<in> set (map fst (deletes t))"
      using t(3) dm(1) by (simp add: sqs_run_ok_def)
    ultimately show ?thesis using ms(2) m dm(1) by (intro bexI [of _ dm]) simp_all
  qed
  with ms(1,2) t show ?thesis unfolding moves_def by blast
qed

subsection \<open>Witnesses\<close>

text \<open>Queues in a record. A good request, one that is refused, and a queue that takes a message twice.\<close>

record queue_world = sim +
  qw_topic :: "kafka_message list"
  qw_queue :: "sqs_message_input list"

definition double_writer :: "('m queue_world_scheme) kafka_writer" where
  "double_writer m e = (Inr (), e\<lparr>qw_topic := qw_topic e @ [m, m]\<rparr>)"

definition double_sender :: "('m queue_world_scheme) sqs_sender" where
  "double_sender m e = (Inr (), e\<lparr>qw_queue := qw_queue e @ [m, m]\<rparr>)"

lemma twice: "[m, m] = replicate 2 m"
  by (simp add: numeral_2_eq_2)

interpretation topic_sim: kafka_topic sim_runtime double_writer qw_topic
  by unfold_locales (auto simp: double_writer_def sim_runtime_def twice intro: exI [of _ 2])

interpretation queue_sim: sqs_queue sim_runtime double_sender qw_queue
  by unfold_locales (auto simp: double_sender_def sim_runtime_def twice intro: exI [of _ 2])

definition empty_queues :: queue_world where
  "empty_queues = \<lparr>sim_time = 0, sim_ids = 0, sim_added = [], sim_points = [], sim_log = [], qw_topic = [], qw_queue = []\<rparr>"

definition sample_requests :: "(http_request \<times> writer) list" where
  "sample_requests =
     [(request_with (print_json (resource_json sample_resource)), fresh),
      (request_with (print_json (resource_json azure_resource)), fresh)]"

lemma sample_writers: "\<forall>(r, w)\<in>set sample_requests. fresh_writer w"
  by (simp add: sample_requests_def fresh_fresh)

definition sample_provision :: "(resource \<Rightarrow> 'm queue_world_scheme \<Rightarrow> (goerr + unit) \<times> 'm queue_world_scheme) \<Rightarrow> 'm queue_world_scheme handler" where
  "sample_provision publish = Provision sim_runtime go_validator id (NewResourceService sim_runtime publish None)"

lemma sample_served:
  assumes "publish sample_resource e = (Inr (), e1)"
  shows "\<exists>answers. serve_all (sample_provision publish) sample_requests e = (answers, e1\<lparr>sim_time := sim_time e1 + millisecond\<rparr>) \<and>
     accepted_resources answers = [sample_resource]"
proof -
  let ?good = "request_with (print_json (resource_json sample_resource))"
  let ?bad = "request_with (print_json (resource_json azure_resource))"
  let ?e1 = "e1\<lparr>sim_time := sim_time e1 + millisecond\<rparr>"
  have "publishing_logged sim_runtime None sample_resource e = e" by (simp add: publishing_logged_def service_logger_def)
  then obtain w1 where "sample_provision publish ?good fresh e = (Returned, ?good, w1, ?e1)" "response_status w1 = Some 202"
    using provision_served [OF fresh_fresh request_with_resource [OF sample_resource_utf8] sample_resource_valid,
        where publish = publish and rt = sim_runtime and lg = None and e = e] assms
    by (auto simp: sample_provision_def sim_runtime_def)
  moreover have "unacceptable go_validator id resource_struct ?bad"
    using azure_resource_invalid by (simp add: unacceptable_def request_with_resource [OF azure_resource_utf8])
  then obtain w2 where "sample_provision publish ?bad fresh ?e1 = (Returned, ?bad, w2, ?e1)" "response_status w2 = Some 400"
    unfolding sample_provision_def by (rule provision_refused [OF fresh_fresh])
  ultimately show ?thesis
    by (simp add: sample_requests_def sent_resource_def request_with_resource [OF sample_resource_utf8])
qed

definition sample_sent :: kafka_message where
  "sample_sent = provisioning_message [] sample_resource"

definition sample_delivery :: "string \<Rightarrow> sqs_message" where
  "sample_delivery receipt = \<lparr>sq_body = Some (print_json (resource_json sample_resource)), sq_receipt = Some receipt,
     sq_attributes = []\<rparr>"

definition queue_script :: "kafka_message \<Rightarrow> sqs_message list \<Rightarrow> script" where
  "queue_script m ds = \<lparr>sc_left = 9, sc_fetches = [Inr m, Inr m], sc_batches = [Inr ds], sc_acks = [],
     sc_span = 0, sc_obs = []\<rparr>"

lemma queue_script_runs:
  "map_option (\<lambda>(r, d). fetched (sc_obs d))
     (RunKafka script_reader script_instruments [] sample_kafka_config NewMetrics sample_p_logger (queue_script m ds)) =
   Some [m, m]"
  "map_option (\<lambda>(r, d). delivered (sc_obs d))
     (RunSQS script_instruments [] script_client ''url'' NewMetrics sample_p_logger (queue_script m [d1, d2])) =
   Some [d1, d2]"
  by code_simp+

definition sample_queues :: script where
  "sample_queues = queue_script sample_sent [sample_delivery ''r1'', sample_delivery ''r2'']"

theorem accepted_requests_are_consumed_witness:
  "\<exists>answers e' err d'. serve_all (sample_provision (kafka_publish double_writer (\<lambda>e. []))) sample_requests empty_queues = (answers, e') \<and>
     accepted_resources answers = [sample_resource] \<and>
     RunKafka script_reader script_instruments [] sample_kafka_config NewMetrics sample_p_logger sample_queues = Some (Some err, d') \<and>
     map fst (commits (sc_obs d')) = qw_topic e' \<and> length (qw_topic e') = 2"
proof -
  have "kafka_publish double_writer (\<lambda>e. []) sample_resource empty_queues =
      (Inr (), empty_queues\<lparr>qw_topic := [sample_sent, sample_sent]\<rparr>)"
    by (simp add: kafka_publish_message double_writer_def sample_sent_def empty_queues_def)
  from sample_served [where publish = "kafka_publish double_writer (\<lambda>e. [])", OF this] obtain answers e' where
    api: "serve_all (sample_provision (kafka_publish double_writer (\<lambda>e. []))) sample_requests empty_queues = (answers, e')"
    "accepted_resources answers = [sample_resource]" "qw_topic e' = [sample_sent, sample_sent]" by force
  obtain ms t err d' where run: "qw_topic e' = qw_topic empty_queues @ ms"
    "RunKafka script_reader script_instruments [] sample_kafka_config NewMetrics sample_p_logger sample_queues = Some (Some err, d')"
    "sc_obs d' = sc_obs sample_queues @ t" "fetched t = ms \<longrightarrow> map fst (commits t) = ms"
    using accepted_requests_are_consumed [OF topic_sim.kafka_topic_axioms sample_writers api(1) [unfolded sample_provision_def],
        where new_reader = script_reader and cfg = sample_kafka_config, OF script_kafka.kafka_world_axioms,
        where ctx = "[]" and plg = sample_p_logger and d = sample_queues] by blast
  have "sc_obs d' = t" "ms = [sample_sent, sample_sent]" using run(1,3) api(3) by (simp_all add: sample_queues_def queue_script_def empty_queues_def)
  moreover have "fetched (sc_obs d') = [sample_sent, sample_sent]" using queue_script_runs(1) [of sample_sent "[sample_delivery ''r1'', sample_delivery ''r2'']"] run(2) by (simp add: sample_queues_def)
  ultimately show ?thesis using run(2,4) api by auto
qed

theorem accepted_requests_are_deleted_witness:
  "\<exists>answers e' err d'. serve_all (sample_provision (sqs_publish double_sender ''url'' (\<lambda>e. []))) sample_requests empty_queues = (answers, e') \<and>
     accepted_resources answers = [sample_resource] \<and>
     RunSQS script_instruments [] script_client ''url'' NewMetrics sample_p_logger sample_queues = Some (Some err, d') \<and>
     (\<exists>dm\<in>set (delivered (sc_obs d')). sent_resource (Body (to_string (sq_body dm))) = Some sample_resource \<and>
        \<lparr>di_queue = ''url'', di_receipt = sq_receipt dm\<rparr> \<in> set (map fst (deletes (sc_obs d'))))"
proof -
  let ?m = "provisioning_input ''url'' [] sample_resource"
  have "sqs_publish double_sender ''url'' (\<lambda>e. []) sample_resource empty_queues =
      (Inr (), empty_queues\<lparr>qw_queue := [?m, ?m]\<rparr>)"
    by (simp add: sqs_publish_message double_sender_def empty_queues_def)
  from sample_served [where publish = "sqs_publish double_sender ''url'' (\<lambda>e. [])", OF this] obtain answers e' where
    api: "serve_all (sample_provision (sqs_publish double_sender ''url'' (\<lambda>e. []))) sample_requests empty_queues = (answers, e')"
    "accepted_resources answers = [sample_resource]" "qw_queue e' = [?m, ?m]" by force
  obtain ms t err d' where run: "qw_queue e' = qw_queue empty_queues @ ms"
    "RunSQS script_instruments [] script_client ''url'' NewMetrics sample_p_logger sample_queues = Some (Some err, d')"
    "sc_obs d' = sc_obs sample_queues @ t"
    "(\<forall>m\<in>set ms. \<exists>dm\<in>set (delivered t). delivery_of m dm) \<longrightarrow>
       (\<forall>x\<in>set (accepted_resources answers). \<exists>dm\<in>set (delivered t).
           sent_resource (Body (to_string (sq_body dm))) = Some x \<and>
           \<lparr>di_queue = ''url'', di_receipt = sq_receipt dm\<rparr> \<in> set (map fst (deletes t)))"
    using accepted_requests_are_deleted [OF queue_sim.sqs_queue_axioms sample_writers api(1) [unfolded sample_provision_def]
        script_sqs.sqs_world_axioms, where ctx = "[]" and plg = sample_p_logger and d = sample_queues] by blast
  have t: "sc_obs d' = t" "ms = [?m, ?m]" using run(1,3) api(3) by (simp_all add: sample_queues_def queue_script_def empty_queues_def)
  have d: "delivered t = [sample_delivery ''r1'', sample_delivery ''r2'']" 
    using queue_script_runs(2) [of sample_sent "sample_delivery ''r1''" "sample_delivery ''r2''"] run(2) t(1) by (simp add: sample_queues_def)
  have "delivery_of ?m (sample_delivery ''r1'')"
    by (simp add: delivery_of_def provisioning_input_def sample_delivery_def sqs_inject_def)
  with run(4) t(2) d api(2) have "\<exists>dm\<in>set (delivered t). sent_resource (Body (to_string (sq_body dm))) = Some sample_resource \<and>
      \<lparr>di_queue = ''url'', di_receipt = sq_receipt dm\<rparr> \<in> set (map fst (deletes t))" by auto
  with api(1,2) run(2) t(1) show ?thesis by blast
qed

end
