(* ===== verification/Spec2Isabelle.thy ===== *)
theory Spec2Isabelle
  imports Idp_Prelude Value_Objects Idempotency_Expiry Api_Adapters Router_Properties Router_Idempotency Prov_Properties Bootstrap_Properties Queue_Pipeline
begin

text \<open>
  A model of the two Go services of the internal developer platform, \<open>services/api\<close> and
  \<open>services/provisioner\<close>, with the theorems that make them correct.

  The API takes provisioning requests and sign-ups over HTTP. A request goes through a chain of
  layers (gauge, duration, access log, recovery, request context, standard headers, CORS) to a
  mux and one of the handlers; provisioning is idempotent by a key the client sends, whose record
  is kept in Redis. A handler decodes and validates the body and calls a service; the services
  call the outbound adapters: Cognito for accounts, SQS or Kafka for the queue. The provisioner
  takes the messages from that queue, one loop for each transport, and acknowledges them. The two
  programs share the queue, the trace context that travels in its headers, the list of brokers
  and the form of their telemetry, and each of these is a theorem over both models.

  The models follow one scheme. Code acts on the state \<open>'e\<close> of the world, which stands for all
  that is outside of the program; a library or a service is a record of operations on it, and
  what the proofs need of its documented behaviour is a locale, with an instance on a simulated
  world. A handler takes a request, a writer and the world and returns how it ended (returned or
  panicked), the request, the writer and the world. An error return is a sum with the error on
  the left, a nil pointer is \<open>None\<close>, a Go map is an association list, a string is its bytes.
\<close>

subsection \<open>Parts of the model\<close>

text \<open>
  What the code uses of Go and of its libraries:

  \<^item> \<open>Idp_Prelude\<close>: maps as association lists, bytes, the shared collections of facts.
  \<^item> \<open>Go_Strings\<close>, \<open>Go_Regexp\<close>, \<open>Go_Base64\<close>, \<open>Go_Time\<close>, \<open>Go_Json\<close>, \<open>Go_Http\<close>: the functions of
    \<open>strings\<close>, \<open>regexp\<close>, \<open>encoding\<close>, \<open>time\<close> and \<open>net/http\<close> the services call, with the round
    trips of base64, of RFC 3339 times and of JSON.
  \<^item> \<open>Json_Text\<close>: the parser gives well-formed UTF-8 whatever bytes it reads, so what was decoded
    survives marshalling.
  \<^item> \<open>Go_Runtime\<close>: clock, UUIDs, instruments and log of a running service (locale \<open>runtime_laws\<close>).
  \<^item> \<open>Go_Validator\<close>: an instance of the validator package (locale \<open>validator_laws\<close>).

  The API (\<open>services/api/internal\<close>), from the inside out:

  \<^item> \<open>Value_Objects\<close>: \<open>domain/valueobjects\<close>. Locale \<open>value_object\<close> is the contract all six
    constructors share: what is accepted is valid and is accepted again unchanged.
  \<^item> \<open>Domain_Errors\<close>: \<open>domain/errors\<close>; \<open>errors.Is\<close> is reachability in the chain of causes.
  \<^item> \<open>Api_Domain\<close>, \<open>Api_Adapters\<close>, \<open>Text_Map_Carriers\<close>: \<open>domain/model\<close>, \<open>domain/ports\<close>,
    \<open>application/service\<close> and \<open>adapters/outbound\<close>; the carriers of both services against the
    locale \<open>text_map_carrier\<close>, which gives the trace context its way over either queue.
  \<^item> \<open>Idempotency_Store\<close>, \<open>Redis_Store\<close>, \<open>Redis_Marker\<close>, \<open>Redis_Contract\<close>: the port, whose
    contract is the locale \<open>idempotency_store\<close>, and the store in Redis with its Lua scripts; the
    locale \<open>redis\<close> of the documented commands is a sublocale of it, so the store implements the port.
  \<^item> \<open>Idempotency_Middleware\<close>, \<open>Idempotency_Protocol\<close>, \<open>Idempotency_Properties\<close>,
    \<open>Idempotency_Expiry\<close>: the middleware as one call, as three steps of any number of interleaved
    clients (a step relation with its reachable states and an invariant), the properties over every
    store with the contract, the harm a completion does that comes after its reservation expired, and what of them remains when records expire while requests run.
  \<^item> \<open>Api_Responses\<close>, \<open>Api_Handlers\<close>, \<open>Handler_Properties\<close>: \<open>validation.go\<close>, \<open>response.go\<close>
    and the handlers; which requests are turned away, and what reaches a service and a queue.
  \<^item> \<open>Api_Logger\<close>, \<open>Api_Middleware\<close>, \<open>Middleware_Layers\<close>, \<open>Api_Router\<close>, \<open>Router_Properties\<close>,
    \<open>Routing_Properties\<close>, \<open>Router_Idempotency\<close>: the logger, the layers, the router. A layer is
    described by the actions it adds to the writer (\<open>w_action\<close>), and the chain by composing the
    descriptions; \<open>served_by\<close> is the table of routes as a function, which the mux is shown to
    follow. \<open>Router_Idempotency\<close> carries the properties of the middleware through the whole
    chain.
  \<^item> \<open>Api_Config\<close>, \<open>Telemetry_Setup\<close>, \<open>Api_Infrastructure\<close>, \<open>Api_Bootstrap\<close>,
    \<open>Bootstrap_Properties\<close>: the configuration, the telemetry pipelines, the clients and the
    server, and the composition root with \<open>cmd/server/main.go\<close>: which parts the two modes wire,
    which errors a start gives, what a shutdown releases (locales \<open>otel_laws\<close>, \<open>boot_laws\<close>).

  The provisioner (\<open>services/provisioner\<close>):

  \<^item> \<open>Provisioner_Logger\<close>: \<open>internal/logger\<close>, a logger that is a logrus entry with a context.
  \<^item> \<open>Prov_Consumer\<close>, \<open>Consumer_World\<close>, \<open>Consumer_Properties\<close>: \<open>internal/consumer\<close>. The loops
    are partial functions; locales \<open>observed_world\<close>, \<open>kafka_world\<close> and \<open>sqs_world\<close> say what is
    observed of a run, and each run's trace is one of a grammar given as inductive predicates.
  \<^item> \<open>Telemetry_Setup\<close>: \<open>internal/telemetry\<close>, beside the API's pipelines.
  \<^item> \<open>Prov_Main\<close>, \<open>Prov_Properties\<close>: \<open>cmd/consumer/main.go\<close>, its endings and the list of brokers.

  Both together: \<open>Queue_Pipeline\<close> follows the requests through the API's handler, the queue and the
  provisioner's consumer. Locale \<open>resource_queue\<close> is what the API relies on; \<open>kafka_topic\<close> and
  \<open>sqs_queue\<close>, the behaviour of the two client libraries, are sublocales of it.
\<close>

subsection \<open>Bounds\<close>

text \<open>
  The JSON parser takes fuel, \<open>json_fuel\<close>, twice the length of the text and two more: each value
  costs at most two levels for every byte it has, and \<open>need_le\<close> shows it enough for every text
  the printer gives. A value nested deeper than \<open>maxNestingDepth\<close>, the 10000 levels of Go's scanner, is
  refused, and every envelope and resource is shown to stay below it. No other definition has a bound. The consumers' loops may run for ever: they
  are partial functions, and that they return once the context is cancelled is a theorem
  (\<open>consumers_return\<close>). The remaining loops are total functions with a measure. Times and
  durations are integers of nanoseconds; the range of an \<open>int64\<close> is written out where the code
  can reach it, in parsing durations and numbers and in the time to live a Redis command takes.
\<close>

subsection \<open>Not modelled\<close>

text \<open>
  Third-party code is a parameter: the Redis, AWS, Kafka and Cognito clients, the OpenTelemetry
  SDK and \<open>otelhttp\<close>, logrus, the validator package, the Swagger UI, UUID parsing, SHA-256, the
  Unicode case tables beyond ASCII and the floating-point fraction of a duration. The server's
  listener is not run: \<open>Start\<close> is given whether a signal, a cancellation or an error of the
  listener came first. When a record expires is not computed from its time to live: an expiry is a
  step of \<open>Idempotency_Expiry\<close> that may come at any moment. Paths are taken
  without percent-escapes, so that \<open>URL.RawPath\<close> is empty; the context of a request is part of the world, from which
  the propagator reads the trace context. The test doubles, the Swagger document, the Scaffolder
  (a service in C#), the infrastructure under \<open>infra\<close> and \<open>k8s\<close> and the load tests are left out:
  they run no code of the two services.
\<close>

end
